theory Spec2Isabelle
  imports Main "HOL-Library.Word"
begin

unbundle bit_operations_syntax

section \<open>Bytes, slices and big-endian numbers\<close>

type_synonym byte = "8 word"
type_synonym bytes = "byte list"

text \<open>
  The errors of \<^verbatim>\<open>openpgp/errors\<close> as the source raises them, the reader's short-read
  error, and a run-time panic (an explicit \<^verbatim>\<open>panic\<close>, an index or slice out of range,
  a failed type assertion, a nil dereference). A message keeps the literal text of the
  source; the formatted value that the source appends to some messages is left out.
\<close>

datatype error =
    UnsupportedError string
  | InvalidArgumentError string
  | SignatureError string
  | StructuralError string
  | ErrUnexpectedEOF
  | WriteError string
  | Panic string

text \<open>
  Go's \<^verbatim>\<open>copy(dst[off:], src)\<close>: the number of bytes copied is the smaller of the two
  lengths; the call returns that number and overwrites that many bytes of \<open>dst\<close>.
\<close>

definition copy_n :: "bytes \<Rightarrow> nat \<Rightarrow> bytes \<Rightarrow> nat" where
  "copy_n dst off src = min (length dst - off) (length src)"

definition copy_at :: "bytes \<Rightarrow> nat \<Rightarrow> bytes \<Rightarrow> bytes" where
  "copy_at dst off src =
     take off dst @ take (copy_n dst off src) src @ drop (off + copy_n dst off src) dst"

text \<open>\<^verbatim>\<open>binary.BigEndian.PutUint32\<close> and \<^verbatim>\<open>PutUint64\<close>, and \<^verbatim>\<open>Uint64\<close> on an 8-byte slice.\<close>

definition PutUint32 :: "32 word \<Rightarrow> bytes" where
  "PutUint32 v = [ucast (drop_bit 24 v), ucast (drop_bit 16 v), ucast (drop_bit 8 v), ucast v]"

definition PutUint64 :: "64 word \<Rightarrow> bytes" where
  "PutUint64 v =
     [ucast (drop_bit 56 v), ucast (drop_bit 48 v), ucast (drop_bit 40 v), ucast (drop_bit 32 v),
      ucast (drop_bit 24 v), ucast (drop_bit 16 v), ucast (drop_bit 8 v), ucast v]"

section \<open>The SHA-1 digest (package sha1)\<close>

text \<open>
  \<^verbatim>\<open>type digest struct { h [5]uint32; x [chunk]byte; nx int; len uint64 }\<close>.
  The five chaining words are a tuple; the buffer is a list that every operation keeps
  at 64 bytes; \<open>nx\<close> never goes negative and is a natural number.
\<close>

type_synonym h5 = "32 word \<times> 32 word \<times> 32 word \<times> 32 word \<times> 32 word"

record digest =
  d_h :: h5
  d_x :: bytes
  d_nx :: nat
  d_len :: "64 word"

definition chunk :: nat where
  "chunk = 64"

definition init0 :: "32 word" where "init0 = 0x67452301"
definition init1 :: "32 word" where "init1 = 0xEFCDAB89"
definition init2 :: "32 word" where "init2 = 0x98BADCFE"
definition init3 :: "32 word" where "init3 = 0x10325476"
definition init4 :: "32 word" where "init4 = 0xC3D2E1F0"

text \<open>
  The compression function \<^verbatim>\<open>block(dig *digest, p []byte)\<close> is declared in another file
  of the package that is not part of the sources at hand. It is taken as a parameter
  \<open>blk\<close>: it reads the chaining value and a whole number of 64-byte chunks and returns
  the new chaining value; buffer, count and length are not its business.
\<close>

type_synonym block_fn = "h5 \<Rightarrow> bytes \<Rightarrow> h5"

definition block :: "block_fn \<Rightarrow> digest \<Rightarrow> bytes \<Rightarrow> digest" where
  "block blk d p = d\<lparr>d_h := blk (d_h d) p\<rparr>"

text \<open>The zero value \<^verbatim>\<open>new(digest)\<close> / \<^verbatim>\<open>var d digest\<close>.\<close>

definition zero_digest :: digest where
  "zero_digest = \<lparr>d_h = (0, 0, 0, 0, 0), d_x = replicate 64 0, d_nx = 0, d_len = 0\<rparr>"

definition Reset :: "digest \<Rightarrow> digest" where
  "Reset d = d\<lparr>d_h := (init0, init1, init2, init3, init4), d_nx := 0, d_len := 0\<rparr>"

text \<open>\<^verbatim>\<open>sha1.New\<close>: a fresh digest, reset.\<close>

definition New :: digest where
  "New = Reset zero_digest"

text \<open>
  \<^verbatim>\<open>func (d *digest) Write(p []byte) (nn int, err error)\<close>. The call always returns
  \<open>(len(p), nil)\<close>; the model returns the digest it leaves behind. The three steps of
  the source are three definitions, each returning the digest and the rest of \<open>p\<close>.
\<close>

definition Write_fill :: "block_fn \<Rightarrow> digest \<Rightarrow> bytes \<Rightarrow> digest \<times> bytes" where
  "Write_fill blk d p =
     (if d_nx d > 0 then
        (let n = copy_n (d_x d) (d_nx d) p;
             d1 = d\<lparr>d_x := copy_at (d_x d) (d_nx d) p, d_nx := d_nx d + n\<rparr>;
             d2 = (if d_nx d1 = chunk then (block blk d1 (d_x d1))\<lparr>d_nx := 0\<rparr> else d1)
         in (d2, drop n p))
      else (d, p))"

definition Write_blocks :: "block_fn \<Rightarrow> digest \<Rightarrow> bytes \<Rightarrow> digest \<times> bytes" where
  "Write_blocks blk d p =
     (if length p \<ge> chunk then
        (let n = length p - length p mod chunk
         in (block blk d (take n p), drop n p))
      else (d, p))"

definition Write_rest :: "digest \<Rightarrow> bytes \<Rightarrow> digest" where
  "Write_rest d p =
     (if length p > 0 then d\<lparr>d_x := copy_at (d_x d) 0 p, d_nx := copy_n (d_x d) 0 p\<rparr> else d)"

definition Write :: "block_fn \<Rightarrow> digest \<Rightarrow> bytes \<Rightarrow> digest" where
  "Write blk d p =
     (let d0 = d\<lparr>d_len := d_len d + of_nat (length p)\<rparr>;
          (d1, p1) = Write_fill blk d0 p;
          (d2, p2) = Write_blocks blk d1 p1
      in Write_rest d2 p2)"

text \<open>
  \<^verbatim>\<open>checkSum\<close>: the padding write, the length write, the check of \<open>nx\<close>, the output.
  \<open>checkSum_pad\<close> is the digest after the two writes.
\<close>

definition tmp0 :: bytes where
  "tmp0 = 0x80 # replicate 63 0"

definition checkSum_pad :: "block_fn \<Rightarrow> digest \<Rightarrow> digest" where
  "checkSum_pad blk d =
     (let len = d_len d;
          m = unat len mod 64;
          d1 = (if m < 56 then Write blk d (take (56 - m) tmp0)
                else Write blk d (take (64 + 56 - m) tmp0));
          len' = push_bit 3 len;
          tmp = copy_at tmp0 0 (PutUint64 len')
      in Write blk d1 (take 8 tmp))"

definition checkSum :: "block_fn \<Rightarrow> digest \<Rightarrow> error + bytes" where
  "checkSum blk d =
     (let d' = checkSum_pad blk d
      in if d_nx d' \<noteq> 0 then Inl (Panic ''d.nx != 0'')
         else (case d_h d' of (h0, h1, h2, h3, h4) \<Rightarrow>
                 Inr (PutUint32 h0 @ PutUint32 h1 @ PutUint32 h2 @ PutUint32 h3 @ PutUint32 h4)))"

text \<open>\<^verbatim>\<open>func (d *digest) Sum(in []byte) []byte\<close> works on a copy of the digest.\<close>

definition digest_Sum :: "block_fn \<Rightarrow> digest \<Rightarrow> bytes \<Rightarrow> error + bytes" where
  "digest_Sum blk d inp = (case checkSum blk d of Inl e \<Rightarrow> Inl e | Inr hash \<Rightarrow> Inr (inp @ hash))"

text \<open>\<^verbatim>\<open>func Sum(data []byte) [Size]byte\<close>.\<close>

definition Sum :: "block_fn \<Rightarrow> bytes \<Rightarrow> error + bytes" where
  "Sum blk data = checkSum blk (Write blk (Reset zero_digest) data)"

text \<open>The digest states that \<^verbatim>\<open>Reset\<close> and any sequence of \<^verbatim>\<open>Write\<close> calls reach.\<close>

inductive reachable :: "block_fn \<Rightarrow> digest \<Rightarrow> bool" for blk :: block_fn where
  reach_new: "reachable blk (Reset zero_digest)"
| reach_Reset: "reachable blk d \<Longrightarrow> reachable blk (Reset d)"
| reach_Write: "reachable blk d \<Longrightarrow> reachable blk (Write blk d p)"

definition digest_inv :: "digest \<Rightarrow> bool" where
  "digest_inv d \<longleftrightarrow> length (d_x d) = 64 \<and> d_nx d < 64 \<and> d_nx d = unat (d_len d) mod 64"

section \<open>The field codec (package encoding)\<close>

text \<open>
  Modelled from the spec: the package \<^verbatim>\<open>openpgp/internal/encoding\<close> (the interface
  \<^verbatim>\<open>Field\<close> and its implementations \<^verbatim>\<open>MPI\<close> and \<^verbatim>\<open>OID\<close>) is missing from the sources at
  hand. The spec gives its contract: an MPI is a 2-byte bit-length prefix followed by
  big-endian bytes, an OID is a 1-byte length prefix followed by raw bytes, and a field
  exposes reading from a stream, its encoded length, its encoded bytes and its content.
  An MPI holds its content bytes and its 16-bit bit length.
\<close>

datatype Field = MPI bytes "16 word" | OID bytes

fun Bytes :: "Field \<Rightarrow> bytes" where
  "Bytes (MPI b l) = b"
| "Bytes (OID b) = b"

fun EncodedBytes :: "Field \<Rightarrow> bytes" where
  "EncodedBytes (MPI b l) = [ucast (drop_bit 8 l), ucast l] @ b"
| "EncodedBytes (OID b) = [of_nat (length b)] @ b"

fun EncodedLength :: "Field \<Rightarrow> nat" where
  "EncodedLength (MPI b l) = 2 + length b"
| "EncodedLength (OID b) = 1 + length b"

text \<open>
  A stream is the list of bytes still to be read. \<^verbatim>\<open>readFull\<close> (also missing) reads
  exactly \<open>k\<close> bytes or fails on a short read.
\<close>

definition readFull :: "bytes \<Rightarrow> nat \<Rightarrow> error + (bytes \<times> bytes)" where
  "readFull r k = (if length r < k then Inl ErrUnexpectedEOF else Inr (take k r, drop k r))"

definition MPI_ReadFrom :: "bytes \<Rightarrow> error + (Field \<times> bytes)" where
  "MPI_ReadFrom r =
     (case readFull r 2 of Inl e \<Rightarrow> Inl e
      | Inr (buf, r1) \<Rightarrow>
          (let l = (push_bit 8 (ucast (buf ! 0)) OR ucast (buf ! 1) :: 16 word)
           in case readFull r1 ((unat l + 7) div 8) of Inl e \<Rightarrow> Inl e
              | Inr (b, r2) \<Rightarrow> Inr (MPI b l, r2)))"

definition OID_ReadFrom :: "bytes \<Rightarrow> error + (Field \<times> bytes)" where
  "OID_ReadFrom r =
     (case readFull r 1 of Inl e \<Rightarrow> Inl e
      | Inr (buf, r1) \<Rightarrow>
          (case readFull r1 (unat (buf ! 0)) of Inl e \<Rightarrow> Inl e
           | Inr (b, r2) \<Rightarrow> Inr (OID b, r2)))"

text \<open>
  A field as the codec itself produces it: the content of an MPI has the length its
  bit-length prefix announces, the content of an OID fits its 1-byte length prefix.
\<close>

fun wf_Field :: "Field \<Rightarrow> bool" where
  "wf_Field (MPI b l) = (length b = (unat l + 7) div 8)"
| "wf_Field (OID b) = (length b < 256)"

fun is_MPI :: "Field \<Rightarrow> bool" where
  "is_MPI (MPI b l) = True"
| "is_MPI (OID b) = False"

fun is_OID :: "Field \<Rightarrow> bool" where
  "is_OID (MPI b l) = False"
| "is_OID (OID b) = True"

text \<open>
  A method call on a field of the key that is \<^verbatim>\<open>nil\<close> panics. The two helpers run
  over the fields an algorithm uses, in the order the source names them.
\<close>

fun EncodedLengths :: "Field option list \<Rightarrow> error + nat" where
  "EncodedLengths [] = Inr 0"
| "EncodedLengths (None # fs) = Inl (Panic ''nil pointer dereference'')"
| "EncodedLengths (Some f # fs) =
     (case EncodedLengths fs of Inl e \<Rightarrow> Inl e | Inr l \<Rightarrow> Inr (EncodedLength f + l))"

section \<open>Public keys (package packet)\<close>

text \<open>
  The algorithm tags and packet types are declared in \<^verbatim>\<open>packet.go\<close>, which is missing;
  \<^verbatim>\<open>PublicKeyAlgorithm\<close> is a byte and the tags are those of RFC 4880 and RFC 6637.
\<close>

definition PubKeyAlgoRSA :: byte where "PubKeyAlgoRSA = 1"
definition PubKeyAlgoRSAEncryptOnly :: byte where "PubKeyAlgoRSAEncryptOnly = 2"
definition PubKeyAlgoRSASignOnly :: byte where "PubKeyAlgoRSASignOnly = 3"
definition PubKeyAlgoElGamal :: byte where "PubKeyAlgoElGamal = 16"
definition PubKeyAlgoDSA :: byte where "PubKeyAlgoDSA = 17"
definition PubKeyAlgoECDH :: byte where "PubKeyAlgoECDH = 18"
definition PubKeyAlgoECDSA :: byte where "PubKeyAlgoECDSA = 19"
definition PubKeyAlgoEdDSA :: byte where "PubKeyAlgoEdDSA = 22"

definition packetTypePublicKey :: byte where "packetTypePublicKey = 6"
definition packetTypePublicSubkey :: byte where "packetTypePublicSubkey = 14"

definition isRSA :: "byte \<Rightarrow> bool" where
  "isRSA a \<longleftrightarrow> a = PubKeyAlgoRSA \<or> a = PubKeyAlgoRSAEncryptOnly \<or> a = PubKeyAlgoRSASignOnly"

definition known_algo :: "byte \<Rightarrow> bool" where
  "known_algo a \<longleftrightarrow> isRSA a \<or> a = PubKeyAlgoDSA \<or> a = PubKeyAlgoElGamal \<or> a = PubKeyAlgoECDSA
     \<or> a = PubKeyAlgoECDH \<or> a = PubKeyAlgoEdDSA"

text \<open>
  \<^verbatim>\<open>time.Time\<close>: the seconds since the Unix epoch that \<^verbatim>\<open>Unix()\<close> returns, and the
  nanoseconds within the second.
\<close>

record Time =
  Unix :: int
  Nanosecond :: nat

text \<open>
  The native key behind \<^verbatim>\<open>PublicKey interface{}\<close>. Big integers are natural numbers, the
  RSA exponent is a machine integer, a curve is a handle of the registry.
\<close>

type_synonym Curve = nat

datatype CurveType = Curve25519 | OtherCurveType nat

datatype SignatureAlgorithm = ecc_ECDSA | ecc_EdDSA

record CurveInfo =
  ci_Oid :: Field
  ci_Curve :: Curve
  ci_CurveType :: CurveType
  ci_SigAlgorithm :: SignatureAlgorithm

datatype NativeKey =
    NoKey
  | RSAKey nat "64 word"
  | DSAKey nat nat nat nat
  | ElGamalKey nat nat nat
  | ECDSAKey Curve nat nat
  | ECDHKey CurveType Curve nat "nat option" nat nat
  | EdDSAKey bytes

record PublicKey =
  Version :: int
  CreationTime :: Time
  PubKeyAlgo :: byte
  NativePublicKey :: NativeKey
  Fingerprint :: bytes
  KeyId :: "64 word"
  IsSubkey :: bool
  f_n :: "Field option"
  f_e :: "Field option"
  f_p :: "Field option"
  f_q :: "Field option"
  f_g :: "Field option"
  f_y :: "Field option"
  f_oid :: "Field option"
  f_kdf :: "Field option"

definition algorithmSpecificByteCount :: "PublicKey \<Rightarrow> error + nat" where
  "algorithmSpecificByteCount pk =
     (if isRSA (PubKeyAlgo pk) then EncodedLengths [f_n pk, f_e pk]
      else if PubKeyAlgo pk = PubKeyAlgoDSA then EncodedLengths [f_p pk, f_q pk, f_g pk, f_y pk]
      else if PubKeyAlgo pk = PubKeyAlgoElGamal then EncodedLengths [f_p pk, f_g pk, f_y pk]
      else if PubKeyAlgo pk = PubKeyAlgoECDSA then EncodedLengths [f_oid pk, f_p pk]
      else if PubKeyAlgo pk = PubKeyAlgoECDH then EncodedLengths [f_oid pk, f_p pk, f_kdf pk]
      else if PubKeyAlgo pk = PubKeyAlgoEdDSA then EncodedLengths [f_oid pk, f_p pk]
      else Inl (Panic ''unknown public key algorithm''))"

text \<open>
  An \<^verbatim>\<open>io.Writer\<close> is its state and its \<^verbatim>\<open>Write\<close> method, which returns the new state and
  the error (\<^verbatim>\<open>nil\<close> is \<open>None\<close>). A function that writes returns the writer's state and
  its own error; a panic travels as the error \<open>Panic\<close>, which every caller passes on at
  once.
\<close>

type_synonym 'w writer = "'w \<Rightarrow> bytes \<Rightarrow> 'w \<times> error option"

fun is_Panic :: "error option \<Rightarrow> bool" where
  "is_Panic (Some (Panic m)) = True"
| "is_Panic e = False"

text \<open>\<^verbatim>\<open>bytes.Buffer\<close>: a write appends and never fails.\<close>

definition Buffer_Write :: "bytes writer" where
  "Buffer_Write w p = (w @ p, None)"

definition SerializeSignaturePrefix :: "'w writer \<Rightarrow> 'w \<Rightarrow> PublicKey \<Rightarrow> 'w \<times> error option" where
  "SerializeSignaturePrefix wr w pk =
     (case algorithmSpecificByteCount pk of Inl e \<Rightarrow> (w, Some e)
      | Inr pLength0 \<Rightarrow>
          (if Version pk = 5 then
             (let pLength = pLength0 + 10
              in (fst (wr w [0x9A, of_nat (drop_bit 24 pLength), of_nat (drop_bit 16 pLength),
                             of_nat (drop_bit 8 pLength), of_nat pLength]), None))
           else
             (let pLength = pLength0 + 6
              in (fst (wr w [0x99, of_nat (drop_bit 8 pLength), of_nat pLength]), None))))"

text \<open>Writing the encoded fields one after the other, returning at the first error.\<close>

fun writeFields :: "'w writer \<Rightarrow> 'w \<Rightarrow> Field option list \<Rightarrow> 'w \<times> error option" where
  "writeFields wr w [] = (w, None)"
| "writeFields wr w (None # fs) = (w, Some (Panic ''nil pointer dereference''))"
| "writeFields wr w (Some f # fs) =
     (case wr w (EncodedBytes f) of
        (w', Some e) \<Rightarrow> (w', Some e)
      | (w', None) \<Rightarrow> writeFields wr w' fs)"

definition serializeFields :: "'w writer \<Rightarrow> 'w \<Rightarrow> PublicKey \<Rightarrow> 'w \<times> error option" where
  "serializeFields wr w pk =
     (if isRSA (PubKeyAlgo pk) then writeFields wr w [f_n pk, f_e pk]
      else if PubKeyAlgo pk = PubKeyAlgoDSA then writeFields wr w [f_p pk, f_q pk, f_g pk, f_y pk]
      else if PubKeyAlgo pk = PubKeyAlgoElGamal then writeFields wr w [f_p pk, f_g pk, f_y pk]
      else if PubKeyAlgo pk = PubKeyAlgoECDSA then writeFields wr w [f_oid pk, f_p pk]
      else if PubKeyAlgo pk = PubKeyAlgoECDH then writeFields wr w [f_oid pk, f_p pk, f_kdf pk]
      else if PubKeyAlgo pk = PubKeyAlgoEdDSA then writeFields wr w [f_oid pk, f_p pk]
      else (w, Some (InvalidArgumentError ''bad public-key algorithm'')))"

definition serializeWithoutHeaders :: "'w writer \<Rightarrow> 'w \<Rightarrow> PublicKey \<Rightarrow> 'w \<times> error option" where
  "serializeWithoutHeaders wr w pk =
     (let t = (word_of_int (Unix (CreationTime pk)) :: 32 word)
      in case wr w [word_of_int (Version pk),
                    ucast (drop_bit 24 t), ucast (drop_bit 16 t), ucast (drop_bit 8 t), ucast t,
                    PubKeyAlgo pk] of
           (w1, Some e) \<Rightarrow> (w1, Some e)
         | (w1, None) \<Rightarrow>
             (if Version pk = 5 then
                (case algorithmSpecificByteCount pk of Inl e \<Rightarrow> (w1, Some e)
                 | Inr n \<Rightarrow>
                     (case wr w1 [of_nat (drop_bit 24 n), of_nat (drop_bit 16 n),
                                  of_nat (drop_bit 8 n), of_nat n] of
                        (w2, Some e) \<Rightarrow> (w2, Some e)
                      | (w2, None) \<Rightarrow> serializeFields wr w2 pk))
              else serializeFields wr w1 pk))"

definition SerializeForHash :: "'w writer \<Rightarrow> 'w \<Rightarrow> PublicKey \<Rightarrow> 'w \<times> error option" where
  "SerializeForHash wr w pk =
     (case SerializeSignaturePrefix wr w pk of
        (w1, Some e) \<Rightarrow> (w1, Some e)
      | (w1, None) \<Rightarrow> serializeWithoutHeaders wr w1 pk)"

text \<open>
  \<^verbatim>\<open>serializeHeader\<close> belongs to the packet framing in \<^verbatim>\<open>packet.go\<close>, which is missing: the
  bytes of the header for a packet type and a length are the parameter \<open>hdr\<close>, written
  with one call of the writer.
\<close>

definition serializeHeader ::
    "(byte \<Rightarrow> nat \<Rightarrow> bytes) \<Rightarrow> 'w writer \<Rightarrow> 'w \<Rightarrow> byte \<Rightarrow> nat \<Rightarrow> 'w \<times> error option" where
  "serializeHeader hdr wr w ptype l = wr w (hdr ptype l)"

definition Serialize ::
    "(byte \<Rightarrow> nat \<Rightarrow> bytes) \<Rightarrow> 'w writer \<Rightarrow> 'w \<Rightarrow> PublicKey \<Rightarrow> 'w \<times> error option" where
  "Serialize hdr wr w pk =
     (case algorithmSpecificByteCount pk of Inl e \<Rightarrow> (w, Some e)
      | Inr c \<Rightarrow>
          (let length0 = 6 + c;
               length1 = (if Version pk = 5 then length0 + 4 else length0);
               packetType = (if IsSubkey pk then packetTypePublicSubkey else packetTypePublicKey)
           in case serializeHeader hdr wr w packetType length1 of
                (w1, Some e) \<Rightarrow> (w1, Some e)
              | (w1, None) \<Rightarrow> serializeWithoutHeaders wr w1 pk))"

section \<open>Diagnostic output\<close>

text \<open>
  The code prints while it works: \<^verbatim>\<open>fmt.Println\<close> and \<^verbatim>\<open>fmt.Printf\<close> write a line to
  standard output, the builtin \<^verbatim>\<open>println\<close> and \<^verbatim>\<open>fmt.Fprintf(os.Stderr, ...)\<close> write a
  line to standard error. An output is the list of the lines written, each with its
  channel and without the newline. \<open>hex_lower\<close> is the verb \<^verbatim>\<open>%x\<close> on a byte slice,
  \<open>hex_nat\<close> is \<^verbatim>\<open>%x\<close> on an unsigned integer.
\<close>

datatype channel = Stdout | Stderr

type_synonym out_lines = "(channel \<times> string) list"

definition hexdigit_lower :: "nat \<Rightarrow> char" where
  "hexdigit_lower k = ''0123456789abcdef'' ! (k mod 16)"

definition hex_lower :: "bytes \<Rightarrow> string" where
  "hex_lower b = concat (map (\<lambda>c. [hexdigit_lower (unat c div 16), hexdigit_lower (unat c mod 16)]) b)"

fun hex_nat :: "nat \<Rightarrow> string" where
  "hex_nat n = (if n < 16 then [hexdigit_lower n]
                else hex_nat (n div 16) @ [hexdigit_lower (n mod 16)])"

section \<open>Signatures, hash contexts and the collaborators\<close>

text \<open>
  Modelled from the spec: the signature packet (\<^verbatim>\<open>signature.go\<close>) is missing. The spec
  lists what the key code consumes from it: the hash algorithm, the signature version and
  type, the hash-suffix bytes, the 2-byte hash tag, the algorithm tag, the signature
  components per algorithm, the signing-capability flag, the optional key lifetime and
  the optional embedded signature.
\<close>

record SigData =
  sig_Hash :: nat
  sig_Version :: int
  sig_SigType :: byte
  sig_HashSuffix :: bytes
  sig_HashTag :: "byte \<times> byte"
  sig_PubKeyAlgo :: byte
  sig_RSASignature :: "Field option"
  sig_DSASigR :: "Field option"
  sig_DSASigS :: "Field option"
  sig_ECDSASigR :: "Field option"
  sig_ECDSASigS :: "Field option"
  sig_EdDSASigR :: "Field option"
  sig_EdDSASigS :: "Field option"
  sig_FlagSign :: bool
  sig_KeyLifetimeSecs :: "32 word option"

datatype Signature = Signature SigData "Signature option"

fun sig_data :: "Signature \<Rightarrow> SigData" where
  "sig_data (Signature d e) = d"

fun EmbeddedSignature :: "Signature \<Rightarrow> Signature option" where
  "EmbeddedSignature (Signature d e) = e"

text \<open>The identifiers of \<^verbatim>\<open>crypto.Hash\<close> in Go's standard library.\<close>

definition crypto_SHA1 :: nat where "crypto_SHA1 = 3"
definition crypto_SHA256 :: nat where "crypto_SHA256 = 5"
definition crypto_SHA512 :: nat where "crypto_SHA512 = 7"

text \<open>
  What the code calls and the sources at hand do not hold, as parameters: the SHA-1
  compression function; the digest function of every other hash (the packages
  \<^verbatim>\<open>sha256\<close> and \<^verbatim>\<open>sha512\<close> and the hashes registered elsewhere), which of them are
  registered, and the lines that \<^verbatim>\<open>sha256.Sum256\<close> prints; the curve registry and the KDF tables; the point decoder of
  \<^verbatim>\<open>crypto/elliptic\<close>; the bytes of a packet header; the metadata a version 5 signature
  adds to its hash suffix; and the four signature verifications of the cryptographic
  libraries, which answer yes or no.
\<close>

record env =
  sha1_block :: block_fn
  digest_of :: "nat \<Rightarrow> bytes \<Rightarrow> bytes"
  sha256_output :: "bytes \<Rightarrow> out_lines"
  registered :: "nat \<Rightarrow> bool"
  FindByOid :: "bytes \<Rightarrow> CurveInfo option"
  FindByCurve :: "Curve \<Rightarrow> CurveInfo option"
  FindByName :: "string \<Rightarrow> CurveInfo option"
  HashById :: "byte \<Rightarrow> nat option"
  CipherById :: "byte \<Rightarrow> nat option"
  Hash_Id :: "nat \<Rightarrow> byte"
  Cipher_Id :: "nat \<Rightarrow> byte"
  Unmarshal :: "Curve \<Rightarrow> bytes \<Rightarrow> (nat \<times> nat) option"
  Marshal :: "Curve \<Rightarrow> nat \<Rightarrow> nat \<Rightarrow> bytes"
  header_bytes :: "byte \<Rightarrow> nat \<Rightarrow> bytes"
  v5_metadata :: "SigData \<Rightarrow> bytes"
  VerifyPKCS1v15 :: "nat \<Rightarrow> 64 word \<Rightarrow> nat \<Rightarrow> bytes \<Rightarrow> bytes \<Rightarrow> bool"
  dsa_Verify :: "nat \<times> nat \<times> nat \<times> nat \<Rightarrow> bytes \<Rightarrow> nat \<Rightarrow> nat \<Rightarrow> bool"
  ecdsa_Verify :: "Curve \<times> nat \<times> nat \<Rightarrow> bytes \<Rightarrow> nat \<Rightarrow> nat \<Rightarrow> bool"
  ed25519_Verify :: "bytes \<Rightarrow> bytes \<Rightarrow> bytes \<Rightarrow> bool"

text \<open>
  \<^verbatim>\<open>init\<close> registers SHA-1, SHA-256 and SHA-512; other packages may register more.
\<close>

definition Available :: "env \<Rightarrow> nat \<Rightarrow> bool" where
  "Available env hashFunc \<longleftrightarrow>
     hashFunc = crypto_SHA1 \<or> hashFunc = crypto_SHA256 \<or> hashFunc = crypto_SHA512
     \<or> registered env hashFunc"

text \<open>
  A \<^verbatim>\<open>hash.Hash\<close> is either the SHA-1 digest of this repository or, for the hashes whose
  code is missing, the identifier of the hash with the bytes written so far.
\<close>

datatype Hash = SHA1_Hash digest | Generic_Hash nat bytes

definition Hash_Write :: "env \<Rightarrow> Hash writer" where
  "Hash_Write env h p =
     (case h of
        SHA1_Hash d \<Rightarrow> (SHA1_Hash (Write (sha1_block env) d p), None)
      | Generic_Hash i b \<Rightarrow> (Generic_Hash i (b @ p), None))"

definition Hash_Sum :: "env \<Rightarrow> Hash \<Rightarrow> bytes \<Rightarrow> error + bytes" where
  "Hash_Sum env h inp =
     (case h of
        SHA1_Hash d \<Rightarrow> digest_Sum (sha1_block env) d inp
      | Generic_Hash i b \<Rightarrow> Inr (inp @ digest_of env i b))"

text \<open>\<^verbatim>\<open>sha256.Sum256\<close> returns an array of 32 bytes.\<close>

definition Sum256 :: "env \<Rightarrow> bytes \<Rightarrow> bytes" where
  "Sum256 env data = copy_at (replicate 32 0) 0 (digest_of env crypto_SHA256 data)"

text \<open>\<^verbatim>\<open>binary.BigEndian.Uint64\<close> on a slice of 8 bytes.\<close>

definition Uint64 :: "bytes \<Rightarrow> 64 word" where
  "Uint64 b = foldl (\<lambda>a c. push_bit 8 a OR ucast c) 0 (take 8 b)"

section \<open>Fingerprint and key id\<close>

text \<open>
  \<^verbatim>\<open>setFingerprintAndKeyId\<close>. The error that \<^verbatim>\<open>SerializeForHash\<close> returns is dropped by
  the source; a panic is not. \<open>Fingerprint[a:b]\<close> is \<open>take (b - a) (drop a Fingerprint)\<close>.
\<close>

definition setFingerprintAndKeyId :: "env \<Rightarrow> PublicKey \<Rightarrow> error + PublicKey" where
  "setFingerprintAndKeyId env pk =
     (if Version pk = 5 then
        (case SerializeForHash Buffer_Write [] pk of
           (buffer, Some (Panic m)) \<Rightarrow> Inl (Panic m)
         | (buffer, _) \<Rightarrow>
             (let h = Sum256 env buffer;
                  fp = copy_at (replicate 32 0) 0 h
              in Inr (pk\<lparr>Fingerprint := fp, KeyId := Uint64 (take 8 fp)\<rparr>)))
      else
        (case SerializeForHash Buffer_Write [] pk of
           (buffer, Some (Panic m)) \<Rightarrow> Inl (Panic m)
         | (buffer, _) \<Rightarrow>
             (case Sum (sha1_block env) buffer of
                Inl e \<Rightarrow> Inl e
              | Inr h \<Rightarrow>
                  (let fp = copy_at (replicate 20 0) 0 h
                   in Inr (pk\<lparr>Fingerprint := fp, KeyId := Uint64 (take 8 (drop 12 fp))\<rparr>)))))"

definition UpgradeToV5 :: "env \<Rightarrow> PublicKey \<Rightarrow> error + PublicKey" where
  "UpgradeToV5 env pk = setFingerprintAndKeyId env (pk\<lparr>Version := 5\<rparr>)"

text \<open>
  \<^verbatim>\<open>fmt.Sprintf("%X", b)\<close> on a byte slice: two upper-case hexadecimal digits per byte.
\<close>

definition hexdigit_upper :: "nat \<Rightarrow> char" where
  "hexdigit_upper k = ''0123456789ABCDEF'' ! (k mod 16)"

definition hex_upper :: "bytes \<Rightarrow> string" where
  "hex_upper b = concat (map (\<lambda>c. [hexdigit_upper (unat c div 16), hexdigit_upper (unat c mod 16)]) b)"

text \<open>
  \<^verbatim>\<open>KeyIdString\<close> and \<^verbatim>\<open>KeyIdShortString\<close> slice the fingerprint at 12:20 and 16:20; a
  slice beyond the capacity of the fingerprint panics.
\<close>

definition KeyIdString :: "PublicKey \<Rightarrow> error + string" where
  "KeyIdString pk =
     (if length (Fingerprint pk) < 20 then Inl (Panic ''slice bounds out of range'')
      else Inr (hex_upper (take 8 (drop 12 (Fingerprint pk)))))"

definition KeyIdShortString :: "PublicKey \<Rightarrow> error + string" where
  "KeyIdShortString pk =
     (if length (Fingerprint pk) < 20 then Inl (Panic ''slice bounds out of range'')
      else Inr (hex_upper (take 4 (drop 16 (Fingerprint pk)))))"

section \<open>What the fingerprint derivation prints\<close>

text \<open>The lines of \<^verbatim>\<open>digest.Write\<close>, all on standard error, in the order of the source.\<close>

definition Write_out :: "block_fn \<Rightarrow> digest \<Rightarrow> bytes \<Rightarrow> out_lines" where
  "Write_out blk d p =
     (let d0 = d\<lparr>d_len := d_len d + of_nat (length p)\<rparr>;
          (d1, p1) = Write_fill blk d0 p;
          (d2, p2) = Write_blocks blk d1 p1
      in map (Pair Stderr)
           ([''custom sha1'', ''writing to sha1'', ''1sha157'',
             ''bytes to digest: '' @ hex_lower p, ''1sha135'']
            @ (if d_nx d0 > 0
               then [''1sha137'']
                    @ (if d_nx d0 + copy_n (d_x d0) (d_nx d0) p = chunk then [''1sha141''] else [])
                    @ [''1sha145'']
               else [])
            @ [''1sha148'']
            @ (if length p1 \<ge> chunk then [''1sha150'', ''1sha154''] else [])
            @ [''1sha156'']
            @ (if length p2 > 0 then [''1sha157'', ''1sha160''] else [])
            @ [''1sha162'']))"

definition checkSum_out :: "block_fn \<Rightarrow> digest \<Rightarrow> out_lines" where
  "checkSum_out blk d =
     (let len = d_len d;
          m = unat len mod 64;
          pad = (if m < 56 then take (56 - m) tmp0 else take (64 + 56 - m) tmp0);
          d1 = Write blk d pad;
          len' = push_bit 3 len;
          tmp = copy_at tmp0 0 (PutUint64 len')
      in Write_out blk d pad @ Write_out blk d1 (take 8 tmp))"

definition Sum_out :: "block_fn \<Rightarrow> bytes \<Rightarrow> out_lines" where
  "Sum_out blk data =
     Write_out blk (Reset zero_digest) data
     @ checkSum_out blk (Write blk (Reset zero_digest) data)"

text \<open>
  The lines of the serialisation functions when the writer is a \<^verbatim>\<open>bytes.Buffer\<close>, which
  prints nothing itself and never fails. A panic ends the output where it happens.
\<close>

definition SerializeSignaturePrefix_out :: "PublicKey \<Rightarrow> out_lines" where
  "SerializeSignaturePrefix_out pk =
     [(Stdout, ''pk462'')]
     @ (case algorithmSpecificByteCount pk of
          Inl e \<Rightarrow> []
        | Inr pLength \<Rightarrow>
            if Version pk = 5
            then [(Stderr, ''writing to hash 1''), (Stderr, ''done writing'')]
            else [(Stdout, ''pk475''), (Stderr, ''writing to hash 2''), (Stderr, ''done writing'')])"

text \<open>
  The lines around the writes of the fields: the lines before each field is encoded,
  and the lines after the last write. Encoding a field that is \<^verbatim>\<open>nil\<close> panics.
\<close>

fun fields_out :: "(string list \<times> Field option) list \<Rightarrow> string list \<Rightarrow> string list" where
  "fields_out [] final = final"
| "fields_out ((pre, None) # rest) final = pre"
| "fields_out ((pre, Some f) # rest) final = pre @ fields_out rest final"

definition serializeFields_out :: "PublicKey \<Rightarrow> string list" where
  "serializeFields_out pk =
     (if isRSA (PubKeyAlgo pk)
      then fields_out [([''pk520'', ''writing to hash 6''], f_n pk),
                       ([''done writing'', ''pk524'', ''writing to hash 7''], f_e pk)]
                      [''done writing'', ''pk526'']
      else if PubKeyAlgo pk = PubKeyAlgoDSA
      then fields_out [([''pk529''], f_p pk), ([''pk533''], f_q pk), ([''pk536''], f_g pk),
                       ([''pk541''], f_y pk)] [''pk543'']
      else if PubKeyAlgo pk = PubKeyAlgoElGamal
      then fields_out [([''pk546''], f_p pk), ([''pk550''], f_g pk), ([''pk554''], f_y pk)]
                      [''pk556'']
      else if PubKeyAlgo pk = PubKeyAlgoECDSA
      then fields_out [([''pk559''], f_oid pk), ([''pk563''], f_p pk)] [''pk565'']
      else if PubKeyAlgo pk = PubKeyAlgoECDH
      then fields_out [([''pk568''], f_oid pk), ([''pk571''], f_p pk), ([''pk576''], f_kdf pk)]
                      [''pk578'']
      else if PubKeyAlgo pk = PubKeyAlgoEdDSA
      then fields_out [([''pk581''], f_oid pk), ([''pk585''], f_p pk)] [''pk587'']
      else [])"

definition serializeWithoutHeaders_out :: "PublicKey \<Rightarrow> out_lines" where
  "serializeWithoutHeaders_out pk =
     map (Pair Stderr)
       ([''pk531'', ''writing to hash 3'', ''done writing'', ''pk540'']
        @ (if Version pk = 5
           then (case algorithmSpecificByteCount pk of
                   Inl e \<Rightarrow> []
                 | Inr n \<Rightarrow> [''writing to hash 5'', ''done writing'', ''pk549'']
                             @ serializeFields_out pk)
           else [''pk549''] @ serializeFields_out pk))"

definition SerializeForHash_out :: "PublicKey \<Rightarrow> out_lines" where
  "SerializeForHash_out pk =
     [(Stdout, ''pk415'')] @ SerializeSignaturePrefix_out pk
     @ (case algorithmSpecificByteCount pk of
          Inl e \<Rightarrow> []
        | Inr n \<Rightarrow> [(Stdout, ''pk417'')] @ serializeWithoutHeaders_out pk)"

text \<open>
  The lines of \<^verbatim>\<open>setFingerprintAndKeyId\<close>: those of the serialisation, those of the
  digest, and the two lines with the key id and the fingerprint.
\<close>

definition setFingerprintAndKeyId_out :: "env \<Rightarrow> PublicKey \<Rightarrow> out_lines" where
  "setFingerprintAndKeyId_out env pk =
     SerializeForHash_out pk
     @ (case SerializeForHash Buffer_Write [] pk of
          (buffer, Some (Panic m)) \<Rightarrow> []
        | (buffer, _) \<Rightarrow>
            (if Version pk = 5 then sha256_output env buffer
             else Sum_out (sha1_block env) buffer)
            @ (case setFingerprintAndKeyId env pk of
                 Inl e \<Rightarrow> []
               | Inr pk' \<Rightarrow>
                   [(Stdout, ''keyid: '' @ hex_nat (unat (KeyId pk'))),
                    (Stdout, ''fingerprint: '' @ hex_lower (Fingerprint pk'))]))"

section \<open>The hash preimage as the specification words it\<close>

text \<open>
  The specification's description of the preimage, to be compared with what
  \<^verbatim>\<open>SerializeForHash\<close> writes. \<open>be_bytes k v\<close> is the \<open>k\<close>-byte big-endian form of \<open>v\<close> and
  \<open>be_value\<close> reads a big-endian number (it is also \<^verbatim>\<open>big.Int.SetBytes\<close>).
\<close>

definition be_bytes :: "nat \<Rightarrow> nat \<Rightarrow> bytes" where
  "be_bytes k v = map (\<lambda>i. of_nat (v div 256 ^ (k - 1 - i))) [0..<k]"

definition be_value :: "bytes \<Rightarrow> nat" where
  "be_value b = foldl (\<lambda>a c. a * 256 + unat c) 0 b"

text \<open>The fields of each algorithm in the order the data model declares them.\<close>

definition declared_fields :: "PublicKey \<Rightarrow> Field option list" where
  "declared_fields pk =
     (if isRSA (PubKeyAlgo pk) then [f_n pk, f_e pk]
      else if PubKeyAlgo pk = PubKeyAlgoDSA then [f_p pk, f_q pk, f_g pk, f_y pk]
      else if PubKeyAlgo pk = PubKeyAlgoElGamal then [f_p pk, f_g pk, f_y pk]
      else if PubKeyAlgo pk = PubKeyAlgoECDSA then [f_oid pk, f_p pk]
      else if PubKeyAlgo pk = PubKeyAlgoECDH then [f_oid pk, f_p pk, f_kdf pk]
      else if PubKeyAlgo pk = PubKeyAlgoEdDSA then [f_oid pk, f_p pk]
      else [])"

definition spec_fields_bytes :: "Field list \<Rightarrow> bytes" where
  "spec_fields_bytes fs = concat (map EncodedBytes fs)"

definition spec_L :: "Field list \<Rightarrow> nat" where
  "spec_L fs = length (spec_fields_bytes fs)"

definition spec_body :: "PublicKey \<Rightarrow> Field list \<Rightarrow> bytes" where
  "spec_body pk fs =
     [word_of_int (Version pk)] @ be_bytes 4 (nat (Unix (CreationTime pk) mod 2 ^ 32))
     @ [PubKeyAlgo pk] @ (if Version pk = 5 then be_bytes 4 (spec_L fs) else [])
     @ spec_fields_bytes fs"

definition spec_prefix :: "PublicKey \<Rightarrow> Field list \<Rightarrow> bytes" where
  "spec_prefix pk fs =
     (if Version pk = 5 then [0x9A] @ be_bytes 4 (spec_L fs + 10)
      else [0x99] @ be_bytes 2 (spec_L fs + 6))"

definition spec_preimage :: "PublicKey \<Rightarrow> Field list \<Rightarrow> bytes" where
  "spec_preimage pk fs = spec_prefix pk fs @ spec_body pk fs"

text \<open>
  The same bytes as the sequence of \<^verbatim>\<open>Write\<close> calls that deliver them, and the state of a
  writer after a sequence of calls.
\<close>

definition spec_header :: "PublicKey \<Rightarrow> bytes" where
  "spec_header pk =
     [word_of_int (Version pk)] @ be_bytes 4 (nat (Unix (CreationTime pk) mod 2 ^ 32))
     @ [PubKeyAlgo pk]"

definition body_chunks :: "PublicKey \<Rightarrow> Field list \<Rightarrow> bytes list" where
  "body_chunks pk fs =
     [spec_header pk] @ (if Version pk = 5 then [be_bytes 4 (spec_L fs)] else [])
     @ map EncodedBytes fs"

definition preimage_chunks :: "PublicKey \<Rightarrow> Field list \<Rightarrow> bytes list" where
  "preimage_chunks pk fs = [spec_prefix pk fs] @ body_chunks pk fs"

definition feed :: "'w writer \<Rightarrow> 'w \<Rightarrow> bytes list \<Rightarrow> 'w" where
  "feed wr w chunks = foldl (\<lambda>w p. fst (wr w p)) w chunks"

definition never_fails :: "'w writer \<Rightarrow> bool" where
  "never_fails wr \<longleftrightarrow> (\<forall>w p. snd (wr w p) = None)"

section \<open>Example keys\<close>

text \<open>
  A version 4 RSA key with a two-byte modulus and the exponent 65537, created at
  1600000000 seconds, and the same key as version 5.
\<close>

definition example_time :: Time where
  "example_time = \<lparr>Unix = 1600000000, Nanosecond = 0\<rparr>"

definition example_rsa_key :: PublicKey where
  "example_rsa_key =
     \<lparr>Version = 4, CreationTime = example_time, PubKeyAlgo = PubKeyAlgoRSA,
      NativePublicKey = RSAKey 50491 65537, Fingerprint = [], KeyId = 0, IsSubkey = False,
      f_n = Some (MPI [0xC5, 0x3B] 16), f_e = Some (MPI [0x01, 0x00, 0x01] 17),
      f_p = None, f_q = None, f_g = None, f_y = None, f_oid = None, f_kdf = None\<rparr>"

definition example_rsa_key_v5 :: PublicKey where
  "example_rsa_key_v5 = example_rsa_key\<lparr>Version := 5\<rparr>"

section \<open>Parsing\<close>

text \<open>The zero value of the struct, on which the packet reader calls \<^verbatim>\<open>parse\<close>.\<close>

definition zero_PublicKey :: PublicKey where
  "zero_PublicKey =
     \<lparr>Version = 0, CreationTime = \<lparr>Unix = 0, Nanosecond = 0\<rparr>, PubKeyAlgo = 0,
      NativePublicKey = NoKey, Fingerprint = [], KeyId = 0, IsSubkey = False,
      f_n = None, f_e = None, f_p = None, f_q = None, f_g = None, f_y = None,
      f_oid = None, f_kdf = None\<rparr>"

text \<open>
  The loop of \<^verbatim>\<open>parseRSA\<close> that shifts the bytes of the exponent into the machine integer
  \<^verbatim>\<open>rsa.E\<close>.
\<close>

definition shift_in :: "bytes \<Rightarrow> 64 word" where
  "shift_in b = foldl (\<lambda>E c. push_bit 8 E OR ucast c) 0 b"

definition parseRSA :: "PublicKey \<Rightarrow> bytes \<Rightarrow> error + (PublicKey \<times> bytes)" where
  "parseRSA pk r =
     (case MPI_ReadFrom r of Inl err \<Rightarrow> Inl err
      | Inr (n, r1) \<Rightarrow>
     (case MPI_ReadFrom r1 of Inl err \<Rightarrow> Inl err
      | Inr (e, r2) \<Rightarrow>
          (if length (Bytes e) > 3 then Inl (UnsupportedError ''large public exponent'')
           else Inr (pk\<lparr>f_n := Some n, f_e := Some e,
                        NativePublicKey := RSAKey (be_value (Bytes n)) (shift_in (Bytes e))\<rparr>, r2))))"

definition parseDSA :: "PublicKey \<Rightarrow> bytes \<Rightarrow> error + (PublicKey \<times> bytes)" where
  "parseDSA pk r =
     (case MPI_ReadFrom r of Inl err \<Rightarrow> Inl err
      | Inr (p, r1) \<Rightarrow>
     (case MPI_ReadFrom r1 of Inl err \<Rightarrow> Inl err
      | Inr (q, r2) \<Rightarrow>
     (case MPI_ReadFrom r2 of Inl err \<Rightarrow> Inl err
      | Inr (g, r3) \<Rightarrow>
     (case MPI_ReadFrom r3 of Inl err \<Rightarrow> Inl err
      | Inr (y, r4) \<Rightarrow>
          Inr (pk\<lparr>f_p := Some p, f_q := Some q, f_g := Some g, f_y := Some y,
                   NativePublicKey := DSAKey (be_value (Bytes p)) (be_value (Bytes q))
                                             (be_value (Bytes g)) (be_value (Bytes y))\<rparr>, r4)))))"

definition parseElGamal :: "PublicKey \<Rightarrow> bytes \<Rightarrow> error + (PublicKey \<times> bytes)" where
  "parseElGamal pk r =
     (case MPI_ReadFrom r of Inl err \<Rightarrow> Inl err
      | Inr (p, r1) \<Rightarrow>
     (case MPI_ReadFrom r1 of Inl err \<Rightarrow> Inl err
      | Inr (g, r2) \<Rightarrow>
     (case MPI_ReadFrom r2 of Inl err \<Rightarrow> Inl err
      | Inr (y, r3) \<Rightarrow>
          Inr (pk\<lparr>f_p := Some p, f_g := Some g, f_y := Some y,
                   NativePublicKey := ElGamalKey (be_value (Bytes p)) (be_value (Bytes g))
                                                 (be_value (Bytes y))\<rparr>, r3))))"

definition parseECDSA :: "env \<Rightarrow> PublicKey \<Rightarrow> bytes \<Rightarrow> error + (PublicKey \<times> bytes)" where
  "parseECDSA env pk r =
     (case OID_ReadFrom r of Inl err \<Rightarrow> Inl err
      | Inr (oid, r1) \<Rightarrow>
     (case MPI_ReadFrom r1 of Inl err \<Rightarrow> Inl err
      | Inr (p, r2) \<Rightarrow>
     (case FindByOid env (Bytes oid) of
        None \<Rightarrow> Inl (UnsupportedError ''unsupported oid: '')
      | Some curveInfo \<Rightarrow>
          (if ci_SigAlgorithm curveInfo \<noteq> ecc_ECDSA then Inl (UnsupportedError ''unsupported oid: '')
           else case Unmarshal env (ci_Curve curveInfo) (Bytes p) of
                  None \<Rightarrow> Inl (UnsupportedError ''failed to parse EC point'')
                | Some (x, y) \<Rightarrow>
                    Inr (pk\<lparr>f_oid := Some oid, f_p := Some p,
                             NativePublicKey := ECDSAKey (ci_Curve curveInfo) x y\<rparr>, r2)))))"

definition parseECDH :: "env \<Rightarrow> PublicKey \<Rightarrow> bytes \<Rightarrow> error + (PublicKey \<times> bytes)" where
  "parseECDH env pk r =
     (case OID_ReadFrom r of Inl err \<Rightarrow> Inl err
      | Inr (oid, r1) \<Rightarrow>
     (case MPI_ReadFrom r1 of Inl err \<Rightarrow> Inl err
      | Inr (p, r2) \<Rightarrow>
     (case OID_ReadFrom r2 of Inl err \<Rightarrow> Inl err
      | Inr (kdf, r3) \<Rightarrow>
     (case FindByOid env (Bytes oid) of
        None \<Rightarrow> Inl (UnsupportedError ''unsupported oid: '')
      | Some curveInfo \<Rightarrow>
          (let c = ci_Curve curveInfo;
               cType = ci_CurveType curveInfo;
               xy = (if cType = Curve25519 then Some (be_value (Bytes p), None)
                     else (case Unmarshal env c (Bytes p) of
                             None \<Rightarrow> None
                           | Some (x, y) \<Rightarrow> Some (x, Some y)))
           in case xy of
                None \<Rightarrow> Inl (UnsupportedError ''failed to parse EC point'')
              | Some (x, y) \<Rightarrow>
                  (if length (Bytes kdf) < 3
                   then Inl (UnsupportedError ''unsupported ECDH KDF length: '')
                   else if Bytes kdf ! 0 \<noteq> 0x01
                   then Inl (UnsupportedError ''unsupported KDF reserved field: '')
                   else case HashById env (Bytes kdf ! 1) of
                          None \<Rightarrow> Inl (UnsupportedError ''unsupported ECDH KDF hash: '')
                        | Some kdfHash \<Rightarrow>
                            (case CipherById env (Bytes kdf ! 2) of
                               None \<Rightarrow> Inl (UnsupportedError ''unsupported ECDH KDF cipher: '')
                             | Some kdfCipher \<Rightarrow>
                                 Inr (pk\<lparr>f_oid := Some oid, f_p := Some p, f_kdf := Some kdf,
                                          NativePublicKey :=
                                            ECDHKey cType c x y kdfHash kdfCipher\<rparr>, r3))))))))"

definition parseEdDSA :: "env \<Rightarrow> PublicKey \<Rightarrow> bytes \<Rightarrow> error + (PublicKey \<times> bytes)" where
  "parseEdDSA env pk r =
     (case OID_ReadFrom r of Inl err \<Rightarrow> Inl err
      | Inr (oid, r1) \<Rightarrow>
     (case FindByOid env (Bytes oid) of
        None \<Rightarrow> Inl (UnsupportedError ''unsupported oid: '')
      | Some curveInfo \<Rightarrow>
          (if ci_SigAlgorithm curveInfo \<noteq> ecc_EdDSA then Inl (UnsupportedError ''unsupported oid: '')
           else case MPI_ReadFrom r1 of Inl err \<Rightarrow> Inl err
                | Inr (p, r2) \<Rightarrow>
                    (case Bytes p of
                       [] \<Rightarrow> Inl (Panic ''index out of range'')
                     | flag # rest \<Rightarrow>
                         (if flag = 0x04
                          then Inl (UnsupportedError ''unsupported EdDSA compression: '')
                          else if flag = 0x40
                          then Inr (pk\<lparr>f_oid := Some oid, f_p := Some p,
                                        NativePublicKey :=
                                          EdDSAKey (copy_at (replicate 32 0) 0 rest)\<rparr>, r2)
                          else Inl (UnsupportedError ''unsupported EdDSA compression: ''))))))"

text \<open>The \<^verbatim>\<open>switch\<close> of \<^verbatim>\<open>parse\<close> over the algorithm tag.\<close>

definition parse_switch :: "env \<Rightarrow> PublicKey \<Rightarrow> bytes \<Rightarrow> error + (PublicKey \<times> bytes)" where
  "parse_switch env pk r =
     (if isRSA (PubKeyAlgo pk) then parseRSA pk r
      else if PubKeyAlgo pk = PubKeyAlgoDSA then parseDSA pk r
      else if PubKeyAlgo pk = PubKeyAlgoElGamal then parseElGamal pk r
      else if PubKeyAlgo pk = PubKeyAlgoECDSA then parseECDSA env pk r
      else if PubKeyAlgo pk = PubKeyAlgoECDH then parseECDH env pk r
      else if PubKeyAlgo pk = PubKeyAlgoEdDSA then parseEdDSA env pk r
      else Inl (UnsupportedError ''public key type: ''))"

text \<open>The key after \<^verbatim>\<open>parse\<close> has stored the version, the creation time and the tag.\<close>

definition parse_header :: "PublicKey \<Rightarrow> bytes \<Rightarrow> PublicKey" where
  "parse_header pk buf =
     (let t = (push_bit 24 (ucast (buf ! 1)) OR push_bit 16 (ucast (buf ! 2))
               OR push_bit 8 (ucast (buf ! 3)) OR ucast (buf ! 4) :: 32 word)
      in pk\<lparr>Version := uint (buf ! 0),
            CreationTime := \<lparr>Unix = uint t, Nanosecond = 0\<rparr>,
            PubKeyAlgo := buf ! 5\<rparr>)"

definition parse :: "env \<Rightarrow> PublicKey \<Rightarrow> bytes \<Rightarrow> error + (PublicKey \<times> bytes)" where
  "parse env pk r =
     (case readFull r 6 of Inl err \<Rightarrow> Inl err
      | Inr (buf, r1) \<Rightarrow>
          (if buf ! 0 \<noteq> 4 \<and> buf ! 0 \<noteq> 5 then Inl (UnsupportedError ''public key version '')
           else
             (case (if uint (buf ! 0) = 5 then readFull r1 4 else Inr ([], r1)) of
                Inl err \<Rightarrow> Inl err
              | Inr (n, r2) \<Rightarrow>
                  (case parse_switch env (parse_header pk buf) r2 of
                     Inl err \<Rightarrow> Inl err
                   | Inr (pk2, r3) \<Rightarrow>
                       (case setFingerprintAndKeyId env pk2 of
                          Inl err \<Rightarrow> Inl err
                        | Inr pk3 \<Rightarrow> Inr (pk3, r3))))))"

section \<open>Constructors\<close>

text \<open>
  Modelled from the spec: the constructors of the codec (\<^verbatim>\<open>NewMPI\<close>, \<^verbatim>\<open>MPI.SetBig\<close>,
  \<^verbatim>\<open>NewOID\<close>) are missing with the rest of the package. By the spec an MPI is the
  minimal big-endian representation, without a leading zero byte, behind the 2-byte bit
  length. \<open>nat_bytes\<close> is \<^verbatim>\<open>big.Int.Bytes\<close> and \<open>BitLen\<close> is \<^verbatim>\<open>big.Int.BitLen\<close>.
\<close>

fun nat_bytes :: "nat \<Rightarrow> bytes" where
  "nat_bytes n = (if n = 0 then [] else nat_bytes (n div 256) @ [of_nat n])"

fun BitLen :: "nat \<Rightarrow> nat" where
  "BitLen n = (if n = 0 then 0 else Suc (BitLen (n div 2)))"

definition NewMPI :: "bytes \<Rightarrow> Field" where
  "NewMPI b = (let b' = dropWhile (\<lambda>c. c = 0) b in MPI b' (of_nat (BitLen (be_value b'))))"

definition SetBig :: "nat \<Rightarrow> Field" where
  "SetBig n = MPI (nat_bytes n) (of_nat (BitLen n))"

definition NewOID :: "bytes \<Rightarrow> Field" where
  "NewOID b = OID b"

text \<open>
  The struct literal of a constructor: version 4, the creation time, the algorithm and
  the native key; every other field is zero.
\<close>

definition new_v4 :: "Time \<Rightarrow> byte \<Rightarrow> NativeKey \<Rightarrow> PublicKey" where
  "new_v4 creationTime algo pub =
     zero_PublicKey\<lparr>Version := 4, CreationTime := creationTime, PubKeyAlgo := algo,
                    NativePublicKey := pub\<rparr>"

text \<open>\<^verbatim>\<open>big.NewInt(int64(pub.E))\<close> and then the magnitude, as \<^verbatim>\<open>Bytes\<close> and \<^verbatim>\<open>BitLen\<close> take it.\<close>

definition NewRSAPublicKey :: "env \<Rightarrow> Time \<Rightarrow> nat \<Rightarrow> 64 word \<Rightarrow> error + PublicKey" where
  "NewRSAPublicKey env creationTime N E =
     setFingerprintAndKeyId env
       ((new_v4 creationTime PubKeyAlgoRSA (RSAKey N E))
          \<lparr>f_n := Some (SetBig N), f_e := Some (SetBig (nat \<bar>sint E\<bar>))\<rparr>)"

definition NewDSAPublicKey :: "env \<Rightarrow> Time \<Rightarrow> nat \<Rightarrow> nat \<Rightarrow> nat \<Rightarrow> nat \<Rightarrow> error + PublicKey" where
  "NewDSAPublicKey env creationTime P Q G Y =
     setFingerprintAndKeyId env
       ((new_v4 creationTime PubKeyAlgoDSA (DSAKey P Q G Y))
          \<lparr>f_p := Some (SetBig P), f_q := Some (SetBig Q), f_g := Some (SetBig G),
           f_y := Some (SetBig Y)\<rparr>)"

definition NewElGamalPublicKey :: "env \<Rightarrow> Time \<Rightarrow> nat \<Rightarrow> nat \<Rightarrow> nat \<Rightarrow> error + PublicKey" where
  "NewElGamalPublicKey env creationTime P G Y =
     setFingerprintAndKeyId env
       ((new_v4 creationTime PubKeyAlgoElGamal (ElGamalKey P G Y))
          \<lparr>f_p := Some (SetBig P), f_g := Some (SetBig G), f_y := Some (SetBig Y)\<rparr>)"

definition NewECDSAPublicKey :: "env \<Rightarrow> Time \<Rightarrow> Curve \<Rightarrow> nat \<Rightarrow> nat \<Rightarrow> error + PublicKey" where
  "NewECDSAPublicKey env creationTime c X Y =
     (let pk = (new_v4 creationTime PubKeyAlgoECDSA (ECDSAKey c X Y))
                 \<lparr>f_p := Some (NewMPI (Marshal env c X Y))\<rparr>
      in case FindByCurve env c of
           None \<Rightarrow> Inl (Panic ''unknown elliptic curve'')
         | Some curveInfo \<Rightarrow>
             setFingerprintAndKeyId env (pk\<lparr>f_oid := Some (ci_Oid curveInfo)\<rparr>))"

definition NewECDHPublicKey ::
    "env \<Rightarrow> Time \<Rightarrow> CurveType \<Rightarrow> Curve \<Rightarrow> nat \<Rightarrow> nat option \<Rightarrow> nat \<Rightarrow> nat \<Rightarrow> error + PublicKey" where
  "NewECDHPublicKey env creationTime cType c X Y h ciph =
     (let kdf = NewOID [0x1, Hash_Id env h, Cipher_Id env ciph];
          pub = ECDHKey cType c X Y h ciph
      in if cType = Curve25519 then
           (let pk = (new_v4 creationTime PubKeyAlgoECDH pub)
                       \<lparr>f_p := Some (NewMPI (nat_bytes X)), f_kdf := Some kdf\<rparr>
            in case FindByName env ''Curve25519'' of
                 None \<Rightarrow> Inl (Panic ''unknown elliptic curve'')
               | Some curveInfo \<Rightarrow>
                   setFingerprintAndKeyId env (pk\<lparr>f_oid := Some (ci_Oid curveInfo)\<rparr>))
         else
           (case Y of
              None \<Rightarrow> Inl (Panic ''nil pointer dereference'')
            | Some Y' \<Rightarrow>
                (let pk = (new_v4 creationTime PubKeyAlgoECDH pub)
                            \<lparr>f_p := Some (NewMPI (Marshal env c X Y')), f_kdf := Some kdf\<rparr>
                 in case FindByCurve env c of
                      None \<Rightarrow> Inl (Panic ''unknown elliptic curve'')
                    | Some curveInfo \<Rightarrow>
                        setFingerprintAndKeyId env (pk\<lparr>f_oid := Some (ci_Oid curveInfo)\<rparr>))))"

definition NewEdDSAPublicKey :: "env \<Rightarrow> Time \<Rightarrow> bytes \<Rightarrow> error + PublicKey" where
  "NewEdDSAPublicKey env creationTime pub =
     (case FindByName env ''Ed25519'' of
        None \<Rightarrow> Inl (Panic ''nil pointer dereference'')
      | Some curveInfo \<Rightarrow>
          setFingerprintAndKeyId env
            ((new_v4 creationTime PubKeyAlgoEdDSA (EdDSAKey pub))
               \<lparr>f_oid := Some (ci_Oid curveInfo), f_p := Some (NewMPI ([0x40] @ pub))\<rparr>))"

section \<open>Fingerprint and key id as the specification words them\<close>

text \<open>
  The fingerprint and key id of a key are derived from its current fields: for version
  4 the fingerprint is the 20-byte SHA-1 digest of the preimage and the key id is its
  bytes 12 to 19; for version 5 the fingerprint is the 32-byte SHA-256 digest of the
  preimage and the key id is its first 8 bytes.
\<close>

definition derived :: "env \<Rightarrow> PublicKey \<Rightarrow> Field list \<Rightarrow> bool" where
  "derived env pk fs \<longleftrightarrow>
     (Version pk = 4 \<longrightarrow>
        Sum (sha1_block env) (spec_preimage pk fs) = Inr (Fingerprint pk)
        \<and> length (Fingerprint pk) = 20
        \<and> PutUint64 (KeyId pk) = drop 12 (Fingerprint pk))
     \<and> (Version pk = 5 \<longrightarrow>
        Fingerprint pk = Sum256 env (spec_preimage pk fs)
        \<and> length (Fingerprint pk) = 32
        \<and> PutUint64 (KeyId pk) = take 8 (Fingerprint pk))"

section \<open>An example environment\<close>

text \<open>
  Stand-ins for the collaborators, small enough to compute with: the compression
  function leaves the chaining value alone, a digest is 32 copies of one byte, the
  registry knows three curves, a point has one-byte coordinates, a packet header is a
  tag and a length byte, and a signature verifies when its value is the digest itself.
\<close>

definition oid_P256 :: bytes where
  "oid_P256 = [0x2A, 0x86, 0x48, 0xCE, 0x3D, 0x03, 0x01, 0x07]"

definition oid_Ed25519 :: bytes where
  "oid_Ed25519 = [0x2B, 0x06, 0x01, 0x04, 0x01, 0xDA, 0x47, 0x0F, 0x01]"

definition oid_Curve25519 :: bytes where
  "oid_Curve25519 = [0x2B, 0x06, 0x01, 0x04, 0x01, 0x97, 0x55, 0x01, 0x05, 0x01]"

definition ci_P256 :: CurveInfo where
  "ci_P256 = \<lparr>ci_Oid = OID oid_P256, ci_Curve = 1, ci_CurveType = OtherCurveType 1,
              ci_SigAlgorithm = ecc_ECDSA\<rparr>"

definition ci_Ed25519 :: CurveInfo where
  "ci_Ed25519 = \<lparr>ci_Oid = OID oid_Ed25519, ci_Curve = 2, ci_CurveType = OtherCurveType 2,
                 ci_SigAlgorithm = ecc_EdDSA\<rparr>"

definition ci_Curve25519 :: CurveInfo where
  "ci_Curve25519 = \<lparr>ci_Oid = OID oid_Curve25519, ci_Curve = 3, ci_CurveType = Curve25519,
                    ci_SigAlgorithm = ecc_ECDSA\<rparr>"

definition example_env :: env where
  "example_env =
     \<lparr>sha1_block = (\<lambda>h p. h),
      digest_of = (\<lambda>i b. replicate 32 (of_nat (i + length b))),
      sha256_output = (\<lambda>b. []),
      registered = (\<lambda>i. False),
      FindByOid = (\<lambda>b. if b = oid_P256 then Some ci_P256
                        else if b = oid_Ed25519 then Some ci_Ed25519
                        else if b = oid_Curve25519 then Some ci_Curve25519 else None),
      FindByCurve = (\<lambda>c. if c = 1 then Some ci_P256 else None),
      FindByName = (\<lambda>s. if s = ''Ed25519'' then Some ci_Ed25519
                         else if s = ''Curve25519'' then Some ci_Curve25519 else None),
      HashById = (\<lambda>b. if b = 8 then Some 5 else None),
      CipherById = (\<lambda>b. if b = 7 then Some 7 else None),
      Hash_Id = (\<lambda>h. 8),
      Cipher_Id = (\<lambda>c. 7),
      Unmarshal = (\<lambda>c b. case b of [t, x, y] \<Rightarrow> if t = 4 then Some (unat x, unat y) else None
                                  | _ \<Rightarrow> None),
      Marshal = (\<lambda>c x y. [4, of_nat x, of_nat y]),
      header_bytes = (\<lambda>t l. [0xC0 OR t, of_nat l]),
      v5_metadata = (\<lambda>d. [0, 0, 0, 0, 0, 0]),
      VerifyPKCS1v15 = (\<lambda>N E h hashed s. s = hashed),
      dsa_Verify = (\<lambda>k hashed r s. False),
      ecdsa_Verify = (\<lambda>k hashed r s. False),
      ed25519_Verify = (\<lambda>k hashed s. False)\<rparr>"

text \<open>The body of the packet of the example key, as \<^verbatim>\<open>serializeWithoutHeaders\<close> writes it.\<close>

definition example_rsa_body :: bytes where
  "example_rsa_body =
     [0x04, 0x5F, 0x5E, 0x10, 0x00, 0x01, 0x00, 0x10, 0xC5, 0x3B, 0x00, 0x11, 0x01, 0x00, 0x01]"

text \<open>The same packet body with an exponent of four bytes, and an EdDSA body whose point is empty.\<close>

definition example_rsa_body_large :: bytes where
  "example_rsa_body_large =
     [0x04, 0x5F, 0x5E, 0x10, 0x00, 0x01, 0x00, 0x10, 0xC5, 0x3B,
      0x00, 0x19, 0x01, 0x00, 0x00, 0x01]"

definition example_eddsa_body_empty_point :: bytes where
  "example_eddsa_body_empty_point =
     [0x04, 0x5F, 0x5E, 0x10, 0x00, 0x16, 0x09] @ oid_Ed25519 @ [0x00, 0x00]"

section \<open>Valid keys\<close>

text \<open>
  The valid combinations of version, algorithm and parameters of the data model: the
  version is 4 or 5, the creation time fits 32 unsigned bits, and the fields of the
  algorithm are present, of the right kind and as the codec produces them; the RSA
  exponent has at most 3 bytes; a curve OID resolves in the registry to a curve of the
  algorithm's family; an ECDSA or non-Curve25519 ECDH point decodes; the ECDH KDF field
  has its reserved byte 1 and known hash and cipher identifiers; an EdDSA point starts
  with the marker 0x40.
\<close>

fun valid_MPI :: "Field option \<Rightarrow> bool" where
  "valid_MPI (Some (MPI b l)) = (length b = (unat l + 7) div 8)"
| "valid_MPI f = False"

fun valid_OID :: "Field option \<Rightarrow> bool" where
  "valid_OID (Some (OID b)) = (length b < 256)"
| "valid_OID f = False"

fun opt_Bytes :: "Field option \<Rightarrow> bytes" where
  "opt_Bytes (Some f) = Bytes f"
| "opt_Bytes None = []"

definition valid_RSA :: "PublicKey \<Rightarrow> bool" where
  "valid_RSA pk \<longleftrightarrow> valid_MPI (f_n pk) \<and> valid_MPI (f_e pk) \<and> length (opt_Bytes (f_e pk)) \<le> 3"

definition valid_DSA :: "PublicKey \<Rightarrow> bool" where
  "valid_DSA pk \<longleftrightarrow> valid_MPI (f_p pk) \<and> valid_MPI (f_q pk) \<and> valid_MPI (f_g pk) \<and> valid_MPI (f_y pk)"

definition valid_ElGamal :: "PublicKey \<Rightarrow> bool" where
  "valid_ElGamal pk \<longleftrightarrow> valid_MPI (f_p pk) \<and> valid_MPI (f_g pk) \<and> valid_MPI (f_y pk)"

definition valid_ECDSA :: "env \<Rightarrow> PublicKey \<Rightarrow> bool" where
  "valid_ECDSA env pk \<longleftrightarrow>
     valid_OID (f_oid pk) \<and> valid_MPI (f_p pk)
     \<and> (case FindByOid env (opt_Bytes (f_oid pk)) of
           None \<Rightarrow> False
         | Some ci \<Rightarrow> ci_SigAlgorithm ci = ecc_ECDSA
                       \<and> Unmarshal env (ci_Curve ci) (opt_Bytes (f_p pk)) \<noteq> None)"

definition valid_ECDH :: "env \<Rightarrow> PublicKey \<Rightarrow> bool" where
  "valid_ECDH env pk \<longleftrightarrow>
     valid_OID (f_oid pk) \<and> valid_MPI (f_p pk) \<and> valid_OID (f_kdf pk)
     \<and> (case FindByOid env (opt_Bytes (f_oid pk)) of
           None \<Rightarrow> False
         | Some ci \<Rightarrow> ci_CurveType ci = Curve25519
                       \<or> Unmarshal env (ci_Curve ci) (opt_Bytes (f_p pk)) \<noteq> None)
     \<and> 3 \<le> length (opt_Bytes (f_kdf pk))
     \<and> opt_Bytes (f_kdf pk) ! 0 = 0x01
     \<and> HashById env (opt_Bytes (f_kdf pk) ! 1) \<noteq> None
     \<and> CipherById env (opt_Bytes (f_kdf pk) ! 2) \<noteq> None"

definition valid_EdDSA :: "env \<Rightarrow> PublicKey \<Rightarrow> bool" where
  "valid_EdDSA env pk \<longleftrightarrow>
     valid_OID (f_oid pk) \<and> valid_MPI (f_p pk)
     \<and> (case FindByOid env (opt_Bytes (f_oid pk)) of
           None \<Rightarrow> False
         | Some ci \<Rightarrow> ci_SigAlgorithm ci = ecc_EdDSA)
     \<and> (case opt_Bytes (f_p pk) of [] \<Rightarrow> False | flag # rest \<Rightarrow> flag = 0x40)"

definition valid_key :: "env \<Rightarrow> PublicKey \<Rightarrow> bool" where
  "valid_key env pk \<longleftrightarrow>
     (Version pk = 4 \<or> Version pk = 5)
     \<and> 0 \<le> Unix (CreationTime pk) \<and> Unix (CreationTime pk) < 2 ^ 32
     \<and> (if isRSA (PubKeyAlgo pk) then valid_RSA pk
         else if PubKeyAlgo pk = PubKeyAlgoDSA then valid_DSA pk
         else if PubKeyAlgo pk = PubKeyAlgoElGamal then valid_ElGamal pk
         else if PubKeyAlgo pk = PubKeyAlgoECDSA then valid_ECDSA env pk
         else if PubKeyAlgo pk = PubKeyAlgoECDH then valid_ECDH env pk
         else if PubKeyAlgo pk = PubKeyAlgoEdDSA then valid_EdDSA env pk
         else False)"

text \<open>A version 5 EdDSA key with the native point marker and 32 point bytes.\<close>

definition example_eddsa_key :: PublicKey where
  "example_eddsa_key =
     \<lparr>Version = 5, CreationTime = example_time, PubKeyAlgo = PubKeyAlgoEdDSA,
      NativePublicKey = EdDSAKey (replicate 32 1), Fingerprint = [], KeyId = 0, IsSubkey = True,
      f_n = None, f_e = None, f_p = Some (MPI (0x40 # replicate 32 1) 263),
      f_q = None, f_g = None, f_y = None, f_oid = Some (OID oid_Ed25519), f_kdf = None\<rparr>"

text \<open>
  The version 5 example key with the fingerprint and key id that
  \<^verbatim>\<open>setFingerprintAndKeyId\<close> gives it under the real SHA-256: the digest of the 24 bytes
  that \<^verbatim>\<open>SerializeForHash\<close> writes for it.
\<close>

definition example_v5_fingerprint :: bytes where
  "example_v5_fingerprint =
     [0xBC, 0xEB, 0xF9, 0x93, 0xEB, 0x29, 0xBB, 0xD6, 0x93, 0x6B, 0xED, 0x74, 0x6B, 0xB0, 0xC9, 0x54,
      0xCF, 0x47, 0x02, 0x2D, 0xC9, 0x73, 0xDF, 0x1A, 0x0D, 0x0A, 0xBE, 0x63, 0x26, 0x45, 0xC8, 0xDF]"

definition example_rsa_key_v5_derived :: PublicKey where
  "example_rsa_key_v5_derived =
     example_rsa_key_v5\<lparr>Fingerprint := example_v5_fingerprint,
                        KeyId := Uint64 (take 8 example_v5_fingerprint)\<rparr>"

section \<open>Signature verification\<close>

definition CanSign :: "PublicKey \<Rightarrow> bool" where
  "CanSign pk \<longleftrightarrow>
     PubKeyAlgo pk \<noteq> PubKeyAlgoRSAEncryptOnly \<and> PubKeyAlgo pk \<noteq> PubKeyAlgoElGamal
     \<and> PubKeyAlgo pk \<noteq> PubKeyAlgoECDH"

text \<open>
  Modelled from the spec: \<^verbatim>\<open>AddMetadataToHashSuffix\<close> is a method of the missing
  signature packet. By the spec it is the mutator that appends the version 5 metadata to
  the signature's own hash suffix; the metadata bytes are the parameter \<open>v5_metadata\<close>.
\<close>

fun AddMetadataToHashSuffix :: "env \<Rightarrow> Signature \<Rightarrow> Signature" where
  "AddMetadataToHashSuffix env (Signature d e) =
     Signature (d\<lparr>sig_HashSuffix := sig_HashSuffix d @ v5_metadata env d\<rparr>) e"

text \<open>
  Modelled from the spec: \<^verbatim>\<open>padToKeySize\<close> is missing. By the spec the RSA signature
  value is padded up to the byte size of the modulus.
\<close>

definition padToKeySize :: "nat \<Rightarrow> bytes \<Rightarrow> bytes" where
  "padToKeySize N b =
     (let k = (BitLen N + 7) div 8
      in if length b \<ge> k then b else replicate (k - length b) 0 @ b)"

text \<open>
  The \<^verbatim>\<open>switch\<close> of \<^verbatim>\<open>VerifySignature\<close> over the algorithm of the key. A native key of
  the wrong kind is a nil pointer or a failed type assertion, a signature component that
  is absent is a nil field: both panic.
\<close>

definition verify_RSA :: "env \<Rightarrow> PublicKey \<Rightarrow> SigData \<Rightarrow> bytes \<Rightarrow> error option" where
  "verify_RSA env pk sd hashBytes =
     (case NativePublicKey pk of
        RSAKey N E \<Rightarrow>
          (case sig_RSASignature sd of
             None \<Rightarrow> Some (Panic ''nil pointer dereference'')
           | Some s \<Rightarrow>
               if VerifyPKCS1v15 env N E (sig_Hash sd) hashBytes (padToKeySize N (Bytes s))
               then None else Some (SignatureError ''RSA verification failure''))
      | _ \<Rightarrow> Some (Panic ''nil pointer dereference''))"

definition verify_DSA :: "env \<Rightarrow> PublicKey \<Rightarrow> SigData \<Rightarrow> bytes \<Rightarrow> error option" where
  "verify_DSA env pk sd hashBytes =
     (case NativePublicKey pk of
        DSAKey P Q G Y \<Rightarrow>
          (let subgroupSize = (BitLen Q + 7) div 8;
               hashBytes' = (if length hashBytes > subgroupSize
                             then take subgroupSize hashBytes else hashBytes)
           in case (sig_DSASigR sd, sig_DSASigS sd) of
                (Some r, Some s) \<Rightarrow>
                  if dsa_Verify env (P, Q, G, Y) hashBytes' (be_value (Bytes r)) (be_value (Bytes s))
                  then None else Some (SignatureError ''DSA verification failure'')
              | _ \<Rightarrow> Some (Panic ''nil pointer dereference''))
      | _ \<Rightarrow> Some (Panic ''nil pointer dereference''))"

definition verify_ECDSA :: "env \<Rightarrow> PublicKey \<Rightarrow> SigData \<Rightarrow> bytes \<Rightarrow> error option" where
  "verify_ECDSA env pk sd hashBytes =
     (case NativePublicKey pk of
        ECDSAKey c X Y \<Rightarrow>
          (case (sig_ECDSASigR sd, sig_ECDSASigS sd) of
             (Some r, Some s) \<Rightarrow>
               if ecdsa_Verify env (c, X, Y) hashBytes (be_value (Bytes r)) (be_value (Bytes s))
               then None else Some (SignatureError ''ECDSA verification failure'')
           | _ \<Rightarrow> Some (Panic ''nil pointer dereference''))
      | _ \<Rightarrow> Some (Panic ''interface conversion''))"

definition verify_EdDSA :: "env \<Rightarrow> PublicKey \<Rightarrow> SigData \<Rightarrow> bytes \<Rightarrow> error option" where
  "verify_EdDSA env pk sd hashBytes =
     (case NativePublicKey pk of
        EdDSAKey pub \<Rightarrow>
          (case (sig_EdDSASigR sd, sig_EdDSASigS sd) of
             (Some r, Some s) \<Rightarrow>
               (let sigR = Bytes r; sigS = Bytes s
                in if length sigR > 32 \<or> length sigS > 64
                   then Some (Panic ''slice bounds out of range'')
                   else
                     (let eddsaSig0 = replicate 64 0;
                          eddsaSig1 = copy_at eddsaSig0 (32 - length sigR) sigR;
                          eddsaSig2 = copy_at eddsaSig1 (64 - length sigS) sigS
                      in if ed25519_Verify env pub hashBytes eddsaSig2
                         then None else Some (SignatureError ''EdDSA verification failure'')))
           | _ \<Rightarrow> Some (Panic ''nil pointer dereference''))
      | _ \<Rightarrow> Some (Panic ''interface conversion''))"

definition verify_switch :: "env \<Rightarrow> PublicKey \<Rightarrow> SigData \<Rightarrow> bytes \<Rightarrow> error option" where
  "verify_switch env pk sd hashBytes =
     (if PubKeyAlgo pk = PubKeyAlgoRSA \<or> PubKeyAlgo pk = PubKeyAlgoRSASignOnly
      then verify_RSA env pk sd hashBytes
      else if PubKeyAlgo pk = PubKeyAlgoDSA then verify_DSA env pk sd hashBytes
      else if PubKeyAlgo pk = PubKeyAlgoECDSA then verify_ECDSA env pk sd hashBytes
      else if PubKeyAlgo pk = PubKeyAlgoEdDSA then verify_EdDSA env pk sd hashBytes
      else Some (SignatureError ''Unsupported public key algorithm used in signature''))"

text \<open>
  The signature as \<^verbatim>\<open>VerifySignature\<close> hashes it: with the metadata added when the
  version is 5 and the type is 0x00 or 0x01, unchanged otherwise.
\<close>

definition with_metadata :: "env \<Rightarrow> Signature \<Rightarrow> Signature" where
  "with_metadata env sig =
     (if sig_Version (sig_data sig) = 5
         \<and> (sig_SigType (sig_data sig) = 0x00 \<or> sig_SigType (sig_data sig) = 0x01)
      then AddMetadataToHashSuffix env sig else sig)"

text \<open>
  \<^verbatim>\<open>VerifySignature\<close> returns its error and leaves the hash context and the signature
  changed; the model returns all three.
\<close>

definition VerifySignature ::
    "env \<Rightarrow> PublicKey \<Rightarrow> Hash \<Rightarrow> Signature \<Rightarrow> error option \<times> Hash \<times> Signature" where
  "VerifySignature env pk signedH sig =
     (if \<not> CanSign pk
      then (Some (InvalidArgumentError ''public key cannot generate signatures''), signedH, sig)
      else
        (let sig1 = with_metadata env sig;
             signedH1 = fst (Hash_Write env signedH (sig_HashSuffix (sig_data sig1)))
         in case Hash_Sum env signedH1 [] of
              Inl e \<Rightarrow> (Some e, signedH1, sig1)
            | Inr hashBytes \<Rightarrow>
                if length hashBytes < 2 then (Some (Panic ''index out of range''), signedH1, sig1)
                else if hashBytes ! 0 \<noteq> fst (sig_HashTag (sig_data sig1))
                        \<or> hashBytes ! 1 \<noteq> snd (sig_HashTag (sig_data sig1))
                then (Some (SignatureError ''hash tag doesn't match''), signedH1, sig1)
                else if PubKeyAlgo pk \<noteq> sig_PubKeyAlgo (sig_data sig1)
                then (Some (InvalidArgumentError
                              ''public key and signature use different algorithms''),
                      signedH1, sig1)
                else (verify_switch env pk (sig_data sig1) hashBytes, signedH1, sig1)))"

text \<open>
  \<^verbatim>\<open>keySignatureHash\<close>: a fresh hash context of the signature's hash function, fed with
  the preimage of the signing key and then with the preimage of the signed key.
\<close>

definition new_Hash :: "nat \<Rightarrow> Hash" where
  "new_Hash hashFunc =
     (if hashFunc = crypto_SHA1 then SHA1_Hash New
      else if hashFunc = crypto_SHA256 then Generic_Hash crypto_SHA256 []
      else if hashFunc = crypto_SHA512 then Generic_Hash crypto_SHA512 []
      else Generic_Hash hashFunc [])"

definition keySignatureHash :: "env \<Rightarrow> PublicKey \<Rightarrow> PublicKey \<Rightarrow> nat \<Rightarrow> error + Hash" where
  "keySignatureHash env pk signedK hashFunc =
     (if \<not> Available env hashFunc then Inl (UnsupportedError ''hash function'')
      else
        (case SerializeForHash (Hash_Write env) (new_Hash hashFunc) pk of
           (h1, Some e) \<Rightarrow> Inl e
         | (h1, None) \<Rightarrow>
             (case SerializeForHash (Hash_Write env) h1 signedK of
                (h2, Some e) \<Rightarrow> Inl e
              | (h2, None) \<Rightarrow> Inr h2)))"

text \<open>
  \<^verbatim>\<open>VerifyKeySignature\<close>. An error of the cross-signature steps is wrapped into a
  structural error; a panic is not an error value and passes through.
\<close>

fun wrap_Structural :: "string \<Rightarrow> error \<Rightarrow> error" where
  "wrap_Structural msg (Panic m) = Panic m"
| "wrap_Structural msg e = StructuralError msg"

definition VerifyKeySignature :: "env \<Rightarrow> PublicKey \<Rightarrow> PublicKey \<Rightarrow> Signature \<Rightarrow> error option" where
  "VerifyKeySignature env pk signedK sig =
     (case keySignatureHash env pk signedK (sig_Hash (sig_data sig)) of
        Inl err \<Rightarrow> Some err
      | Inr h \<Rightarrow>
          (case VerifySignature env pk h sig of
             (Some err, h', sig') \<Rightarrow> Some err
           | (None, h', sig') \<Rightarrow>
               if sig_FlagSign (sig_data sig') then
                 (case EmbeddedSignature sig' of
                    None \<Rightarrow> Some (StructuralError ''signing subkey is missing cross-signature'')
                  | Some emb \<Rightarrow>
                      (case keySignatureHash env pk signedK (sig_Hash (sig_data emb)) of
                         Inl err \<Rightarrow>
                           Some (wrap_Structural ''error while hashing for cross-signature: '' err)
                       | Inr h2 \<Rightarrow>
                           (case VerifySignature env signedK h2 emb of
                              (Some err, h3, emb') \<Rightarrow>
                                Some (wrap_Structural
                                        ''error while verifying cross-signature: '' err)
                            | (None, h3, emb') \<Rightarrow> None)))
               else None))"

text \<open>
  The signature types that the specification calls binding and direct-key types (RFC
  4880: subkey binding 0x18, primary key binding 0x19, direct key 0x1F).
\<close>

definition is_binding_or_direct_key_type :: "byte \<Rightarrow> bool" where
  "is_binding_or_direct_key_type t \<longleftrightarrow> t = 0x18 \<or> t = 0x19 \<or> t = 0x1F"

section \<open>Example signatures\<close>

text \<open>
  Signatures over SHA-256 for the example RSA key. Under the example environment the
  digest of \<open>n\<close> bytes is 32 copies of the byte \<open>5 + n\<close> and an RSA signature verifies
  when it is the digest: a key signature by the example key over itself hashes two
  preimages of 18 bytes and a hash suffix of 6, so its digest byte is 47.
\<close>

definition example_sigdata :: "int \<Rightarrow> byte \<Rightarrow> byte \<Rightarrow> SigData" where
  "example_sigdata v t d =
     \<lparr>sig_Hash = crypto_SHA256, sig_Version = v, sig_SigType = t,
      sig_HashSuffix = [0x04, t, 0x01, 0x08, 0x00, 0x00], sig_HashTag = (d, d),
      sig_PubKeyAlgo = PubKeyAlgoRSA,
      sig_RSASignature = Some (MPI (replicate 32 d) 256),
      sig_DSASigR = None, sig_DSASigS = None, sig_ECDSASigR = None, sig_ECDSASigS = None,
      sig_EdDSASigR = None, sig_EdDSASigS = None, sig_FlagSign = True,
      sig_KeyLifetimeSecs = None\<rparr>"

definition example_cross_sig :: Signature where
  "example_cross_sig = Signature (example_sigdata 4 0x19 47) None"

definition example_binding_sig :: Signature where
  "example_binding_sig = Signature (example_sigdata 4 0x18 47) (Some example_cross_sig)"

definition example_binding_sig_no_cross :: Signature where
  "example_binding_sig_no_cross = Signature (example_sigdata 4 0x18 47) None"

definition example_v5_binding_sig :: Signature where
  "example_v5_binding_sig = Signature (example_sigdata 5 0x18 11) None"

definition example_v5_document_sig :: Signature where
  "example_v5_document_sig = Signature (example_sigdata 5 0x00 17) None"

text \<open>The 18 bytes that \<^verbatim>\<open>SerializeForHash\<close> writes for the version 4 example key.\<close>

definition example_preimage :: bytes where
  "example_preimage =
     [0x99, 0x00, 0x0F, 0x04, 0x5F, 0x5E, 0x10, 0x00, 0x01,
      0x00, 0x10, 0xC5, 0x3B, 0x00, 0x11, 0x01, 0x00, 0x01]"

section \<open>Properties of the SHA-1 digest\<close>

lemma unat_add_mod64:
  "unat ((w :: 64 word) + of_nat n) mod 64 = (unat w + n) mod 64"
proof -
  have "unat (w + of_nat n) = (unat w + n) mod 2 ^ 64"
    by (simp add: unat_word_ariths unat_of_nat mod_add_right_eq)
  moreover have "(64::nat) dvd 2 ^ 64" by simp
  ultimately show ?thesis by (simp add: mod_mod_cancel)
qed

lemma Write_fill_props:
  assumes L: "length (d_x d) = 64" and N: "d_nx d < 64"
    and W: "Write_fill blk d p = (d1, p1)"
  shows "length (d_x d1) = 64" and "d_nx d1 < 64" and "d_len d1 = d_len d"
    and "(d_nx d1 + length p1) mod 64 = (d_nx d + length p) mod 64"
    and "p1 \<noteq> [] \<Longrightarrow> d_nx d1 = 0"
proof -
  consider (z) "d_nx d = 0" | (full) "d_nx d > 0" "d_nx d + length p \<ge> 64"
    | (part) "d_nx d > 0" "d_nx d + length p < 64" by linarith
  then have "length (d_x d1) = 64 \<and> d_nx d1 < 64 \<and> d_len d1 = d_len d
     \<and> (d_nx d1 + length p1) mod 64 = (d_nx d + length p) mod 64 \<and> (p1 \<noteq> [] \<longrightarrow> d_nx d1 = 0)"
  proof cases
    case z
    then show ?thesis using W L by (simp add: Write_fill_def)
  next
    case full
    then have n: "copy_n (d_x d) (d_nx d) p = 64 - d_nx d"
      using L N by (simp add: copy_n_def)
    have d1: "d_nx d1 = 0" "d_len d1 = d_len d" "d_x d1 = copy_at (d_x d) (d_nx d) p"
      and p1: "p1 = drop (64 - d_nx d) p"
      using W full N by (auto simp: Write_fill_def n chunk_def block_def Let_def)
    have "length (copy_at (d_x d) (d_nx d) p) = 64"
      using L N full by (simp add: copy_at_def n)
    moreover have "(length p - (64 - d_nx d)) mod 64 = (d_nx d + length p) mod 64"
    proof -
      have "d_nx d + length p = (length p - (64 - d_nx d)) + 64" using full N by simp
      then show ?thesis by (metis mod_add_self2)
    qed
    ultimately show ?thesis using d1 p1 by simp
  next
    case part
    then have n: "copy_n (d_x d) (d_nx d) p = length p"
      using L N by (simp add: copy_n_def)
    have d1: "d_nx d1 = d_nx d + length p" "d_len d1 = d_len d" "d_x d1 = copy_at (d_x d) (d_nx d) p"
      and p1: "p1 = []"
      using W part N by (auto simp: Write_fill_def n chunk_def block_def Let_def)
    have "length (copy_at (d_x d) (d_nx d) p) = 64"
      using L N part by (simp add: copy_at_def n)
    then show ?thesis using d1 p1 part by simp
  qed
  then show "length (d_x d1) = 64" and "d_nx d1 < 64" and "d_len d1 = d_len d"
    and "(d_nx d1 + length p1) mod 64 = (d_nx d + length p) mod 64"
    and "p1 \<noteq> [] \<Longrightarrow> d_nx d1 = 0" by simp_all
qed

lemma Write_blocks_props:
  assumes W: "Write_blocks blk d p = (d2, p2)"
  shows "d_x d2 = d_x d" and "d_nx d2 = d_nx d" and "d_len d2 = d_len d"
    and "length p2 = length p mod 64"
  using W by (auto simp: Write_blocks_def chunk_def block_def Let_def split: if_splits)

lemma Write_rest_props:
  assumes L: "length (d_x d) = 64" and P: "length p < 64" and Z: "p \<noteq> [] \<Longrightarrow> d_nx d = 0"
    and N: "d_nx d < 64"
  shows "length (d_x (Write_rest d p)) = 64" and "d_nx (Write_rest d p) = d_nx d + length p"
    and "d_len (Write_rest d p) = d_len d"
  using assms by (auto simp: Write_rest_def copy_at_def copy_n_def)


lemma Write_inv:
  assumes I: "digest_inv d"
  shows "digest_inv (Write blk d p)"
    and "d_nx (Write blk d p) = (d_nx d + length p) mod 64"
proof -
  define d0 where "d0 = d\<lparr>d_len := d_len d + of_nat (length p)\<rparr>"
  obtain d1 p1 where F: "Write_fill blk d0 p = (d1, p1)" by (cases "Write_fill blk d0 p")
  obtain d2 p2 where B: "Write_blocks blk d1 p1 = (d2, p2)" by (cases "Write_blocks blk d1 p1")
  have W: "Write blk d p = Write_rest d2 p2"
    by (simp add: Write_def Let_def d0_def [symmetric] F B)
  have L0: "length (d_x d0) = 64" and N0: "d_nx d0 < 64" and nx0: "d_nx d0 = d_nx d"
    and M: "d_nx d = unat (d_len d) mod 64"
    using I by (simp_all add: digest_inv_def d0_def)
  note f = Write_fill_props [OF L0 N0 F]
  note b = Write_blocks_props [OF B]
  have L2: "length (d_x d2) = 64" using f(1) b(1) by simp
  have P2: "length p2 < 64" using b(4) by simp
  have Z2: "p2 \<noteq> [] \<Longrightarrow> d_nx d2 = 0"
  proof -
    assume "p2 \<noteq> []"
    then have "p1 \<noteq> []" using b(4) by auto
    then show "d_nx d2 = 0" using f(5) b(2) by simp
  qed
  have N2: "d_nx d2 < 64" using f(2) b(2) by simp
  note r = Write_rest_props [OF L2 P2 Z2 N2]
  have "d_nx d1 + length p2 = (d_nx d1 + length p1) mod 64"
  proof (cases "p1 = []")
    case True
    then show ?thesis using f(2) b(4) by simp
  next
    case False
    then show ?thesis using f(5) b(4) by simp
  qed
  then have nx: "d_nx (Write_rest d2 p2) = (d_nx d + length p) mod 64"
    using r(2) b(2) f(4) nx0 by simp
  show "d_nx (Write blk d p) = (d_nx d + length p) mod 64" using W nx by simp
  have len: "d_len (Write_rest d2 p2) = d_len d + of_nat (length p)"
    using r(3) b(3) f(3) by (simp add: d0_def)
  have "(d_nx d + length p) mod 64 = unat (d_len d + of_nat (length p)) mod 64"
    by (simp add: unat_add_mod64 M mod_add_left_eq)
  then show "digest_inv (Write blk d p)"
    using W r(1) nx len by (simp add: digest_inv_def)
qed

lemma Reset_inv: "length (d_x d) = 64 \<Longrightarrow> digest_inv (Reset d)"
  by (simp add: digest_inv_def Reset_def)

lemma reachable_inv: "reachable blk d \<Longrightarrow> digest_inv d"
proof (induction rule: reachable.induct)
  case reach_new
  show ?case by (rule Reset_inv) (simp add: zero_digest_def)
next
  case (reach_Reset d)
  then show ?case by (intro Reset_inv) (simp add: digest_inv_def)
next
  case (reach_Write d p)
  then show ?case by (simp add: Write_inv(1))
qed

lemma length_take_tmp0: "n \<le> 64 \<Longrightarrow> length (take n tmp0) = n"
  by (simp add: tmp0_def)

lemma checkSum_pad_nx:
  assumes I: "digest_inv d"
  shows "d_nx (checkSum_pad blk d) = 0"
proof -
  define m where "m = unat (d_len d) mod 64"
  define d1 where "d1 = (if m < 56 then Write blk d (take (56 - m) tmp0)
                else Write blk d (take (64 + 56 - m) tmp0))"
  have m: "m < 64" "d_nx d = m" using I by (simp_all add: m_def digest_inv_def)
  have I1: "digest_inv d1" unfolding d1_def using Write_inv(1) [OF I] by simp
  have "d_nx d1 = 56"
  proof (cases "m < 56")
    case True
    then have "d_nx d1 = (m + (56 - m)) mod 64"
      unfolding d1_def using Write_inv(2) [OF I, of blk "take (56 - m) tmp0"] m
      by (simp add: length_take_tmp0 del: length_take)
    then show ?thesis using True by simp
  next
    case False
    then have "d_nx d1 = (m + (64 + 56 - m)) mod 64"
      unfolding d1_def using Write_inv(2) [OF I, of blk "take (64 + 56 - m) tmp0"] m
      by (simp add: length_take_tmp0 del: length_take)
    then show ?thesis using False m by simp
  qed
  moreover have "length (take 8 (copy_at tmp0 0 (PutUint64 w))) = 8" for w
    by (simp add: copy_at_def copy_n_def tmp0_def PutUint64_def)
  ultimately have "d_nx (Write blk d1 (take 8 (copy_at tmp0 0 (PutUint64 (push_bit 3 (d_len d)))))) = 0"
    using Write_inv(2) [OF I1, of blk] by simp
  then show ?thesis
    unfolding checkSum_pad_def Let_def m_def [symmetric] d1_def [symmetric] .
qed

text \<open>
  Claim C9. For every digest state reached by \<^verbatim>\<open>Reset\<close> and any sequence of
  \<^verbatim>\<open>Write\<close> calls, and every compression function: after \<^verbatim>\<open>checkSum\<close> has written
  the byte 0x80, the zero fill up to 56 modulo 64 and the 8-byte bit length, the count of
  buffered bytes is zero, so \<^verbatim>\<open>checkSum\<close> does not panic and returns the 20 digest bytes.
\<close>

theorem checkSum_buffer_consumed:
  assumes "reachable blk d"
  shows "d_nx (checkSum_pad blk d) = 0 \<and> (\<forall>msg. checkSum blk d \<noteq> Inl (Panic msg))
    \<and> (\<exists>out. checkSum blk d = Inr out \<and> length out = 20)"
proof -
  have z: "d_nx (checkSum_pad blk d) = 0"
    using assms by (intro checkSum_pad_nx reachable_inv)
  then show ?thesis
    by (auto simp: checkSum_def Let_def PutUint32_def split: prod.splits)
qed

theorem checkSum_buffer_consumed_witness:
  "reachable (\<lambda>h p. h) (Write (\<lambda>h p. h) (Reset zero_digest) [1, 2, 3])
   \<and> d_nx (checkSum_pad (\<lambda>h p. h) (Write (\<lambda>h p. h) (Reset zero_digest) [1, 2, 3])) = 0
   \<and> checkSum (\<lambda>h p. h) (Write (\<lambda>h p. h) (Reset zero_digest) [1, 2, 3])
      = Inr (PutUint32 init0 @ PutUint32 init1 @ PutUint32 init2 @ PutUint32 init3 @ PutUint32 init4)"
proof -
  have r: "reachable (\<lambda>h p. h) (Write (\<lambda>h p. h) (Reset zero_digest) [1, 2, 3])"
    by (intro reachable.intros)
  have h: "d_h (Write (\<lambda>h p. h) d p) = d_h d" for d p
    by (simp add: Write_def Write_fill_def Write_blocks_def Write_rest_def block_def Let_def
        split: prod.splits)
  have "d_h (checkSum_pad (\<lambda>h p. h) d) = d_h d" for d
    by (simp add: checkSum_pad_def Let_def h)
  then have "checkSum (\<lambda>h p. h) (Write (\<lambda>h p. h) (Reset zero_digest) [1, 2, 3])
      = Inr (PutUint32 init0 @ PutUint32 init1 @ PutUint32 init2 @ PutUint32 init3 @ PutUint32 init4)"
    using checkSum_buffer_consumed [OF r]
    by (simp add: checkSum_def Let_def h Reset_def)
  then show ?thesis using r checkSum_buffer_consumed [OF r] by simp
qed

lemma EncodedLength_eq: "EncodedLength f = length (EncodedBytes f)"
  by (cases f) simp_all

lemma EncodedLengths_Some:
  "EncodedLengths (map Some fs) = Inr (spec_L fs)"
  by (induction fs) (simp_all add: spec_L_def spec_fields_bytes_def EncodedLength_eq)

lemma be_bytes_2: "be_bytes 2 v = [of_nat (drop_bit 8 v), of_nat v]"
  by (simp add: be_bytes_def drop_bit_eq_div upt_rec)

lemma be_bytes_4:
  "be_bytes 4 v = [of_nat (drop_bit 24 v), of_nat (drop_bit 16 v), of_nat (drop_bit 8 v), of_nat v]"
  by (simp add: be_bytes_def drop_bit_eq_div upt_rec)

lemma be_bytes_4_word:
  "be_bytes 4 (nat (i mod 4294967296)) =
     [ucast (drop_bit 24 (word_of_int i :: 32 word)), ucast (drop_bit 16 (word_of_int i :: 32 word)),
      ucast (drop_bit 8 (word_of_int i :: 32 word)), ucast (word_of_int i :: 32 word)]"
proof -
  have u: "nat (i mod 2 ^ 32) = unat (word_of_int i :: 32 word)"
    by (simp add: unat_eq_nat_uint uint_word_of_int take_bit_eq_mod)
  have u: "nat (i mod 4294967296) = unat (word_of_int i :: 32 word)"
    using u by simp
  have c: "(ucast (drop_bit k w) :: byte) = of_nat (drop_bit k (unat w))" for k and w :: "32 word"
    by (metis of_nat_unat unat_drop_bit_eq)
  show ?thesis unfolding u be_bytes_4 by (simp add: c)
qed


lemma algorithmSpecificByteCount_Some:
  assumes "known_algo (PubKeyAlgo pk)" and "declared_fields pk = map Some fs"
  shows "algorithmSpecificByteCount pk = Inr (spec_L fs)"
  using assms EncodedLengths_Some [of fs]
  by (auto simp: algorithmSpecificByteCount_def declared_fields_def known_algo_def)

lemma never_failsD: "never_fails wr \<Longrightarrow> wr w p = (fst (wr w p), None)"
  by (metis never_fails_def prod.collapse)

lemma feed_Nil: "feed wr w [] = w"
  by (simp add: feed_def)

lemma feed_Cons: "feed wr w (c # cs) = feed wr (fst (wr w c)) cs"
  by (simp add: feed_def)

lemma feed_append: "feed wr w (cs @ ds) = feed wr (feed wr w cs) ds"
  by (simp add: feed_def)

lemma writeFields_feed:
  assumes "never_fails wr"
  shows "writeFields wr w (map Some fs) = (feed wr w (map EncodedBytes fs), None)"
proof (induction fs arbitrary: w)
  case Nil
  show ?case by (simp add: feed_Nil)
next
  case (Cons f fs)
  obtain w' where w': "wr w (EncodedBytes f) = (w', None)"
    using never_failsD [OF assms] by blast
  show ?case by (simp add: w' Cons.IH feed_Cons)
qed

lemma serializeFields_feed:
  assumes "never_fails wr" and "known_algo (PubKeyAlgo pk)" and "declared_fields pk = map Some fs"
  shows "serializeFields wr w pk = (feed wr w (map EncodedBytes fs), None)"
  using assms(2,3) writeFields_feed [OF assms(1), of w fs]
  by (auto simp: serializeFields_def declared_fields_def known_algo_def)

lemma SerializeSignaturePrefix_feed:
  assumes "known_algo (PubKeyAlgo pk)" and "declared_fields pk = map Some fs"
  shows "SerializeSignaturePrefix wr w pk = (feed wr w [spec_prefix pk fs], None)"
  by (simp add: SerializeSignaturePrefix_def algorithmSpecificByteCount_Some [OF assms]
      spec_prefix_def be_bytes_2 be_bytes_4 Let_def feed_Cons feed_Nil)

lemma serializeWithoutHeaders_feed:
  assumes nf: "never_fails wr"
    and a: "known_algo (PubKeyAlgo pk)" "declared_fields pk = map Some fs"
  shows "serializeWithoutHeaders wr w pk = (feed wr w (body_chunks pk fs), None)"
proof -
  define hd6 where "hd6 = spec_header pk"
  define w1 where "w1 = fst (wr w hd6)"
  have 1: "wr w hd6 = (w1, None)" unfolding w1_def by (rule never_failsD [OF nf])
  define c4 where "c4 = be_bytes 4 (spec_L fs)"
  define w2 where "w2 = fst (wr w1 c4)"
  have 2: "wr w1 c4 = (w2, None)" unfolding w2_def by (rule never_failsD [OF nf])
  have h: "[word_of_int (Version pk),
            ucast (drop_bit 24 (word_of_int (Unix (CreationTime pk)) :: 32 word)),
            ucast (drop_bit 16 (word_of_int (Unix (CreationTime pk)) :: 32 word)),
            ucast (drop_bit 8 (word_of_int (Unix (CreationTime pk)) :: 32 word)),
            ucast (word_of_int (Unix (CreationTime pk)) :: 32 word), PubKeyAlgo pk] = hd6"
    by (simp add: hd6_def spec_header_def be_bytes_4_word)
  have c: "[of_nat (drop_bit 24 (spec_L fs)), of_nat (drop_bit 16 (spec_L fs)),
            of_nat (drop_bit 8 (spec_L fs)), of_nat (spec_L fs)] = c4"
    by (simp add: c4_def be_bytes_4)
  show ?thesis
  proof (cases "Version pk = 5")
    case True
    have w2eq: "wr w1 [of_nat (drop_bit 24 (spec_L fs)), of_nat (drop_bit 16 (spec_L fs)),
            of_nat (drop_bit 8 (spec_L fs)), of_nat (spec_L fs)] = (w2, None)"
      using 2 c by simp
    have "serializeWithoutHeaders wr w pk = serializeFields wr w2 pk"
      unfolding serializeWithoutHeaders_def Let_def h algorithmSpecificByteCount_Some [OF a]
      by (simp add: 1 w2eq True)
    also have "\<dots> = (feed wr w2 (map EncodedBytes fs), None)"
      by (rule serializeFields_feed [OF nf a])
    finally show ?thesis
      by (simp add: body_chunks_def True feed_Cons hd6_def [symmetric] c4_def [symmetric]
          w1_def w2_def)
  next
    case False
    have "serializeWithoutHeaders wr w pk = serializeFields wr w1 pk"
      unfolding serializeWithoutHeaders_def Let_def h
      by (simp add: 1 False)
    also have "\<dots> = (feed wr w1 (map EncodedBytes fs), None)"
      by (rule serializeFields_feed [OF nf a])
    finally show ?thesis
      by (simp add: body_chunks_def False feed_Cons hd6_def [symmetric] w1_def)
  qed
qed

lemma SerializeForHash_feed:
  assumes "never_fails wr" and "known_algo (PubKeyAlgo pk)" and "declared_fields pk = map Some fs"
  shows "SerializeForHash wr w pk = (feed wr w (preimage_chunks pk fs), None)"
  by (simp add: SerializeForHash_def SerializeSignaturePrefix_feed [OF assms(2,3)]
      serializeWithoutHeaders_feed [OF assms] preimage_chunks_def feed_Cons feed_Nil)

lemma never_fails_Buffer: "never_fails Buffer_Write"
  by (simp add: never_fails_def Buffer_Write_def)

lemma feed_Buffer: "feed Buffer_Write w cs = w @ concat cs"
  by (induction cs arbitrary: w) (simp_all add: feed_Nil feed_Cons Buffer_Write_def)

lemma concat_body_chunks: "concat (body_chunks pk fs) = spec_body pk fs"
  by (simp add: body_chunks_def spec_body_def spec_header_def spec_fields_bytes_def)

lemma concat_preimage_chunks: "concat (preimage_chunks pk fs) = spec_preimage pk fs"
  by (simp add: preimage_chunks_def spec_preimage_def concat_body_chunks)

lemma SerializeForHash_Buffer:
  assumes "known_algo (PubKeyAlgo pk)" and "declared_fields pk = map Some fs"
  shows "SerializeForHash Buffer_Write w pk = (w @ spec_preimage pk fs, None)"
  by (simp add: SerializeForHash_feed [OF never_fails_Buffer assms] feed_Buffer
      concat_preimage_chunks)

lemma EncodedLength_wf: "wf_Field f \<Longrightarrow> length (EncodedBytes f) \<le> 8194"
proof (cases f)
  case (MPI b l)
  assume "wf_Field f"
  moreover have "unat l < 65536" using unsigned_less [of l, where 'a = nat] by simp
  ultimately show ?thesis using MPI by simp
next
  case (OID b)
  assume "wf_Field f"
  then show ?thesis using OID by simp
qed

lemma spec_L_Cons: "spec_L (f # fs) = length (EncodedBytes f) + spec_L fs"
  by (simp add: spec_L_def spec_fields_bytes_def)

lemma spec_L_bound:
  assumes "list_all wf_Field fs"
  shows "spec_L fs \<le> 8194 * length fs"
  using assms
proof (induction fs)
  case Nil
  show ?case by (simp add: spec_L_def spec_fields_bytes_def)
next
  case (Cons f fs)
  then show ?case using EncodedLength_wf [of f] by (simp add: spec_L_Cons)
qed

lemma declared_fields_length: "length (declared_fields pk) \<le> 4"
  by (simp add: declared_fields_def)

lemma spec_L_small:
  assumes "declared_fields pk = map Some fs" and "list_all wf_Field fs"
  shows "spec_L fs \<le> 32776"
proof -
  have "length fs \<le> 4" using declared_fields_length [of pk] assms(1) by simp
  then have "8194 * length fs \<le> 32776" by simp
  then show ?thesis using spec_L_bound [OF assms(2)] by linarith
qed

lemma be_value_be_bytes_2: "v < 65536 \<Longrightarrow> be_value (be_bytes 2 v) = v"
  by (simp add: be_value_def be_bytes_2 unat_of_nat drop_bit_eq_div)

lemma be_bytes_Suc: "be_bytes (Suc k) v = be_bytes k (v div 256) @ [of_nat v]"
proof -
  have "v div 256 div 256 ^ (k - 1 - i) = v div 256 ^ (k - i)" if "i < k" for i
  proof -
    have "k - i = Suc (k - 1 - i)" using that by simp
    then show ?thesis by (simp add: div_mult2_eq)
  qed
  then have "map (\<lambda>i. (of_nat (v div 256 div 256 ^ (k - 1 - i)) :: byte)) [0..<k]
      = map (\<lambda>i. of_nat (v div 256 ^ (k - i))) [0..<k]"
    by simp
  then show ?thesis by (simp add: be_bytes_def)
qed

lemma be_value_snoc: "be_value (b @ [c]) = be_value b * 256 + unat c"
  by (simp add: be_value_def)

lemma be_value_be_bytes: "be_value (be_bytes k v) = v mod 256 ^ k"
proof (induction k arbitrary: v)
  case 0
  show ?case by (simp add: be_bytes_def be_value_def)
next
  case (Suc k)
  have "v div 256 mod 256 ^ k * 256 + v mod 256 = v mod (256 * 256 ^ k)"
    by (simp add: mod_mult2_eq)
  then show ?case
    by (simp add: be_bytes_Suc be_value_snoc Suc.IH unat_of_nat)
qed


text \<open>
  Claim C1. For a key of version 4 or 5 whose algorithm is one of the known ones and
  whose fields for that algorithm are present, \<^verbatim>\<open>SerializeForHash\<close> writes exactly the
  prefix followed by the body: the version byte, the 4-byte big-endian creation time, the
  algorithm tag, for version 5 the 4-byte count of the algorithm-specific bytes, then the
  encoded fields in their declared order. With \<open>L\<close> the length of the encoded fields, the
  version 4 prefix is 0x99 and the two big-endian bytes of \<open>L + 6\<close>, the version 5 prefix
  is 0x9A and the four big-endian bytes of \<open>L + 10\<close>; for fields as the codec produces
  them these bytes read back as exactly \<open>L + 6\<close> and \<open>L + 10\<close>.
\<close>

theorem SerializeForHash_preimage:
  assumes "Version pk = 4 \<or> Version pk = 5"
    and "known_algo (PubKeyAlgo pk)"
    and "declared_fields pk = map Some fs"
  shows "SerializeForHash Buffer_Write [] pk = (spec_prefix pk fs @ spec_body pk fs, None)
    \<and> spec_L fs = sum_list (map EncodedLength fs)
    \<and> (Version pk = 4 \<longrightarrow> spec_prefix pk fs = [0x99] @ be_bytes 2 (spec_L fs + 6))
    \<and> (Version pk = 5 \<longrightarrow> spec_prefix pk fs = [0x9A] @ be_bytes 4 (spec_L fs + 10))
    \<and> (list_all wf_Field fs \<longrightarrow>
         be_value (be_bytes 2 (spec_L fs + 6)) = spec_L fs + 6
         \<and> be_value (be_bytes 4 (spec_L fs + 10)) = spec_L fs + 10
         \<and> be_value (be_bytes 4 (spec_L fs)) = spec_L fs)"
proof -
  have 1: "SerializeForHash Buffer_Write [] pk = (spec_prefix pk fs @ spec_body pk fs, None)"
    using SerializeForHash_Buffer [OF assms(2,3), of "[]"] by (simp add: spec_preimage_def)
  have 2: "spec_L fs = sum_list (map EncodedLength fs)"
    by (induction fs) (simp_all add: spec_L_def spec_fields_bytes_def EncodedLength_eq)
  have 3: "be_value (be_bytes 2 (spec_L fs + 6)) = spec_L fs + 6
         \<and> be_value (be_bytes 4 (spec_L fs + 10)) = spec_L fs + 10
         \<and> be_value (be_bytes 4 (spec_L fs)) = spec_L fs" if "list_all wf_Field fs"
    using spec_L_small [OF assms(3) that] by (simp add: be_value_be_bytes)
  show ?thesis using 1 2 3 assms(1) by (simp add: spec_prefix_def)
qed


theorem SerializeForHash_preimage_witness:
  "(Version example_rsa_key = 4 \<or> Version example_rsa_key = 5)
   \<and> known_algo (PubKeyAlgo example_rsa_key)
   \<and> declared_fields example_rsa_key = map Some [MPI [0xC5, 0x3B] 16, MPI [0x01, 0x00, 0x01] 17]
   \<and> list_all wf_Field [MPI [0xC5, 0x3B] 16, MPI [0x01, 0x00, 0x01] 17]
   \<and> SerializeForHash Buffer_Write [] example_rsa_key =
       ([0x99, 0x00, 0x0F, 0x04, 0x5F, 0x5E, 0x10, 0x00, 0x01,
         0x00, 0x10, 0xC5, 0x3B, 0x00, 0x11, 0x01, 0x00, 0x01], None)"
proof -
  have v: "Version example_rsa_key = 4 \<or> Version example_rsa_key = 5"
    by (simp add: example_rsa_key_def)
  have k: "known_algo (PubKeyAlgo example_rsa_key)"
    by (simp add: example_rsa_key_def known_algo_def isRSA_def)
  have f: "declared_fields example_rsa_key
      = map Some [MPI [0xC5, 0x3B] 16, MPI [0x01, 0x00, 0x01] 17]"
    by (simp add: example_rsa_key_def declared_fields_def isRSA_def)
  have w: "list_all wf_Field [MPI [0xC5, 0x3B] 16, MPI [0x01, 0x00, 0x01] 17]"
    by simp
  have p: "spec_prefix example_rsa_key [MPI [0xC5, 0x3B] 16, MPI [0x01, 0x00, 0x01] 17]
      = [0x99, 0x00, 0x0F]"
    by (simp add: spec_prefix_def example_rsa_key_def spec_L_def spec_fields_bytes_def be_bytes_2)
  have b: "spec_body example_rsa_key [MPI [0xC5, 0x3B] 16, MPI [0x01, 0x00, 0x01] 17]
      = [0x04, 0x5F, 0x5E, 0x10, 0x00, 0x01, 0x00, 0x10, 0xC5, 0x3B, 0x00, 0x11, 0x01, 0x00, 0x01]"
    by (simp add: spec_body_def example_rsa_key_def example_time_def spec_fields_bytes_def
        be_bytes_4 PubKeyAlgoRSA_def drop_bit_eq_div)
  show ?thesis
    using SerializeForHash_preimage [OF v k f] v k f w by (simp add: p b)
qed

lemma checkSum_ok:
  assumes "digest_inv d"
  shows "\<exists>out. checkSum blk d = Inr out \<and> length out = 20"
  using checkSum_pad_nx [OF assms, of blk]
  by (auto simp: checkSum_def Let_def PutUint32_def split: prod.splits)

lemma Sum_ok: "\<exists>out. Sum blk data = Inr out \<and> length out = 20"
proof -
  have "digest_inv (Reset zero_digest)" by (rule Reset_inv) (simp add: zero_digest_def)
  then have "digest_inv (Write blk (Reset zero_digest) data)" by (rule Write_inv(1))
  then show ?thesis unfolding Sum_def by (rule checkSum_ok)
qed

lemma copy_at_full: "length src = length dst \<Longrightarrow> copy_at dst 0 src = src"
  by (simp add: copy_at_def copy_n_def)

lemma length_copy_at_0: "length (copy_at dst 0 src) = length dst"
  by (simp add: copy_at_def copy_n_def)

lemma length_Sum256: "length (Sum256 env data) = 32"
  by (simp add: Sum256_def length_copy_at_0)

lemma PutUint64_Uint64:
  assumes "length b = 8"
  shows "PutUint64 (Uint64 b) = b"
proof -
  obtain b0 b1 b2 b3 b4 b5 b6 b7 where b: "b = [b0, b1, b2, b3, b4, b5, b6, b7]"
    using assms by (auto simp: length_Suc_conv eval_nat_numeral)
  show ?thesis
    unfolding b PutUint64_def Uint64_def
    apply simp
    apply (intro conjI)
    apply (rule bit_word_eqI; auto simp add: bit_simps dest: bit_imp_le_length)+
    done
qed


lemma EncodedLengths_cases:
  "EncodedLengths fs = Inl (Panic ''nil pointer dereference'') \<or> (\<exists>gs. fs = map Some gs)"
proof (induction fs)
  case Nil
  show ?case by simp
next
  case (Cons f fs)
  show ?case
  proof (cases f)
    case None
    then show ?thesis by simp
  next
    case (Some a)
    from Cons.IH show ?thesis
    proof
      assume "EncodedLengths fs = Inl (Panic ''nil pointer dereference'')"
      then show ?thesis using Some by simp
    next
      assume "\<exists>gs. fs = map Some gs"
      then obtain gs where "fs = map Some gs" ..
      then have "f # fs = map Some (a # gs)" using Some by simp
      then have "\<exists>gs. f # fs = map Some gs" by (rule exI)
      then show ?thesis by (rule disjI2)
    qed
  qed
qed

lemma algorithmSpecificByteCount_cases:
  "(\<exists>m. algorithmSpecificByteCount pk = Inl (Panic m))
   \<or> (known_algo (PubKeyAlgo pk) \<and> (\<exists>fs. declared_fields pk = map Some fs))"
proof (cases "known_algo (PubKeyAlgo pk)")
  case False
  then show ?thesis by (simp add: algorithmSpecificByteCount_def known_algo_def)
next
  case True
  have "algorithmSpecificByteCount pk = EncodedLengths (declared_fields pk)"
    using True by (auto simp: algorithmSpecificByteCount_def declared_fields_def known_algo_def)
  then show ?thesis using True EncodedLengths_cases [of "declared_fields pk"] by auto
qed

lemma SerializeForHash_panic:
  assumes "algorithmSpecificByteCount pk = Inl (Panic m)"
  shows "SerializeForHash wr w pk = (w, Some (Panic m))"
  by (simp add: SerializeForHash_def SerializeSignaturePrefix_def assms)

lemma setFingerprintAndKeyId_panic:
  assumes "algorithmSpecificByteCount pk = Inl (Panic m)"
  shows "setFingerprintAndKeyId env pk = Inl (Panic m)"
  by (simp add: setFingerprintAndKeyId_def SerializeForHash_panic [OF assms])

lemma setFingerprintAndKeyId_v5:
  assumes "known_algo (PubKeyAlgo pk)" and "declared_fields pk = map Some fs"
    and "Version pk = 5"
  shows "setFingerprintAndKeyId env pk =
     Inr (pk\<lparr>Fingerprint := Sum256 env (spec_preimage pk fs),
              KeyId := Uint64 (take 8 (Sum256 env (spec_preimage pk fs)))\<rparr>)"
  by (simp add: setFingerprintAndKeyId_def SerializeForHash_Buffer [OF assms(1,2)] assms(3)
      Let_def copy_at_full length_Sum256)

lemma setFingerprintAndKeyId_v4:
  assumes "known_algo (PubKeyAlgo pk)" and "declared_fields pk = map Some fs"
    and "Version pk \<noteq> 5"
  shows "\<exists>h. Sum (sha1_block env) (spec_preimage pk fs) = Inr h \<and> length h = 20
     \<and> setFingerprintAndKeyId env pk =
         Inr (pk\<lparr>Fingerprint := h, KeyId := Uint64 (take 8 (drop 12 h))\<rparr>)"
proof -
  obtain h where h: "Sum (sha1_block env) (spec_preimage pk fs) = Inr h" "length h = 20"
    using Sum_ok by blast
  then show ?thesis
    by (simp add: setFingerprintAndKeyId_def SerializeForHash_Buffer [OF assms(1,2)] assms(3)
        Let_def copy_at_full)
qed

lemma spec_preimage_frame:
  "spec_preimage (pk\<lparr>Fingerprint := a, KeyId := b\<rparr>) fs = spec_preimage pk fs"
  by (simp add: spec_preimage_def spec_prefix_def spec_body_def)

lemma declared_fields_frame:
  "declared_fields (pk\<lparr>Fingerprint := a, KeyId := b\<rparr>) = declared_fields pk"
  by (simp add: declared_fields_def)

lemma setFingerprintAndKeyId_derived:
  assumes "known_algo (PubKeyAlgo pk)" and "declared_fields pk = map Some fs"
  shows "\<exists>pk'. setFingerprintAndKeyId env pk = Inr pk' \<and> derived env pk' fs
     \<and> pk' = pk\<lparr>Fingerprint := Fingerprint pk', KeyId := KeyId pk'\<rparr>"
proof (cases "Version pk = 5")
  case True
  show ?thesis
    unfolding setFingerprintAndKeyId_v5 [OF assms True]
    by (simp add: derived_def True spec_preimage_frame length_Sum256 PutUint64_Uint64)
next
  case False
  obtain h where h: "Sum (sha1_block env) (spec_preimage pk fs) = Inr h" "length h = 20"
    "setFingerprintAndKeyId env pk =
         Inr (pk\<lparr>Fingerprint := h, KeyId := Uint64 (take 8 (drop 12 h))\<rparr>)"
    using setFingerprintAndKeyId_v4 [OF assms False] by blast
  have "take 8 (drop 12 h) = drop 12 h" using h(2) by simp
  moreover have "length (drop 12 h) = 8" using h(2) by simp
  ultimately show ?thesis
    unfolding h(3) using h(1,2) False
    by (simp add: derived_def spec_preimage_frame PutUint64_Uint64)
qed

lemma setFingerprintAndKeyId_Inr:
  assumes "setFingerprintAndKeyId env pk = Inr pk'"
  shows "known_algo (PubKeyAlgo pk') \<and> (\<exists>fs. declared_fields pk' = map Some fs \<and> derived env pk' fs)
     \<and> pk' = pk\<lparr>Fingerprint := Fingerprint pk', KeyId := KeyId pk'\<rparr>"
proof -
  from algorithmSpecificByteCount_cases [of pk] show ?thesis
  proof
    assume "\<exists>m. algorithmSpecificByteCount pk = Inl (Panic m)"
    then show ?thesis using setFingerprintAndKeyId_panic assms by fastforce
  next
    assume "known_algo (PubKeyAlgo pk) \<and> (\<exists>fs. declared_fields pk = map Some fs)"
    then obtain fs where k: "known_algo (PubKeyAlgo pk)" and f: "declared_fields pk = map Some fs"
      by blast
    obtain pk1 where p: "setFingerprintAndKeyId env pk = Inr pk1" "derived env pk1 fs"
      "pk1 = pk\<lparr>Fingerprint := Fingerprint pk1, KeyId := KeyId pk1\<rparr>"
      using setFingerprintAndKeyId_derived [OF k f] by blast
    have e: "pk1 = pk'" using p(1) assms by simp
    have "PubKeyAlgo pk' = PubKeyAlgo pk"
      by (subst p(3) [unfolded e]) simp
    moreover have "declared_fields pk' = declared_fields pk"
      by (subst p(3) [unfolded e]) (simp add: declared_fields_frame)
    ultimately show ?thesis using k f p(2,3) e by auto
  qed
qed

lemma parseRSA_frame:
  "parseRSA pk r = Inr (pk', r') \<Longrightarrow>
     Version pk' = Version pk \<and> PubKeyAlgo pk' = PubKeyAlgo pk \<and> CreationTime pk' = CreationTime pk"
  by (auto simp: parseRSA_def split: sum.splits prod.splits if_splits)

lemma parseDSA_frame:
  "parseDSA pk r = Inr (pk', r') \<Longrightarrow>
     Version pk' = Version pk \<and> PubKeyAlgo pk' = PubKeyAlgo pk \<and> CreationTime pk' = CreationTime pk"
  by (auto simp: parseDSA_def split: sum.splits prod.splits)

lemma parseElGamal_frame:
  "parseElGamal pk r = Inr (pk', r') \<Longrightarrow>
     Version pk' = Version pk \<and> PubKeyAlgo pk' = PubKeyAlgo pk \<and> CreationTime pk' = CreationTime pk"
  by (auto simp: parseElGamal_def split: sum.splits prod.splits)

lemma parseECDSA_frame:
  "parseECDSA env pk r = Inr (pk', r') \<Longrightarrow>
     Version pk' = Version pk \<and> PubKeyAlgo pk' = PubKeyAlgo pk \<and> CreationTime pk' = CreationTime pk"
  by (auto simp: parseECDSA_def split: sum.splits prod.splits option.splits if_splits)

lemma parseECDH_frame:
  "parseECDH env pk r = Inr (pk', r') \<Longrightarrow>
     Version pk' = Version pk \<and> PubKeyAlgo pk' = PubKeyAlgo pk \<and> CreationTime pk' = CreationTime pk"
  by (auto simp: parseECDH_def Let_def split: sum.splits prod.splits option.splits if_splits)

lemma parseEdDSA_frame:
  "parseEdDSA env pk r = Inr (pk', r') \<Longrightarrow>
     Version pk' = Version pk \<and> PubKeyAlgo pk' = PubKeyAlgo pk \<and> CreationTime pk' = CreationTime pk"
  by (auto simp: parseEdDSA_def split: sum.splits prod.splits option.splits if_splits list.splits)

lemma parse_switch_frame:
  "parse_switch env pk r = Inr (pk', r') \<Longrightarrow>
     Version pk' = Version pk \<and> PubKeyAlgo pk' = PubKeyAlgo pk \<and> CreationTime pk' = CreationTime pk"
  unfolding parse_switch_def
  by (auto split: if_splits dest: parseRSA_frame parseDSA_frame parseElGamal_frame
      parseECDSA_frame parseECDH_frame parseEdDSA_frame)

lemma parse_Inr:
  assumes "parse env pk r = Inr (pk3, r3)"
  shows "\<exists>buf r1 r2 pk2.
     readFull r 6 = Inr (buf, r1) \<and> (buf ! 0 = 4 \<or> buf ! 0 = 5)
     \<and> (if buf ! 0 = 5 then (\<exists>n. readFull r1 4 = Inr (n, r2)) else r2 = r1)
     \<and> parse_switch env (parse_header pk buf) r2 = Inr (pk2, r3)
     \<and> setFingerprintAndKeyId env pk2 = Inr pk3"
proof -
  obtain buf r1 where b: "readFull r 6 = Inr (buf, r1)"
    using assms by (auto simp: parse_def split: sum.splits)
  have v: "buf ! 0 = 4 \<or> buf ! 0 = 5"
    using assms b by (auto simp: parse_def split: if_splits)
  then have nv: "\<not> (buf ! 0 \<noteq> 4 \<and> buf ! 0 \<noteq> 5)" by simp
  have u5: "uint (buf ! 0) = 5 \<longleftrightarrow> buf ! 0 = 5"
    using v by auto
  obtain n r2 where n: "(if uint (buf ! 0) = 5 then readFull r1 4 else Inr ([], r1)) = Inr (n, r2)"
    using assms b nv by (auto simp: parse_def split: sum.splits)
  have r2: "if buf ! 0 = 5 then (\<exists>n. readFull r1 4 = Inr (n, r2)) else r2 = r1"
    using n u5 by (auto split: if_splits)
  have "(case parse_switch env (parse_header pk buf) r2 of
           Inl err \<Rightarrow> Inl err
         | Inr (pk2, r3) \<Rightarrow>
             (case setFingerprintAndKeyId env pk2 of
                Inl err \<Rightarrow> Inl err
              | Inr pk3 \<Rightarrow> Inr (pk3, r3))) = Inr (pk3, r3)"
  proof -
    have "(case (if uint (buf ! 0) = 5 then readFull r1 4 else Inr ([], r1)) of
          Inl err \<Rightarrow> Inl err
        | Inr (n, r2) \<Rightarrow>
         (case parse_switch env (parse_header pk buf) r2 of
           Inl err \<Rightarrow> Inl err
         | Inr (pk2, r3) \<Rightarrow>
             (case setFingerprintAndKeyId env pk2 of
                Inl err \<Rightarrow> Inl err
              | Inr pk3 \<Rightarrow> Inr (pk3, r3)))) = Inr (pk3, r3)"
      using assms nv by (simp add: parse_def b)
    then show ?thesis unfolding n by simp
  qed
  then obtain pk2 where s: "parse_switch env (parse_header pk buf) r2 = Inr (pk2, r3)"
    "setFingerprintAndKeyId env pk2 = Inr pk3"
    by (auto split: sum.splits)
  show ?thesis using b v r2 s by blast
qed

lemma parse_derived:
  assumes "parse env pk r = Inr (pk3, r3)"
  shows "(Version pk3 = 4 \<or> Version pk3 = 5)
     \<and> (\<exists>fs. declared_fields pk3 = map Some fs \<and> derived env pk3 fs)"
proof -
  obtain buf r2 pk2 where v: "buf ! 0 = 4 \<or> buf ! 0 = 5"
    and s: "parse_switch env (parse_header pk buf) r2 = Inr (pk2, r3)"
    and f: "setFingerprintAndKeyId env pk2 = Inr pk3"
    using parse_Inr [OF assms] by blast
  have "Version pk2 = uint (buf ! 0)"
    using parse_switch_frame [OF s] by (simp add: parse_header_def Let_def)
  then have "Version pk2 = 4 \<or> Version pk2 = 5" using v by auto
  moreover have "pk3 = pk2\<lparr>Fingerprint := Fingerprint pk3, KeyId := KeyId pk3\<rparr>"
    using setFingerprintAndKeyId_Inr [OF f] by blast
  then have "Version pk3 = Version (pk2\<lparr>Fingerprint := Fingerprint pk3, KeyId := KeyId pk3\<rparr>)"
    by simp
  then have "Version pk3 = Version pk2" by simp
  ultimately show ?thesis using setFingerprintAndKeyId_Inr [OF f] by simp
qed

lemma setFingerprintAndKeyId_Version:
  assumes "setFingerprintAndKeyId env pk = Inr pk'"
  shows "Version pk' = Version pk"
proof -
  have "pk' = pk\<lparr>Fingerprint := Fingerprint pk', KeyId := KeyId pk'\<rparr>"
    using setFingerprintAndKeyId_Inr [OF assms] by blast
  then have "Version pk' = Version (pk\<lparr>Fingerprint := Fingerprint pk', KeyId := KeyId pk'\<rparr>)"
    by simp
  then show ?thesis by simp
qed

lemma setFingerprintAndKeyId_result:
  assumes "setFingerprintAndKeyId env pk = Inr pk'"
  shows "Version pk' = Version pk \<and> (\<exists>fs. declared_fields pk' = map Some fs \<and> derived env pk' fs)"
  using setFingerprintAndKeyId_Version [OF assms] setFingerprintAndKeyId_Inr [OF assms] by blast

lemma UpgradeToV5_derived:
  assumes "UpgradeToV5 env pk = Inr pk'"
  shows "Version pk' = 5 \<and> (\<exists>fs. declared_fields pk' = map Some fs \<and> derived env pk' fs)"
  using setFingerprintAndKeyId_result [OF assms [unfolded UpgradeToV5_def]] by simp

lemma NewRSAPublicKey_derived:
  assumes "NewRSAPublicKey env t N E = Inr pk'"
  shows "Version pk' = 4 \<and> (\<exists>fs. declared_fields pk' = map Some fs \<and> derived env pk' fs)"
  using setFingerprintAndKeyId_result [OF assms [unfolded NewRSAPublicKey_def]]
  by (simp add: new_v4_def)

lemma NewDSAPublicKey_derived:
  assumes "NewDSAPublicKey env t P Q G Y = Inr pk'"
  shows "Version pk' = 4 \<and> (\<exists>fs. declared_fields pk' = map Some fs \<and> derived env pk' fs)"
  using setFingerprintAndKeyId_result [OF assms [unfolded NewDSAPublicKey_def]]
  by (simp add: new_v4_def)

lemma NewElGamalPublicKey_derived:
  assumes "NewElGamalPublicKey env t P G Y = Inr pk'"
  shows "Version pk' = 4 \<and> (\<exists>fs. declared_fields pk' = map Some fs \<and> derived env pk' fs)"
  using setFingerprintAndKeyId_result [OF assms [unfolded NewElGamalPublicKey_def]]
  by (simp add: new_v4_def)

lemma NewECDSAPublicKey_derived:
  assumes "NewECDSAPublicKey env t c X Y = Inr pk'"
  shows "Version pk' = 4 \<and> (\<exists>fs. declared_fields pk' = map Some fs \<and> derived env pk' fs)"
proof -
  obtain pk0 where "setFingerprintAndKeyId env pk0 = Inr pk'" "Version pk0 = 4"
    using assms by (auto simp: NewECDSAPublicKey_def Let_def new_v4_def split: option.splits)
  then show ?thesis using setFingerprintAndKeyId_result by metis
qed

lemma NewECDHPublicKey_derived:
  assumes "NewECDHPublicKey env t ct c X Y h ciph = Inr pk'"
  shows "Version pk' = 4 \<and> (\<exists>fs. declared_fields pk' = map Some fs \<and> derived env pk' fs)"
proof -
  obtain pk0 where "setFingerprintAndKeyId env pk0 = Inr pk'" "Version pk0 = 4"
    using assms
    by (auto simp: NewECDHPublicKey_def Let_def new_v4_def split: option.splits if_splits)
  then show ?thesis using setFingerprintAndKeyId_result by metis
qed

lemma NewEdDSAPublicKey_derived:
  assumes "NewEdDSAPublicKey env t pub = Inr pk'"
  shows "Version pk' = 4 \<and> (\<exists>fs. declared_fields pk' = map Some fs \<and> derived env pk' fs)"
proof -
  obtain pk0 where "setFingerprintAndKeyId env pk0 = Inr pk'" "Version pk0 = 4"
    using assms by (auto simp: NewEdDSAPublicKey_def Let_def new_v4_def split: option.splits)
  then show ?thesis using setFingerprintAndKeyId_result by metis
qed

lemma example_parse_switch:
  "parse_switch example_env (parse_header zero_PublicKey (take 6 example_rsa_body))
     (drop 6 example_rsa_body)
   = Inr (example_rsa_key, [])"
  by (simp add: parse_switch_def parse_header_def example_rsa_body_def zero_PublicKey_def
      isRSA_def PubKeyAlgoRSA_def parseRSA_def MPI_ReadFrom_def readFull_def Let_def
      example_rsa_key_def example_time_def be_value_def shift_in_def)


lemma example_known: "known_algo (PubKeyAlgo example_rsa_key)"
  by (simp add: example_rsa_key_def known_algo_def isRSA_def)

lemma example_fields:
  "declared_fields example_rsa_key = map Some [MPI [0xC5, 0x3B] 16, MPI [0x01, 0x00, 0x01] 17]"
  by (simp add: example_rsa_key_def declared_fields_def isRSA_def)

lemma example_parse:
  "\<exists>pk'. parse example_env zero_PublicKey example_rsa_body = Inr (pk', [])"
proof -
  obtain pk' where s: "setFingerprintAndKeyId example_env example_rsa_key = Inr pk'"
    using setFingerprintAndKeyId_derived [OF example_known example_fields] by blast
  have r: "readFull example_rsa_body 6 = Inr (take 6 example_rsa_body, drop 6 example_rsa_body)"
    by (simp add: readFull_def example_rsa_body_def)
  have b: "take 6 example_rsa_body ! 0 = 4" by (simp add: example_rsa_body_def)
  have "parse example_env zero_PublicKey example_rsa_body = Inr (pk', [])"
    unfolding parse_def r by (simp add: b example_parse_switch s)
  then show ?thesis ..
qed

text \<open>
  Claim C2. For every key with a known algorithm and its fields present,
  \<^verbatim>\<open>setFingerprintAndKeyId\<close> returns the key with only fingerprint and key id changed, and
  these are derived from the preimage of the current fields: for version 4 the
  fingerprint is the 20-byte SHA-1 digest of the preimage and the key id is its bytes 12
  to 19, for version 5 the fingerprint is the 32-byte SHA-256 digest of the preimage and
  the key id is its first 8 bytes. Every key that \<^verbatim>\<open>parse\<close>, \<^verbatim>\<open>UpgradeToV5\<close> or one of
  the six constructors returns carries a fingerprint and key id derived in this way.
\<close>

theorem fingerprint_and_keyId_derivation:
  "(known_algo (PubKeyAlgo pk) \<and> declared_fields pk = map Some fs \<longrightarrow>
      (\<exists>pk'. setFingerprintAndKeyId env pk = Inr pk' \<and> derived env pk' fs
         \<and> pk' = pk\<lparr>Fingerprint := Fingerprint pk', KeyId := KeyId pk'\<rparr>))
   \<and> (parse env pk0 r = Inr (pkP, r') \<longrightarrow>
        (Version pkP = 4 \<or> Version pkP = 5)
        \<and> (\<exists>fs. declared_fields pkP = map Some fs \<and> derived env pkP fs))
   \<and> (UpgradeToV5 env pkU = Inr pkU' \<longrightarrow>
        Version pkU' = 5 \<and> (\<exists>fs. declared_fields pkU' = map Some fs \<and> derived env pkU' fs))
   \<and> (NewRSAPublicKey env t N E = Inr pkR \<longrightarrow>
        Version pkR = 4 \<and> (\<exists>fs. declared_fields pkR = map Some fs \<and> derived env pkR fs))
   \<and> (NewDSAPublicKey env t P Q G Y = Inr pkD \<longrightarrow>
        Version pkD = 4 \<and> (\<exists>fs. declared_fields pkD = map Some fs \<and> derived env pkD fs))
   \<and> (NewElGamalPublicKey env t P G Y = Inr pkG \<longrightarrow>
        Version pkG = 4 \<and> (\<exists>fs. declared_fields pkG = map Some fs \<and> derived env pkG fs))
   \<and> (NewECDSAPublicKey env t c X Y' = Inr pkC \<longrightarrow>
        Version pkC = 4 \<and> (\<exists>fs. declared_fields pkC = map Some fs \<and> derived env pkC fs))
   \<and> (NewECDHPublicKey env t ct c X Yo h ciph = Inr pkH \<longrightarrow>
        Version pkH = 4 \<and> (\<exists>fs. declared_fields pkH = map Some fs \<and> derived env pkH fs))
   \<and> (NewEdDSAPublicKey env t pub = Inr pkE \<longrightarrow>
        Version pkE = 4 \<and> (\<exists>fs. declared_fields pkE = map Some fs \<and> derived env pkE fs))"
  using setFingerprintAndKeyId_derived [of pk fs env] parse_derived [of env pk0 r pkP r']
    UpgradeToV5_derived [of env pkU pkU'] NewRSAPublicKey_derived [of env t N E pkR]
    NewDSAPublicKey_derived [of env t P Q G Y pkD] NewElGamalPublicKey_derived [of env t P G Y pkG]
    NewECDSAPublicKey_derived [of env t c X Y' pkC]
    NewECDHPublicKey_derived [of env t ct c X Yo h ciph pkH]
    NewEdDSAPublicKey_derived [of env t pub pkE]
  by blast


lemma setFingerprintAndKeyId_total:
  assumes "known_algo (PubKeyAlgo pk)" and "declared_fields pk = map Some fs"
  shows "\<exists>pk'. setFingerprintAndKeyId env pk = Inr pk'"
  using setFingerprintAndKeyId_derived [OF assms] by blast

lemmas algo_defs = known_algo_def isRSA_def PubKeyAlgoRSA_def PubKeyAlgoRSAEncryptOnly_def
  PubKeyAlgoRSASignOnly_def PubKeyAlgoElGamal_def PubKeyAlgoDSA_def PubKeyAlgoECDH_def
  PubKeyAlgoECDSA_def PubKeyAlgoEdDSA_def

lemma UpgradeToV5_total:
  assumes "known_algo (PubKeyAlgo pk)" and "declared_fields pk = map Some fs"
  shows "\<exists>pk'. UpgradeToV5 env pk = Inr pk'"
proof -
  have "declared_fields (pk\<lparr>Version := 5\<rparr>) = declared_fields pk"
    by (simp add: declared_fields_def)
  then have "declared_fields (pk\<lparr>Version := 5\<rparr>) = map Some fs"
    using assms(2) by simp
  moreover have "known_algo (PubKeyAlgo (pk\<lparr>Version := 5\<rparr>))"
    using assms(1) by simp
  ultimately show ?thesis
    unfolding UpgradeToV5_def by (intro setFingerprintAndKeyId_total)
qed

lemma NewRSAPublicKey_total: "\<exists>pk'. NewRSAPublicKey env t N E = Inr pk'"
  unfolding NewRSAPublicKey_def
  by (rule setFingerprintAndKeyId_total [where fs = "[SetBig N, SetBig (nat \<bar>sint E\<bar>)]"])
    (simp_all add: new_v4_def zero_PublicKey_def declared_fields_def algo_defs)

lemma NewDSAPublicKey_total: "\<exists>pk'. NewDSAPublicKey env t P Q G Y = Inr pk'"
  unfolding NewDSAPublicKey_def
  by (rule setFingerprintAndKeyId_total [where fs = "[SetBig P, SetBig Q, SetBig G, SetBig Y]"])
    (simp_all add: new_v4_def zero_PublicKey_def declared_fields_def algo_defs)

lemma NewElGamalPublicKey_total: "\<exists>pk'. NewElGamalPublicKey env t P G Y = Inr pk'"
  unfolding NewElGamalPublicKey_def
  by (rule setFingerprintAndKeyId_total [where fs = "[SetBig P, SetBig G, SetBig Y]"])
    (simp_all add: new_v4_def zero_PublicKey_def declared_fields_def algo_defs)

lemma NewECDSAPublicKey_total:
  assumes "FindByCurve env c = Some ci"
  shows "\<exists>pk'. NewECDSAPublicKey env t c X Y = Inr pk'"
  unfolding NewECDSAPublicKey_def Let_def assms option.case
  by (rule setFingerprintAndKeyId_total [where fs = "[ci_Oid ci, NewMPI (Marshal env c X Y)]"])
    (simp_all add: new_v4_def zero_PublicKey_def declared_fields_def algo_defs)

lemma NewECDHPublicKey_total:
  assumes "FindByName env ''Curve25519'' = Some ci"
  shows "\<exists>pk'. NewECDHPublicKey env t Curve25519 c X Y h ciph = Inr pk'"
  unfolding NewECDHPublicKey_def Let_def assms option.case if_True simp_thms
  by (rule setFingerprintAndKeyId_total
      [where fs = "[ci_Oid ci, NewMPI (nat_bytes X), NewOID [0x1, Hash_Id env h, Cipher_Id env ciph]]"])
    (simp_all add: new_v4_def zero_PublicKey_def declared_fields_def algo_defs del: nat_bytes.simps)

lemma NewEdDSAPublicKey_total:
  assumes "FindByName env ''Ed25519'' = Some ci"
  shows "\<exists>pk'. NewEdDSAPublicKey env t pub = Inr pk'"
  unfolding NewEdDSAPublicKey_def assms option.case
  by (rule setFingerprintAndKeyId_total [where fs = "[ci_Oid ci, NewMPI ([0x40] @ pub)]"])
    (simp_all add: new_v4_def zero_PublicKey_def declared_fields_def algo_defs)

theorem fingerprint_and_keyId_derivation_witness:
  "known_algo (PubKeyAlgo example_rsa_key)
   \<and> declared_fields example_rsa_key = map Some [MPI [0xC5, 0x3B] 16, MPI [0x01, 0x00, 0x01] 17]
   \<and> (\<exists>pk'. setFingerprintAndKeyId example_env example_rsa_key = Inr pk'
         \<and> derived example_env pk' [MPI [0xC5, 0x3B] 16, MPI [0x01, 0x00, 0x01] 17])
   \<and> (\<exists>pk'. parse example_env zero_PublicKey example_rsa_body = Inr (pk', [])
         \<and> (\<exists>fs. declared_fields pk' = map Some fs \<and> derived example_env pk' fs))
   \<and> (\<exists>pk'. UpgradeToV5 example_env example_rsa_key = Inr pk' \<and> Version pk' = 5
         \<and> (\<exists>fs. declared_fields pk' = map Some fs \<and> derived example_env pk' fs))
   \<and> (\<exists>pk'. NewRSAPublicKey example_env example_time 50491 65537 = Inr pk' \<and> Version pk' = 4
         \<and> (\<exists>fs. declared_fields pk' = map Some fs \<and> derived example_env pk' fs))
   \<and> (\<exists>pk'. NewDSAPublicKey example_env example_time 23 11 4 8 = Inr pk' \<and> Version pk' = 4
         \<and> (\<exists>fs. declared_fields pk' = map Some fs \<and> derived example_env pk' fs))
   \<and> (\<exists>pk'. NewElGamalPublicKey example_env example_time 23 5 8 = Inr pk' \<and> Version pk' = 4
         \<and> (\<exists>fs. declared_fields pk' = map Some fs \<and> derived example_env pk' fs))
   \<and> (\<exists>pk'. NewECDSAPublicKey example_env example_time 1 7 9 = Inr pk' \<and> Version pk' = 4
         \<and> (\<exists>fs. declared_fields pk' = map Some fs \<and> derived example_env pk' fs))
   \<and> (\<exists>pk'. NewECDHPublicKey example_env example_time Curve25519 3 9 None 5 7 = Inr pk'
         \<and> Version pk' = 4
         \<and> (\<exists>fs. declared_fields pk' = map Some fs \<and> derived example_env pk' fs))
   \<and> (\<exists>pk'. NewEdDSAPublicKey example_env example_time (replicate 32 1) = Inr pk'
         \<and> Version pk' = 4
         \<and> (\<exists>fs. declared_fields pk' = map Some fs \<and> derived example_env pk' fs))"
proof -
  note T = fingerprint_and_keyId_derivation
  note T1 = T [THEN conjunct1, rule_format]
  note T2 = T [THEN conjunct2, THEN conjunct1, rule_format]
  note T3 = T [THEN conjunct2, THEN conjunct2, THEN conjunct1, rule_format]
  note T4 = T [THEN conjunct2, THEN conjunct2, THEN conjunct2, THEN conjunct1, rule_format]
  note T5 = T [THEN conjunct2, THEN conjunct2, THEN conjunct2, THEN conjunct2, THEN conjunct1,
      rule_format]
  note T6 = T [THEN conjunct2, THEN conjunct2, THEN conjunct2, THEN conjunct2, THEN conjunct2,
      THEN conjunct1, rule_format]
  note T7 = T [THEN conjunct2, THEN conjunct2, THEN conjunct2, THEN conjunct2, THEN conjunct2,
      THEN conjunct2, THEN conjunct1, rule_format]
  note T8 = T [THEN conjunct2, THEN conjunct2, THEN conjunct2, THEN conjunct2, THEN conjunct2,
      THEN conjunct2, THEN conjunct2, THEN conjunct1, rule_format]
  note T9 = T [THEN conjunct2, THEN conjunct2, THEN conjunct2, THEN conjunct2, THEN conjunct2,
      THEN conjunct2, THEN conjunct2, THEN conjunct2, rule_format]
  have c1: "\<exists>pk'. setFingerprintAndKeyId example_env example_rsa_key = Inr pk'
         \<and> derived example_env pk' [MPI [0xC5, 0x3B] 16, MPI [0x01, 0x00, 0x01] 17]"
    using T1 [OF conjI [OF example_known example_fields], of example_env] by blast
  obtain pkP where pP: "parse example_env zero_PublicKey example_rsa_body = Inr (pkP, [])"
    using example_parse by blast
  have c2: "\<exists>pk'. parse example_env zero_PublicKey example_rsa_body = Inr (pk', [])
         \<and> (\<exists>fs. declared_fields pk' = map Some fs \<and> derived example_env pk' fs)"
    using T2 [OF pP] pP by blast
  obtain pkU where pU: "UpgradeToV5 example_env example_rsa_key = Inr pkU"
    using UpgradeToV5_total [OF example_known example_fields] by blast
  have c3: "\<exists>pk'. UpgradeToV5 example_env example_rsa_key = Inr pk' \<and> Version pk' = 5
         \<and> (\<exists>fs. declared_fields pk' = map Some fs \<and> derived example_env pk' fs)"
    using T3 [OF pU] pU by blast
  obtain pkR where pR: "NewRSAPublicKey example_env example_time 50491 65537 = Inr pkR"
    using NewRSAPublicKey_total by blast
  have c4: "\<exists>pk'. NewRSAPublicKey example_env example_time 50491 65537 = Inr pk' \<and> Version pk' = 4
         \<and> (\<exists>fs. declared_fields pk' = map Some fs \<and> derived example_env pk' fs)"
    using T4 [OF pR] pR by blast
  obtain pkD where pD: "NewDSAPublicKey example_env example_time 23 11 4 8 = Inr pkD"
    using NewDSAPublicKey_total by blast
  have c5: "\<exists>pk'. NewDSAPublicKey example_env example_time 23 11 4 8 = Inr pk' \<and> Version pk' = 4
         \<and> (\<exists>fs. declared_fields pk' = map Some fs \<and> derived example_env pk' fs)"
    using T5 [OF pD] pD by blast
  obtain pkG where pG: "NewElGamalPublicKey example_env example_time 23 5 8 = Inr pkG"
    using NewElGamalPublicKey_total by blast
  have c6: "\<exists>pk'. NewElGamalPublicKey example_env example_time 23 5 8 = Inr pk' \<and> Version pk' = 4
         \<and> (\<exists>fs. declared_fields pk' = map Some fs \<and> derived example_env pk' fs)"
    using T6 [OF pG] pG by blast
  have "FindByCurve example_env 1 = Some ci_P256" by (simp add: example_env_def)
  then obtain pkC where pC: "NewECDSAPublicKey example_env example_time 1 7 9 = Inr pkC"
    using NewECDSAPublicKey_total by blast
  have c7: "\<exists>pk'. NewECDSAPublicKey example_env example_time 1 7 9 = Inr pk' \<and> Version pk' = 4
         \<and> (\<exists>fs. declared_fields pk' = map Some fs \<and> derived example_env pk' fs)"
    using T7 [OF pC] pC by blast
  have "FindByName example_env ''Curve25519'' = Some ci_Curve25519"
    by (simp add: example_env_def)
  then obtain pkH where pH:
    "NewECDHPublicKey example_env example_time Curve25519 3 9 None 5 7 = Inr pkH"
    using NewECDHPublicKey_total by blast
  have c8: "\<exists>pk'. NewECDHPublicKey example_env example_time Curve25519 3 9 None 5 7 = Inr pk'
         \<and> Version pk' = 4
         \<and> (\<exists>fs. declared_fields pk' = map Some fs \<and> derived example_env pk' fs)"
    using T8 [OF pH] pH by blast
  have "FindByName example_env ''Ed25519'' = Some ci_Ed25519" by (simp add: example_env_def)
  then obtain pkE where pE:
    "NewEdDSAPublicKey example_env example_time (replicate 32 1) = Inr pkE"
    using NewEdDSAPublicKey_total by blast
  have c9: "\<exists>pk'. NewEdDSAPublicKey example_env example_time (replicate 32 1) = Inr pk'
         \<and> Version pk' = 4
         \<and> (\<exists>fs. declared_fields pk' = map Some fs \<and> derived example_env pk' fs)"
    using T9 [OF pE] pE by blast
  show ?thesis
    using example_known example_fields c1 c2 c3 c4 c5 c6 c7 c8 c9 by (intro conjI)
qed

lemma shift_in_snoc: "shift_in (b @ [c]) = push_bit 8 (shift_in b) OR ucast c"
  by (simp add: shift_in_def)

lemma push_or_add:
  fixes w :: "64 word" and c :: byte
  shows "push_bit 8 w OR ucast c = push_bit 8 w + ucast c"
proof -
  have "push_bit 8 w AND (ucast c :: 64 word) = 0"
    by (rule bit_word_eqI) (auto simp: bit_simps dest: bit_imp_le_length)
  then show ?thesis by (simp add: disjunctive_add_eq_or)
qed

lemma be_value_bound: "be_value b < 256 ^ length b"
proof (induction b rule: rev_induct)
  case Nil
  show ?case by (simp add: be_value_def)
next
  case (snoc c b)
  have "unat c < 256" using unsigned_less [of c, where 'a = nat] by simp
  then have "be_value b * 256 + unat c < (be_value b + 1) * 256" by simp
  also have "\<dots> \<le> 256 ^ length b * 256" using snoc.IH by (simp add: Suc_leI)
  finally show ?case by (simp add: be_value_snoc)
qed


lemma unat_shift_in:
  assumes "length b \<le> 7"
  shows "unat (shift_in b) = be_value b"
  using assms
proof (induction b rule: rev_induct)
  case Nil
  show ?case by (simp add: shift_in_def be_value_def)
next
  case (snoc c b)
  then have IH: "unat (shift_in b) = be_value b" and l: "length b \<le> 6" by simp_all
  have "be_value b < 256 ^ length b" by (rule be_value_bound)
  also have "(256::nat) ^ length b \<le> 256 ^ 6" using l by (intro power_increasing) simp_all
  finally have b: "be_value b < 256 ^ 6" .
  have c: "unat c < 256" using unsigned_less [of c, where 'a = nat] by simp
  have uc: "unat (ucast c :: 64 word) = unat c"
    using c by (simp add: unsigned_ucast_eq take_bit_eq_mod)
  have "unat (push_bit 8 (shift_in b) + (ucast c :: 64 word))
      = (unat (shift_in b) * 256 + unat c) mod 2 ^ 64"
    by (simp add: push_bit_eq_mult unat_word_ariths mod_add_left_eq mod_mult_left_eq uc)
  also have "\<dots> = be_value b * 256 + unat c" using b c by (simp add: IH)
  finally show ?case by (simp add: shift_in_snoc push_or_add be_value_snoc)
qed


lemma parse_after_header:
  assumes "readFull r 6 = Inr (buf, r1)" and "buf ! 0 = 4 \<or> buf ! 0 = 5"
    and "if buf ! 0 = 5 then (\<exists>cnt. readFull r1 4 = Inr (cnt, r2)) else r2 = r1"
  shows "parse env pk r =
     (case parse_switch env (parse_header pk buf) r2 of
        Inl err \<Rightarrow> Inl err
      | Inr (pk2, r3) \<Rightarrow>
          (case setFingerprintAndKeyId env pk2 of
             Inl err \<Rightarrow> Inl err
           | Inr pk3 \<Rightarrow> Inr (pk3, r3)))"
proof -
  have u5: "uint (buf ! 0) = 5 \<longleftrightarrow> buf ! 0 = 5" using assms(2) by auto
  obtain cnt where c: "(if uint (buf ! 0) = 5 then readFull r1 4 else Inr ([], r1)) = Inr (cnt, r2)"
    using assms(3) u5 by (auto split: if_splits)
  from assms(2) show ?thesis
  proof
    assume v: "buf ! 0 = 4"
    show ?thesis using c unfolding parse_def assms(1) by (simp add: v)
  next
    assume v: "buf ! 0 = 5"
    show ?thesis using c unfolding parse_def assms(1) by (simp add: v)
  qed
qed

lemma PubKeyAlgo_parse_header: "PubKeyAlgo (parse_header pk buf) = buf ! 5"
  by (simp add: parse_header_def Let_def)

lemma isRSA_known: "isRSA a \<Longrightarrow> known_algo a"
  by (simp add: known_algo_def)

text \<open>
  Claim C8. For a packet of an RSA algorithm whose header, modulus and exponent can be
  read, \<^verbatim>\<open>parse\<close> fails with an unsupported-feature error exactly when the content of
  the exponent is longer than 3 bytes. With at most 3 bytes it succeeds; the exponent of
  the native key is the machine integer that the loop shifts in, it equals the big-endian
  value of the bytes and is below \<open>2 ^ 24\<close>.
\<close>

theorem parse_RSA_exponent:
  assumes "readFull r 6 = Inr (buf, r1)" and "buf ! 0 = 4 \<or> buf ! 0 = 5"
    and "isRSA (buf ! 5)"
    and "if buf ! 0 = 5 then (\<exists>cnt. readFull r1 4 = Inr (cnt, r2)) else r2 = r1"
    and "MPI_ReadFrom r2 = Inr (n, r3)" and "MPI_ReadFrom r3 = Inr (e, r4)"
  shows "((\<exists>msg. parse env pk r = Inl (UnsupportedError msg)) \<longleftrightarrow> 3 < length (Bytes e))
     \<and> (3 < length (Bytes e) \<longrightarrow>
          parseRSA (parse_header pk buf) r2 = Inl (UnsupportedError ''large public exponent''))
     \<and> (length (Bytes e) \<le> 3 \<longrightarrow>
          (\<exists>pk'. parse env pk r = Inr (pk', r4) \<and> f_n pk' = Some n \<and> f_e pk' = Some e
             \<and> NativePublicKey pk' = RSAKey (be_value (Bytes n)) (shift_in (Bytes e))
             \<and> unat (shift_in (Bytes e)) = be_value (Bytes e)
             \<and> be_value (Bytes e) < 2 ^ 24))"
proof -
  define pk1 where "pk1 = parse_header pk buf"
  have a: "isRSA (PubKeyAlgo pk1)" using assms(3) by (simp add: pk1_def PubKeyAlgo_parse_header)
  have P: "parse env pk r =
     (case parseRSA pk1 r2 of
        Inl err \<Rightarrow> Inl err
      | Inr (pk2, r3) \<Rightarrow>
          (case setFingerprintAndKeyId env pk2 of
             Inl err \<Rightarrow> Inl err
           | Inr pk3 \<Rightarrow> Inr (pk3, r3)))"
    unfolding parse_after_header [OF assms(1,2,4)] pk1_def [symmetric]
    using a by (simp add: parse_switch_def)
  show ?thesis
  proof (cases "3 < length (Bytes e)")
    case True
    have "parseRSA pk1 r2 = Inl (UnsupportedError ''large public exponent'')"
      using True by (simp add: parseRSA_def assms(5,6))
    then show ?thesis using True P by (simp add: pk1_def)
  next
    case False
    define pk2 where "pk2 = pk1\<lparr>f_n := Some n, f_e := Some e,
        NativePublicKey := RSAKey (be_value (Bytes n)) (shift_in (Bytes e))\<rparr>"
    have R: "parseRSA pk1 r2 = Inr (pk2, r4)"
      using False by (simp add: parseRSA_def assms(5,6) pk2_def)
    have k: "known_algo (PubKeyAlgo pk2)" using a by (simp add: pk2_def isRSA_known)
    have f: "declared_fields pk2 = map Some [n, e]"
      using a by (simp add: pk2_def declared_fields_def)
    obtain pk' where s: "setFingerprintAndKeyId env pk2 = Inr pk'"
      and e: "pk' = pk2\<lparr>Fingerprint := Fingerprint pk', KeyId := KeyId pk'\<rparr>"
      using setFingerprintAndKeyId_derived [OF k f] by blast
    have 1: "parse env pk r = Inr (pk', r4)" by (simp add: P R s)
    have 2: "f_n pk' = Some n \<and> f_e pk' = Some e
        \<and> NativePublicKey pk' = RSAKey (be_value (Bytes n)) (shift_in (Bytes e))"
      by (subst e, subst e, subst e) (simp add: pk2_def)
    have 3: "unat (shift_in (Bytes e)) = be_value (Bytes e)"
      using False by (intro unat_shift_in) simp
    have "be_value (Bytes e) < 256 ^ length (Bytes e)" by (rule be_value_bound)
    also have "(256::nat) ^ length (Bytes e) \<le> 256 ^ 3"
      using False by (intro power_increasing) simp_all
    finally have 4: "be_value (Bytes e) < 2 ^ 24" by simp
    show ?thesis using False 1 2 3 4 by auto
  qed
qed


theorem parse_RSA_exponent_witness:
  "readFull example_rsa_body 6 = Inr (take 6 example_rsa_body, drop 6 example_rsa_body)
   \<and> isRSA (take 6 example_rsa_body ! 5)
   \<and> MPI_ReadFrom (drop 6 example_rsa_body) = Inr (MPI [0xC5, 0x3B] 16, drop 10 example_rsa_body)
   \<and> MPI_ReadFrom (drop 10 example_rsa_body) = Inr (MPI [0x01, 0x00, 0x01] 17, [])
   \<and> (\<exists>pk'. parse example_env zero_PublicKey example_rsa_body = Inr (pk', [])
         \<and> NativePublicKey pk' = RSAKey 50491 65537)
   \<and> MPI_ReadFrom (drop 10 example_rsa_body_large) = Inr (MPI [0x01, 0x00, 0x00, 0x01] 25, [])
   \<and> (\<exists>msg. parse example_env zero_PublicKey example_rsa_body_large = Inl (UnsupportedError msg))"
proof -
  have h: "readFull example_rsa_body 6 = Inr (take 6 example_rsa_body, drop 6 example_rsa_body)"
    by (simp add: readFull_def example_rsa_body_def)
  have v: "take 6 example_rsa_body ! 0 = 4 \<or> take 6 example_rsa_body ! 0 = 5"
    by (simp add: example_rsa_body_def)
  have a: "isRSA (take 6 example_rsa_body ! 5)"
    by (simp add: example_rsa_body_def isRSA_def PubKeyAlgoRSA_def)
  have s: "if take 6 example_rsa_body ! 0 = 5
      then (\<exists>cnt. readFull (drop 6 example_rsa_body) 4 = Inr (cnt, drop 6 example_rsa_body))
      else drop 6 example_rsa_body = drop 6 example_rsa_body"
    by (simp add: example_rsa_body_def)
  have n: "MPI_ReadFrom (drop 6 example_rsa_body)
      = Inr (MPI [0xC5, 0x3B] 16, drop 10 example_rsa_body)"
    by (simp add: MPI_ReadFrom_def readFull_def example_rsa_body_def)
  have e: "MPI_ReadFrom (drop 10 example_rsa_body) = Inr (MPI [0x01, 0x00, 0x01] 17, [])"
    by (simp add: MPI_ReadFrom_def readFull_def example_rsa_body_def)
  have val: "be_value [0xC5, 0x3B] = 50491" "shift_in [0x01, 0x00, 0x01] = 65537"
    by (simp_all add: be_value_def shift_in_def)
  have 1: "\<exists>pk'. parse example_env zero_PublicKey example_rsa_body = Inr (pk', [])
         \<and> NativePublicKey pk' = RSAKey 50491 65537"
    using parse_RSA_exponent [OF h v a s n e, of example_env zero_PublicKey] val by auto
  have h': "readFull example_rsa_body_large 6
      = Inr (take 6 example_rsa_body_large, drop 6 example_rsa_body_large)"
    by (simp add: readFull_def example_rsa_body_large_def)
  have v': "take 6 example_rsa_body_large ! 0 = 4 \<or> take 6 example_rsa_body_large ! 0 = 5"
    by (simp add: example_rsa_body_large_def)
  have a': "isRSA (take 6 example_rsa_body_large ! 5)"
    by (simp add: example_rsa_body_large_def isRSA_def PubKeyAlgoRSA_def)
  have s': "if take 6 example_rsa_body_large ! 0 = 5
      then (\<exists>cnt. readFull (drop 6 example_rsa_body_large) 4
              = Inr (cnt, drop 6 example_rsa_body_large))
      else drop 6 example_rsa_body_large = drop 6 example_rsa_body_large"
    by (simp add: example_rsa_body_large_def)
  have n': "MPI_ReadFrom (drop 6 example_rsa_body_large)
      = Inr (MPI [0xC5, 0x3B] 16, drop 10 example_rsa_body_large)"
    by (simp add: MPI_ReadFrom_def readFull_def example_rsa_body_large_def)
  have e': "MPI_ReadFrom (drop 10 example_rsa_body_large)
      = Inr (MPI [0x01, 0x00, 0x00, 0x01] 25, [])"
    by (simp add: MPI_ReadFrom_def readFull_def example_rsa_body_large_def)
  have 2: "\<exists>msg. parse example_env zero_PublicKey example_rsa_body_large
      = Inl (UnsupportedError msg)"
    using parse_RSA_exponent [OF h' v' a' s' n' e', of example_env zero_PublicKey] by simp
  show ?thesis using h a n e 1 e' 2 by (intro conjI)
qed

text \<open>
  Claim C10. For an EdDSA packet whose curve OID resolves to an EdDSA curve and whose
  point MPI can be read: when the point has no content bytes, \<^verbatim>\<open>parseEdDSA\<close> and
  \<^verbatim>\<open>parse\<close> end in the index-out-of-range panic of \<^verbatim>\<open>pk.p.Bytes()[0]\<close>, not in an
  unsupported-feature or malformed-encoding error; when the point has content, neither
  of them panics.
\<close>

theorem parseEdDSA_empty_point:
  assumes "readFull r 6 = Inr (buf, r1)" and "buf ! 0 = 4 \<or> buf ! 0 = 5"
    and "buf ! 5 = PubKeyAlgoEdDSA"
    and "if buf ! 0 = 5 then (\<exists>cnt. readFull r1 4 = Inr (cnt, r2)) else r2 = r1"
    and "OID_ReadFrom r2 = Inr (oid, r3)"
    and "FindByOid env (Bytes oid) = Some ci" and "ci_SigAlgorithm ci = ecc_EdDSA"
    and "MPI_ReadFrom r3 = Inr (p, r4)"
  shows "(Bytes p = [] \<longrightarrow>
            parseEdDSA env (parse_header pk buf) r2 = Inl (Panic ''index out of range'')
            \<and> parse env pk r = Inl (Panic ''index out of range''))
     \<and> (Bytes p \<noteq> [] \<longrightarrow>
            (\<forall>m. parseEdDSA env (parse_header pk buf) r2 \<noteq> Inl (Panic m))
            \<and> (\<forall>m. parse env pk r \<noteq> Inl (Panic m)))"
proof -
  define pk1 where "pk1 = parse_header pk buf"
  have a: "PubKeyAlgo pk1 = PubKeyAlgoEdDSA"
    using assms(3) by (simp add: pk1_def PubKeyAlgo_parse_header)
  have sw: "parse_switch env pk1 r2 = parseEdDSA env pk1 r2"
    using a by (simp add: parse_switch_def algo_defs)
  have P: "parse env pk r =
     (case parseEdDSA env pk1 r2 of
        Inl err \<Rightarrow> Inl err
      | Inr (pk2, r3) \<Rightarrow>
          (case setFingerprintAndKeyId env pk2 of
             Inl err \<Rightarrow> Inl err
           | Inr pk3 \<Rightarrow> Inr (pk3, r3)))"
    unfolding parse_after_header [OF assms(1,2,4)] pk1_def [symmetric] sw ..
  show ?thesis
  proof (cases "Bytes p")
    case Nil
    have "parseEdDSA env pk1 r2 = Inl (Panic ''index out of range'')"
      by (simp add: parseEdDSA_def assms(5-8) Nil)
    then show ?thesis using Nil P by (simp add: pk1_def)
  next
    case (Cons flag rest)
    have E: "parseEdDSA env pk1 r2 =
        (if flag = 0x04 then Inl (UnsupportedError ''unsupported EdDSA compression: '')
         else if flag = 0x40
         then Inr (pk1\<lparr>f_oid := Some oid, f_p := Some p,
                       NativePublicKey := EdDSAKey (copy_at (replicate 32 0) 0 rest)\<rparr>, r4)
         else Inl (UnsupportedError ''unsupported EdDSA compression: ''))"
      by (simp add: parseEdDSA_def assms(5-8) Cons)
    then have np: "parseEdDSA env pk1 r2 \<noteq> Inl (Panic m)" for m by simp
    have "parse env pk r \<noteq> Inl (Panic m)" for m
    proof (cases "flag = 0x40")
      case False
      then show ?thesis using E P by simp
    next
      case True
      define pk2 where "pk2 = pk1\<lparr>f_oid := Some oid, f_p := Some p,
          NativePublicKey := EdDSAKey (copy_at (replicate 32 0) 0 rest)\<rparr>"
      have R: "parseEdDSA env pk1 r2 = Inr (pk2, r4)" using E True by (simp add: pk2_def)
      have k: "known_algo (PubKeyAlgo pk2)" using a by (simp add: pk2_def known_algo_def)
      have f: "declared_fields pk2 = map Some [oid, p]"
        using a by (simp add: pk2_def declared_fields_def algo_defs)
      obtain pk' where "setFingerprintAndKeyId env pk2 = Inr pk'"
        using setFingerprintAndKeyId_total [OF k f] by blast
      then show ?thesis by (simp add: P R)
    qed
    then show ?thesis using np Cons by (simp add: pk1_def)
  qed
qed

theorem parseEdDSA_empty_point_witness:
  "readFull example_eddsa_body_empty_point 6
     = Inr (take 6 example_eddsa_body_empty_point, drop 6 example_eddsa_body_empty_point)
   \<and> take 6 example_eddsa_body_empty_point ! 5 = PubKeyAlgoEdDSA
   \<and> OID_ReadFrom (drop 6 example_eddsa_body_empty_point) = Inr (OID oid_Ed25519, [0, 0])
   \<and> FindByOid example_env (Bytes (OID oid_Ed25519)) = Some ci_Ed25519
   \<and> ci_SigAlgorithm ci_Ed25519 = ecc_EdDSA
   \<and> MPI_ReadFrom [0, 0] = Inr (MPI [] 0, [])
   \<and> parse example_env zero_PublicKey example_eddsa_body_empty_point
       = Inl (Panic ''index out of range'')"
proof -
  have h: "readFull example_eddsa_body_empty_point 6
     = Inr (take 6 example_eddsa_body_empty_point, drop 6 example_eddsa_body_empty_point)"
    by (simp add: readFull_def example_eddsa_body_empty_point_def)
  have v: "take 6 example_eddsa_body_empty_point ! 0 = 4
      \<or> take 6 example_eddsa_body_empty_point ! 0 = 5"
    by (simp add: example_eddsa_body_empty_point_def)
  have a: "take 6 example_eddsa_body_empty_point ! 5 = PubKeyAlgoEdDSA"
    by (simp add: example_eddsa_body_empty_point_def PubKeyAlgoEdDSA_def)
  have s: "if take 6 example_eddsa_body_empty_point ! 0 = 5
      then (\<exists>cnt. readFull (drop 6 example_eddsa_body_empty_point) 4
              = Inr (cnt, drop 6 example_eddsa_body_empty_point))
      else drop 6 example_eddsa_body_empty_point = drop 6 example_eddsa_body_empty_point"
    by (simp add: example_eddsa_body_empty_point_def)
  have o: "OID_ReadFrom (drop 6 example_eddsa_body_empty_point) = Inr (OID oid_Ed25519, [0, 0])"
    by (simp add: OID_ReadFrom_def readFull_def example_eddsa_body_empty_point_def
        oid_Ed25519_def)
  have f: "FindByOid example_env (Bytes (OID oid_Ed25519)) = Some ci_Ed25519"
    by (simp add: example_env_def oid_Ed25519_def oid_P256_def)
  have g: "ci_SigAlgorithm ci_Ed25519 = ecc_EdDSA" by (simp add: ci_Ed25519_def)
  have m: "MPI_ReadFrom [0, 0] = Inr (MPI [] 0, [])"
    by (simp add: MPI_ReadFrom_def readFull_def)
  have "parse example_env zero_PublicKey example_eddsa_body_empty_point
       = Inl (Panic ''index out of range'')"
    using parseEdDSA_empty_point [OF h v a s o f g m, of zero_PublicKey] by simp
  then show ?thesis using h a o f g m by (intro conjI)
qed

lemma readFull_append: "length a = k \<Longrightarrow> readFull (a @ rest) k = Inr (a, rest)"
  by (simp add: readFull_def)

lemma be16_rejoin:
  "(push_bit 8 (ucast (ucast (drop_bit 8 l) :: byte)) OR ucast (ucast l :: byte) :: 16 word) = l"
  by (rule bit_word_eqI) (auto simp: bit_simps dest: bit_imp_le_length)

lemma MPI_ReadFrom_Encoded:
  assumes "valid_MPI (Some f)"
  shows "MPI_ReadFrom (EncodedBytes f @ rest) = Inr (f, rest)"
proof (cases f)
  case (MPI b l)
  have w: "length b = (unat l + 7) div 8" using assms MPI by simp
  have 1: "readFull (ucast (drop_bit 8 l) # ucast l # b @ rest) 2
      = Inr ([ucast (drop_bit 8 l), ucast l], b @ rest)"
    by (simp add: readFull_def)
  have 2: "readFull (b @ rest) ((unat l + 7) div 8) = Inr (b, rest)"
    using w by (intro readFull_append) simp
  show ?thesis
    by (simp add: MPI_ReadFrom_def 1 be16_rejoin 2 MPI)
next
  case (OID b)
  then show ?thesis using assms by simp
qed

lemma OID_ReadFrom_Encoded:
  assumes "valid_OID (Some f)"
  shows "OID_ReadFrom (EncodedBytes f @ rest) = Inr (f, rest)"
proof (cases f)
  case (MPI b l)
  then show ?thesis using assms by simp
next
  case (OID b)
  have w: "length b < 256" using assms OID by simp
  have 1: "readFull (of_nat (length b) # b @ rest) (Suc 0) = Inr ([of_nat (length b)], b @ rest)"
    by (simp add: readFull_def)
  have 2: "unat (of_nat (length b) :: byte) = length b" using w by (simp add: unat_of_nat)
  show ?thesis
    by (simp add: OID_ReadFrom_def 1 2 readFull_append OID)
qed

lemma valid_MPI_Some: "valid_MPI fo \<Longrightarrow> \<exists>f. fo = Some f \<and> valid_MPI (Some f)"
  by (cases fo) simp_all

lemma valid_OID_Some: "valid_OID fo \<Longrightarrow> \<exists>f. fo = Some f \<and> valid_OID (Some f)"
  by (cases fo) simp_all


lemma be32_rejoin:
  "(push_bit 24 (ucast (ucast (drop_bit 24 w) :: byte)) OR push_bit 16 (ucast (ucast (drop_bit 16 w) :: byte))
    OR push_bit 8 (ucast (ucast (drop_bit 8 w) :: byte)) OR ucast (ucast w :: byte) :: 32 word) = w"
proof (rule bit_word_eqI)
  fix n
  assume n: "n < LENGTH(32)"
  consider "n < 8" | "8 \<le> n" "n < 16" | "16 \<le> n" "n < 24" | "24 \<le> n" "n < 32"
    using n by fastforce
  then show "bit (push_bit 24 (ucast (ucast (drop_bit 24 w) :: byte))
        OR push_bit 16 (ucast (ucast (drop_bit 16 w) :: byte))
        OR push_bit 8 (ucast (ucast (drop_bit 8 w) :: byte)) OR ucast (ucast w :: byte) :: 32 word) n
      \<longleftrightarrow> bit w n"
    by cases (auto simp: bit_simps dest: bit_imp_le_length)
qed

lemma spec_header_eq:
  "spec_header pk =
     [word_of_int (Version pk),
      ucast (drop_bit 24 (word_of_int (Unix (CreationTime pk)) :: 32 word)),
      ucast (drop_bit 16 (word_of_int (Unix (CreationTime pk)) :: 32 word)),
      ucast (drop_bit 8 (word_of_int (Unix (CreationTime pk)) :: 32 word)),
      ucast (word_of_int (Unix (CreationTime pk)) :: 32 word), PubKeyAlgo pk]"
  by (simp add: spec_header_def be_bytes_4_word)

lemma length_spec_header: "length (spec_header pk) = 6"
  by (simp add: spec_header_eq)

lemma parse_header_spec_header:
  assumes "Version pk = 4 \<or> Version pk = 5"
    and "0 \<le> Unix (CreationTime pk)" and "Unix (CreationTime pk) < 2 ^ 32"
  shows "parse_header pk0 (spec_header pk) =
     pk0\<lparr>Version := Version pk,
         CreationTime := \<lparr>Unix = Unix (CreationTime pk), Nanosecond = 0\<rparr>,
         PubKeyAlgo := PubKeyAlgo pk\<rparr>"
proof -
  have v: "uint (word_of_int (Version pk) :: byte) = Version pk"
    using assms(1) by auto
  have t: "uint (word_of_int (Unix (CreationTime pk)) :: 32 word) = Unix (CreationTime pk)"
    using assms(2,3) by (simp add: uint_word_of_int take_bit_eq_mod)
  show ?thesis
    by (simp add: parse_header_def spec_header_eq Let_def be32_rejoin v t)
qed

lemma spec_header_version:
  assumes "Version pk = 4 \<or> Version pk = 5"
  shows "spec_header pk ! 0 = 4 \<or> spec_header pk ! 0 = 5"
    and "spec_header pk ! 0 = 5 \<longleftrightarrow> Version pk = 5"
  using assms by (auto simp: spec_header_eq)


lemma fields_bytes_2: "spec_fields_bytes [a, b] @ rest = EncodedBytes a @ EncodedBytes b @ rest"
  by (simp add: spec_fields_bytes_def)

lemma fields_bytes_3:
  "spec_fields_bytes [a, b, c] @ rest = EncodedBytes a @ EncodedBytes b @ EncodedBytes c @ rest"
  by (simp add: spec_fields_bytes_def)

lemma fields_bytes_4:
  "spec_fields_bytes [a, b, c, d] @ rest
     = EncodedBytes a @ EncodedBytes b @ EncodedBytes c @ EncodedBytes d @ rest"
  by (simp add: spec_fields_bytes_def)

lemma parseRSA_valid:
  assumes "valid_RSA pk"
  shows "\<exists>fs pk2. [f_n pk, f_e pk] = map Some fs
     \<and> parseRSA pk1 (spec_fields_bytes fs @ rest) = Inr (pk2, rest)
     \<and> [f_n pk2, f_e pk2] = map Some fs"
proof -
  obtain n e where n: "f_n pk = Some n" "valid_MPI (Some n)"
    and e: "f_e pk = Some e" "valid_MPI (Some e)" "length (Bytes e) \<le> 3"
    using assms valid_MPI_Some unfolding valid_RSA_def by (metis opt_Bytes.simps(1))
  have "parseRSA pk1 (spec_fields_bytes [n, e] @ rest) =
      Inr (pk1\<lparr>f_n := Some n, f_e := Some e,
               NativePublicKey := RSAKey (be_value (Bytes n)) (shift_in (Bytes e))\<rparr>, rest)"
    using e(3) by (simp add: fields_bytes_2 parseRSA_def MPI_ReadFrom_Encoded [OF n(2)] MPI_ReadFrom_Encoded [OF e(2)])
  then show ?thesis using n(1) e(1) by (intro exI [of _ "[n, e]"]) simp
qed

lemma parseDSA_valid:
  assumes "valid_DSA pk"
  shows "\<exists>fs pk2. [f_p pk, f_q pk, f_g pk, f_y pk] = map Some fs
     \<and> parseDSA pk1 (spec_fields_bytes fs @ rest) = Inr (pk2, rest)
     \<and> [f_p pk2, f_q pk2, f_g pk2, f_y pk2] = map Some fs"
proof -
  obtain p q g y where p: "f_p pk = Some p" "valid_MPI (Some p)"
    and q: "f_q pk = Some q" "valid_MPI (Some q)"
    and g: "f_g pk = Some g" "valid_MPI (Some g)"
    and y: "f_y pk = Some y" "valid_MPI (Some y)"
    using assms valid_MPI_Some unfolding valid_DSA_def by metis
  have "parseDSA pk1 (spec_fields_bytes [p, q, g, y] @ rest) =
      Inr (pk1\<lparr>f_p := Some p, f_q := Some q, f_g := Some g, f_y := Some y,
                   NativePublicKey := DSAKey (be_value (Bytes p)) (be_value (Bytes q))
                                             (be_value (Bytes g)) (be_value (Bytes y))\<rparr>, rest)"
    by (simp add: fields_bytes_4 parseDSA_def MPI_ReadFrom_Encoded [OF p(2)] MPI_ReadFrom_Encoded [OF q(2)] MPI_ReadFrom_Encoded [OF g(2)] MPI_ReadFrom_Encoded [OF y(2)])
  then show ?thesis using p(1) q(1) g(1) y(1) by (intro exI [of _ "[p, q, g, y]"]) simp
qed

lemma parseElGamal_valid:
  assumes "valid_ElGamal pk"
  shows "\<exists>fs pk2. [f_p pk, f_g pk, f_y pk] = map Some fs
     \<and> parseElGamal pk1 (spec_fields_bytes fs @ rest) = Inr (pk2, rest)
     \<and> [f_p pk2, f_g pk2, f_y pk2] = map Some fs"
proof -
  obtain p g y where p: "f_p pk = Some p" "valid_MPI (Some p)"
    and g: "f_g pk = Some g" "valid_MPI (Some g)"
    and y: "f_y pk = Some y" "valid_MPI (Some y)"
    using assms valid_MPI_Some unfolding valid_ElGamal_def by metis
  have "parseElGamal pk1 (spec_fields_bytes [p, g, y] @ rest) =
      Inr (pk1\<lparr>f_p := Some p, f_g := Some g, f_y := Some y,
                   NativePublicKey := ElGamalKey (be_value (Bytes p)) (be_value (Bytes g))
                                                 (be_value (Bytes y))\<rparr>, rest)"
    by (simp add: fields_bytes_3 parseElGamal_def MPI_ReadFrom_Encoded [OF p(2)] MPI_ReadFrom_Encoded [OF g(2)] MPI_ReadFrom_Encoded [OF y(2)])
  then show ?thesis using p(1) g(1) y(1) by (intro exI [of _ "[p, g, y]"]) simp
qed

lemma parseECDSA_valid:
  assumes "valid_ECDSA env pk"
  shows "\<exists>fs pk2. [f_oid pk, f_p pk] = map Some fs
     \<and> parseECDSA env pk1 (spec_fields_bytes fs @ rest) = Inr (pk2, rest)
     \<and> [f_oid pk2, f_p pk2] = map Some fs"
proof -
  obtain oid p where o: "f_oid pk = Some oid" "valid_OID (Some oid)"
    and p: "f_p pk = Some p" "valid_MPI (Some p)"
    using assms valid_MPI_Some valid_OID_Some unfolding valid_ECDSA_def by metis
  obtain ci x y where c: "FindByOid env (Bytes oid) = Some ci" "ci_SigAlgorithm ci = ecc_ECDSA"
    "Unmarshal env (ci_Curve ci) (Bytes p) = Some (x, y)"
    using assms o(1) p(1) unfolding valid_ECDSA_def by (auto split: option.splits)
  have "parseECDSA env pk1 (spec_fields_bytes [oid, p] @ rest) =
      Inr (pk1\<lparr>f_oid := Some oid, f_p := Some p,
               NativePublicKey := ECDSAKey (ci_Curve ci) x y\<rparr>, rest)"
    by (simp add: fields_bytes_2 parseECDSA_def OID_ReadFrom_Encoded [OF o(2)] MPI_ReadFrom_Encoded [OF p(2)] c)
  then show ?thesis using o(1) p(1) by (intro exI [of _ "[oid, p]"]) simp
qed

lemma parseEdDSA_valid:
  assumes "valid_EdDSA env pk"
  shows "\<exists>fs pk2. [f_oid pk, f_p pk] = map Some fs
     \<and> parseEdDSA env pk1 (spec_fields_bytes fs @ rest) = Inr (pk2, rest)
     \<and> [f_oid pk2, f_p pk2] = map Some fs"
proof -
  obtain oid p where o: "f_oid pk = Some oid" "valid_OID (Some oid)"
    and p: "f_p pk = Some p" "valid_MPI (Some p)"
    using assms valid_MPI_Some valid_OID_Some unfolding valid_EdDSA_def by metis
  obtain ci where c: "FindByOid env (Bytes oid) = Some ci" "ci_SigAlgorithm ci = ecc_EdDSA"
    using assms o(1) unfolding valid_EdDSA_def by (auto split: option.splits)
  obtain rest' where b: "Bytes p = 0x40 # rest'"
    using assms p(1) unfolding valid_EdDSA_def by (auto split: list.splits)
  have "parseEdDSA env pk1 (spec_fields_bytes [oid, p] @ rest) =
      Inr (pk1\<lparr>f_oid := Some oid, f_p := Some p,
               NativePublicKey := EdDSAKey (copy_at (replicate 32 0) 0 rest')\<rparr>, rest)"
    by (simp add: fields_bytes_2 parseEdDSA_def OID_ReadFrom_Encoded [OF o(2)] MPI_ReadFrom_Encoded [OF p(2)] c b)
  then show ?thesis using o(1) p(1) by (intro exI [of _ "[oid, p]"]) simp
qed

lemma parseECDH_valid:
  assumes "valid_ECDH env pk"
  shows "\<exists>fs pk2. [f_oid pk, f_p pk, f_kdf pk] = map Some fs
     \<and> parseECDH env pk1 (spec_fields_bytes fs @ rest) = Inr (pk2, rest)
     \<and> [f_oid pk2, f_p pk2, f_kdf pk2] = map Some fs"
proof -
  obtain oid p kdf where o: "f_oid pk = Some oid" "valid_OID (Some oid)"
    and p: "f_p pk = Some p" "valid_MPI (Some p)"
    and k: "f_kdf pk = Some kdf" "valid_OID (Some kdf)"
    using assms valid_MPI_Some valid_OID_Some unfolding valid_ECDH_def by metis
  obtain ci where c: "FindByOid env (Bytes oid) = Some ci"
    "ci_CurveType ci = Curve25519 \<or> Unmarshal env (ci_Curve ci) (Bytes p) \<noteq> None"
    using assms o(1) p(1) unfolding valid_ECDH_def by (auto split: option.splits)
  obtain x y where xy: "(if ci_CurveType ci = Curve25519 then Some (be_value (Bytes p), None)
                     else (case Unmarshal env (ci_Curve ci) (Bytes p) of
                             None \<Rightarrow> None
                           | Some (x, y) \<Rightarrow> Some (x, Some y))) = Some (x, y)"
  proof (cases "ci_CurveType ci = Curve25519")
    case True
    then show ?thesis using that by simp
  next
    case False
    then obtain a b where "Unmarshal env (ci_Curve ci) (Bytes p) = Some (a, b)"
      using c(2) by auto
    then show ?thesis using that False by simp
  qed
  obtain kh kc where kd: "3 \<le> length (Bytes kdf)" "Bytes kdf ! 0 = 0x01"
    "HashById env (Bytes kdf ! 1) = Some kh" "CipherById env (Bytes kdf ! 2) = Some kc"
    using assms k(1) unfolding valid_ECDH_def by auto
  have "parseECDH env pk1 (spec_fields_bytes [oid, p, kdf] @ rest) =
      Inr (pk1\<lparr>f_oid := Some oid, f_p := Some p, f_kdf := Some kdf,
               NativePublicKey := ECDHKey (ci_CurveType ci) (ci_Curve ci) x y kh kc\<rparr>, rest)"
    using kd(1) kd(3)
    by (simp add: fields_bytes_3 parseECDH_def OID_ReadFrom_Encoded [OF o(2)]
        MPI_ReadFrom_Encoded [OF p(2)] OID_ReadFrom_Encoded [OF k(2)] Let_def c(1) xy kd(2-4))
  then show ?thesis using o(1) p(1) k(1) by (intro exI [of _ "[oid, p, kdf]"]) simp
qed



lemma parse_switch_valid:
  assumes v: "valid_key env pk" and a: "PubKeyAlgo pk1 = PubKeyAlgo pk"
  shows "\<exists>fs pk2. known_algo (PubKeyAlgo pk) \<and> declared_fields pk = map Some fs
     \<and> parse_switch env pk1 (spec_fields_bytes fs @ rest) = Inr (pk2, rest)
     \<and> declared_fields pk2 = map Some fs"
proof -
  consider (rsa) "isRSA (PubKeyAlgo pk)" "valid_RSA pk"
    | (dsa) "\<not> isRSA (PubKeyAlgo pk)" "PubKeyAlgo pk = PubKeyAlgoDSA" "valid_DSA pk"
    | (elg) "\<not> isRSA (PubKeyAlgo pk)" "PubKeyAlgo pk = PubKeyAlgoElGamal" "valid_ElGamal pk"
    | (ecdsa) "\<not> isRSA (PubKeyAlgo pk)" "PubKeyAlgo pk = PubKeyAlgoECDSA" "valid_ECDSA env pk"
    | (ecdh) "\<not> isRSA (PubKeyAlgo pk)" "PubKeyAlgo pk = PubKeyAlgoECDH" "valid_ECDH env pk"
    | (eddsa) "\<not> isRSA (PubKeyAlgo pk)" "PubKeyAlgo pk = PubKeyAlgoEdDSA" "valid_EdDSA env pk"
    using v unfolding valid_key_def by (auto split: if_splits)
  then show ?thesis
  proof cases
    case rsa
    obtain fs pk2 where f: "[f_n pk, f_e pk] = map Some fs"
      and r: "parseRSA pk1 (spec_fields_bytes fs @ rest) = Inr (pk2, rest)"
      and g: "[f_n pk2, f_e pk2] = map Some fs"
      using parseRSA_valid [OF rsa(2), where ?pk1.0 = pk1 and rest = rest]
      by (elim exE conjE)
    have "PubKeyAlgo pk2 = PubKeyAlgo pk" using parseRSA_frame [OF r] a by simp
    then have "declared_fields pk2 = map Some fs" using rsa(1) g by (simp add: declared_fields_def)
    moreover have "declared_fields pk = map Some fs" using rsa(1) f by (simp add: declared_fields_def)
    moreover have "parse_switch env pk1 (spec_fields_bytes fs @ rest) = Inr (pk2, rest)"
      using rsa(1) r a by (simp add: parse_switch_def)
    ultimately show ?thesis using rsa(1) isRSA_known by blast
  next
    case dsa
    obtain fs pk2 where f: "[f_p pk, f_q pk, f_g pk, f_y pk] = map Some fs"
      and r: "parseDSA pk1 (spec_fields_bytes fs @ rest) = Inr (pk2, rest)"
      and g: "[f_p pk2, f_q pk2, f_g pk2, f_y pk2] = map Some fs"
      using parseDSA_valid [OF dsa(3), where ?pk1.0 = pk1 and rest = rest]
      by (elim exE conjE)
    have "PubKeyAlgo pk2 = PubKeyAlgo pk" using parseDSA_frame [OF r] a by simp
    then have "declared_fields pk2 = map Some fs"
      using dsa(1,2) g by (simp add: declared_fields_def)
    moreover have "declared_fields pk = map Some fs"
      using dsa(1,2) f by (simp add: declared_fields_def)
    moreover have "parse_switch env pk1 (spec_fields_bytes fs @ rest) = Inr (pk2, rest)"
      using dsa(1,2) r a by (simp add: parse_switch_def)
    moreover have "known_algo (PubKeyAlgo pk)" using dsa(2) by (simp add: known_algo_def)
    ultimately show ?thesis by blast
  next
    case elg
    obtain fs pk2 where f: "[f_p pk, f_g pk, f_y pk] = map Some fs"
      and r: "parseElGamal pk1 (spec_fields_bytes fs @ rest) = Inr (pk2, rest)"
      and g: "[f_p pk2, f_g pk2, f_y pk2] = map Some fs"
      using parseElGamal_valid [OF elg(3), where ?pk1.0 = pk1 and rest = rest]
      by (elim exE conjE)
    have n: "PubKeyAlgoElGamal \<noteq> PubKeyAlgoDSA" by (simp add: algo_defs)
    have "PubKeyAlgo pk2 = PubKeyAlgo pk" using parseElGamal_frame [OF r] a by simp
    then have "declared_fields pk2 = map Some fs"
      using elg(1,2) g n by (simp add: declared_fields_def)
    moreover have "declared_fields pk = map Some fs"
      using elg(1,2) f n by (simp add: declared_fields_def)
    moreover have "parse_switch env pk1 (spec_fields_bytes fs @ rest) = Inr (pk2, rest)"
      using elg(1,2) r a n by (simp add: parse_switch_def)
    moreover have "known_algo (PubKeyAlgo pk)" using elg(2) by (simp add: known_algo_def)
    ultimately show ?thesis by blast
  next
    case ecdsa
    obtain fs pk2 where f: "[f_oid pk, f_p pk] = map Some fs"
      and r: "parseECDSA env pk1 (spec_fields_bytes fs @ rest) = Inr (pk2, rest)"
      and g: "[f_oid pk2, f_p pk2] = map Some fs"
      using parseECDSA_valid [OF ecdsa(3), where ?pk1.0 = pk1 and rest = rest]
      by (elim exE conjE)
    have n: "PubKeyAlgoECDSA \<noteq> PubKeyAlgoDSA" "PubKeyAlgoECDSA \<noteq> PubKeyAlgoElGamal"
      by (simp_all add: algo_defs)
    have "PubKeyAlgo pk2 = PubKeyAlgo pk" using parseECDSA_frame [OF r] a by simp
    then have "declared_fields pk2 = map Some fs"
      using ecdsa(1,2) g n by (simp add: declared_fields_def)
    moreover have "declared_fields pk = map Some fs"
      using ecdsa(1,2) f n by (simp add: declared_fields_def)
    moreover have "parse_switch env pk1 (spec_fields_bytes fs @ rest) = Inr (pk2, rest)"
      using ecdsa(1,2) r a n by (simp add: parse_switch_def)
    moreover have "known_algo (PubKeyAlgo pk)" using ecdsa(2) by (simp add: known_algo_def)
    ultimately show ?thesis by blast
  next
    case ecdh
    obtain fs pk2 where f: "[f_oid pk, f_p pk, f_kdf pk] = map Some fs"
      and r: "parseECDH env pk1 (spec_fields_bytes fs @ rest) = Inr (pk2, rest)"
      and g: "[f_oid pk2, f_p pk2, f_kdf pk2] = map Some fs"
      using parseECDH_valid [OF ecdh(3), where ?pk1.0 = pk1 and rest = rest]
      by (elim exE conjE)
    have n: "PubKeyAlgoECDH \<noteq> PubKeyAlgoDSA" "PubKeyAlgoECDH \<noteq> PubKeyAlgoElGamal"
      "PubKeyAlgoECDH \<noteq> PubKeyAlgoECDSA"
      by (simp_all add: algo_defs)
    have "PubKeyAlgo pk2 = PubKeyAlgo pk" using parseECDH_frame [OF r] a by simp
    then have "declared_fields pk2 = map Some fs"
      using ecdh(1,2) g n by (simp add: declared_fields_def)
    moreover have "declared_fields pk = map Some fs"
      using ecdh(1,2) f n by (simp add: declared_fields_def)
    moreover have "parse_switch env pk1 (spec_fields_bytes fs @ rest) = Inr (pk2, rest)"
      using ecdh(1,2) r a n by (simp add: parse_switch_def)
    moreover have "known_algo (PubKeyAlgo pk)" using ecdh(2) by (simp add: known_algo_def)
    ultimately show ?thesis by blast
  next
    case eddsa
    obtain fs pk2 where f: "[f_oid pk, f_p pk] = map Some fs"
      and r: "parseEdDSA env pk1 (spec_fields_bytes fs @ rest) = Inr (pk2, rest)"
      and g: "[f_oid pk2, f_p pk2] = map Some fs"
      using parseEdDSA_valid [OF eddsa(3), where ?pk1.0 = pk1 and rest = rest]
      by (elim exE conjE)
    have n: "PubKeyAlgoEdDSA \<noteq> PubKeyAlgoDSA" "PubKeyAlgoEdDSA \<noteq> PubKeyAlgoElGamal"
      "PubKeyAlgoEdDSA \<noteq> PubKeyAlgoECDSA" "PubKeyAlgoEdDSA \<noteq> PubKeyAlgoECDH"
      by (simp_all add: algo_defs)
    have "PubKeyAlgo pk2 = PubKeyAlgo pk" using parseEdDSA_frame [OF r] a by simp
    then have "declared_fields pk2 = map Some fs"
      using eddsa(1,2) g n by (simp add: declared_fields_def)
    moreover have "declared_fields pk = map Some fs"
      using eddsa(1,2) f n by (simp add: declared_fields_def)
    moreover have "parse_switch env pk1 (spec_fields_bytes fs @ rest) = Inr (pk2, rest)"
      using eddsa(1,2) r a n by (simp add: parse_switch_def)
    moreover have "known_algo (PubKeyAlgo pk)" using eddsa(2) by (simp add: known_algo_def)
    ultimately show ?thesis by blast
  qed
qed


lemma spec_body_split:
  "spec_body pk fs = spec_header pk @ (if Version pk = 5 then be_bytes 4 (spec_L fs) else [])
     @ spec_fields_bytes fs"
  by (simp add: spec_body_def spec_header_def)

lemma length_be_bytes: "length (be_bytes k v) = k"
  by (simp add: be_bytes_def)

lemma length_spec_body:
  "length (spec_body pk fs) = (if Version pk = 5 then 6 + spec_L fs + 4 else 6 + spec_L fs)"
  by (simp add: spec_body_split length_spec_header length_be_bytes spec_L_def)

lemma Serialize_Buffer:
  assumes "known_algo (PubKeyAlgo pk)" and "declared_fields pk = map Some fs"
  shows "Serialize hdr Buffer_Write [] pk =
     (hdr (if IsSubkey pk then packetTypePublicSubkey else packetTypePublicKey)
          (length (spec_body pk fs)) @ spec_body pk fs, None)"
proof -
  have b: "serializeWithoutHeaders Buffer_Write w pk = (w @ spec_body pk fs, None)" for w
    by (simp add: serializeWithoutHeaders_feed [OF never_fails_Buffer assms] feed_Buffer
        concat_body_chunks)
  show ?thesis
    unfolding Serialize_def algorithmSpecificByteCount_Some [OF assms] Let_def serializeHeader_def
    by (simp add: Buffer_Write_def b length_spec_body)
qed

lemma spec_preimage_cong:
  assumes "Version pk2 = Version pk" and "Unix (CreationTime pk2) = Unix (CreationTime pk)"
    and "PubKeyAlgo pk2 = PubKeyAlgo pk"
  shows "spec_preimage pk2 fs = spec_preimage pk fs"
  using assms by (simp add: spec_preimage_def spec_prefix_def spec_body_def)

lemma setFingerprintAndKeyId_cong:
  assumes k: "known_algo (PubKeyAlgo pk)" and f: "declared_fields pk = map Some fs"
    and f2: "declared_fields pk2 = map Some fs"
    and v: "Version pk2 = Version pk" and t: "Unix (CreationTime pk2) = Unix (CreationTime pk)"
    and a: "PubKeyAlgo pk2 = PubKeyAlgo pk"
  shows "\<exists>fp kid. setFingerprintAndKeyId env pk = Inr (pk\<lparr>Fingerprint := fp, KeyId := kid\<rparr>)
     \<and> setFingerprintAndKeyId env pk2 = Inr (pk2\<lparr>Fingerprint := fp, KeyId := kid\<rparr>)"
proof -
  have k2: "known_algo (PubKeyAlgo pk2)" using k a by simp
  note e = spec_preimage_cong [OF v t a, of fs]
  show ?thesis
  proof (cases "Version pk = 5")
    case True
    then have T2: "Version pk2 = 5" using v by simp
    show ?thesis
      unfolding setFingerprintAndKeyId_v5 [OF k f True] setFingerprintAndKeyId_v5 [OF k2 f2 T2] e
      by blast
  next
    case False
    then have F2: "Version pk2 \<noteq> 5" using v by simp
    obtain h where h: "Sum (sha1_block env) (spec_preimage pk fs) = Inr h"
      and s: "setFingerprintAndKeyId env pk =
         Inr (pk\<lparr>Fingerprint := h, KeyId := Uint64 (take 8 (drop 12 h))\<rparr>)"
      using setFingerprintAndKeyId_v4 [OF k f False, of env] by (elim exE conjE)
    obtain h2 where h2: "Sum (sha1_block env) (spec_preimage pk fs) = Inr h2"
      and s2: "setFingerprintAndKeyId env pk2 =
         Inr (pk2\<lparr>Fingerprint := h2, KeyId := Uint64 (take 8 (drop 12 h2))\<rparr>)"
      using setFingerprintAndKeyId_v4 [OF k2 f2 F2, of env] unfolding e by (elim exE conjE)
    have "h2 = h" using h h2 by simp
    then show ?thesis using s s2 by blast
  qed
qed

text \<open>
  Claim C3. For every valid key, \<^verbatim>\<open>Serialize\<close> writes the packet header followed by a
  body, and \<^verbatim>\<open>parse\<close> on that body (followed by anything) succeeds, consumes exactly
  the body, and returns a key with the same algorithm parameters, version, creation
  time in seconds and algorithm; its fingerprint and key id are those that the
  derivation gives for the original key.
\<close>

theorem serialize_parse_roundtrip:
  assumes "valid_key env pk"
  shows "\<exists>body pk' fs fp kid.
      Serialize (header_bytes env) Buffer_Write [] pk =
        (header_bytes env (if IsSubkey pk then packetTypePublicSubkey else packetTypePublicKey)
           (length body) @ body, None)
    \<and> parse env pk0 (body @ rest) = Inr (pk', rest)
    \<and> declared_fields pk = map Some fs \<and> declared_fields pk' = declared_fields pk
    \<and> Version pk' = Version pk
    \<and> CreationTime pk' = \<lparr>Unix = Unix (CreationTime pk), Nanosecond = 0\<rparr>
    \<and> PubKeyAlgo pk' = PubKeyAlgo pk
    \<and> setFingerprintAndKeyId env pk = Inr (pk\<lparr>Fingerprint := fp, KeyId := kid\<rparr>)
    \<and> Fingerprint pk' = fp \<and> KeyId pk' = kid"
proof -
  have ver: "Version pk = 4 \<or> Version pk = 5"
    and t0: "0 \<le> Unix (CreationTime pk)" and t1: "Unix (CreationTime pk) < 2 ^ 32"
    using assms by (simp_all add: valid_key_def)
  define pk1 where "pk1 = parse_header pk0 (spec_header pk)"
  have pk1: "pk1 = pk0\<lparr>Version := Version pk,
         CreationTime := \<lparr>Unix = Unix (CreationTime pk), Nanosecond = 0\<rparr>,
         PubKeyAlgo := PubKeyAlgo pk\<rparr>"
    unfolding pk1_def by (rule parse_header_spec_header [OF ver t0 t1])
  have a1: "PubKeyAlgo pk1 = PubKeyAlgo pk" by (simp add: pk1)
  obtain fs pk2 where k: "known_algo (PubKeyAlgo pk)" and f: "declared_fields pk = map Some fs"
    and sw: "parse_switch env pk1 (spec_fields_bytes fs @ rest) = Inr (pk2, rest)"
    and f2: "declared_fields pk2 = map Some fs"
    using parse_switch_valid [OF assms a1, where rest = rest] by (elim exE conjE)
  have fr: "Version pk2 = Version pk" "PubKeyAlgo pk2 = PubKeyAlgo pk"
    "CreationTime pk2 = \<lparr>Unix = Unix (CreationTime pk), Nanosecond = 0\<rparr>"
    using parse_switch_frame [OF sw] by (simp_all add: pk1)
  have t2: "Unix (CreationTime pk2) = Unix (CreationTime pk)" by (simp add: fr(3))
  obtain fp kid where s: "setFingerprintAndKeyId env pk = Inr (pk\<lparr>Fingerprint := fp, KeyId := kid\<rparr>)"
    and s2: "setFingerprintAndKeyId env pk2 = Inr (pk2\<lparr>Fingerprint := fp, KeyId := kid\<rparr>)"
    using setFingerprintAndKeyId_cong [OF k f f2 fr(1) t2 fr(2), of env] by (elim exE conjE)
  define body where "body = spec_body pk fs"
  define r1 where "r1 = (if Version pk = 5 then be_bytes 4 (spec_L fs) else [])
     @ spec_fields_bytes fs @ rest"
  have br: "body @ rest = spec_header pk @ r1"
    by (simp add: body_def spec_body_split r1_def)
  have h: "readFull (body @ rest) 6 = Inr (spec_header pk, r1)"
    unfolding br by (rule readFull_append) (rule length_spec_header)
  have sk: "if spec_header pk ! 0 = 5
      then (\<exists>cnt. readFull r1 4 = Inr (cnt, spec_fields_bytes fs @ rest))
      else spec_fields_bytes fs @ rest = r1"
  proof (cases "Version pk = 5")
    case True
    have "readFull (be_bytes 4 (spec_L fs) @ spec_fields_bytes fs @ rest) 4
        = Inr (be_bytes 4 (spec_L fs), spec_fields_bytes fs @ rest)"
      by (rule readFull_append) (rule length_be_bytes)
    then show ?thesis using True spec_header_version(2) [OF ver] by (auto simp: r1_def)
  next
    case False
    then show ?thesis using spec_header_version(2) [OF ver] by (simp add: r1_def)
  qed
  have P: "parse env pk0 (body @ rest) = Inr (pk2\<lparr>Fingerprint := fp, KeyId := kid\<rparr>, rest)"
    unfolding parse_after_header [OF h spec_header_version(1) [OF ver] sk] pk1_def [symmetric]
    by (simp add: sw s2)
  have S: "Serialize (header_bytes env) Buffer_Write [] pk =
        (header_bytes env (if IsSubkey pk then packetTypePublicSubkey else packetTypePublicKey)
           (length body) @ body, None)"
    unfolding body_def by (rule Serialize_Buffer [OF k f])
  have D: "declared_fields (pk2\<lparr>Fingerprint := fp, KeyId := kid\<rparr>) = declared_fields pk"
    by (simp add: declared_fields_frame f f2)
  show ?thesis
    apply (rule exI [of _ body])
    apply (rule exI [of _ "pk2\<lparr>Fingerprint := fp, KeyId := kid\<rparr>"])
    apply (rule exI [of _ fs])
    apply (rule exI [of _ fp])
    apply (rule exI [of _ kid])
    using S P f D fr s by simp
qed


theorem serialize_parse_roundtrip_witness:
  "valid_key example_env example_rsa_key
   \<and> (\<exists>body pk' fp kid.
      Serialize (header_bytes example_env) Buffer_Write [] example_rsa_key =
        (header_bytes example_env packetTypePublicKey (length body) @ body, None)
    \<and> parse example_env zero_PublicKey (body @ []) = Inr (pk', [])
    \<and> declared_fields pk' = declared_fields example_rsa_key
    \<and> Version pk' = 4 \<and> Unix (CreationTime pk') = 1600000000
    \<and> PubKeyAlgo pk' = PubKeyAlgoRSA
    \<and> setFingerprintAndKeyId example_env example_rsa_key
         = Inr (example_rsa_key\<lparr>Fingerprint := fp, KeyId := kid\<rparr>)
    \<and> Fingerprint pk' = fp \<and> KeyId pk' = kid)
   \<and> valid_key example_env example_eddsa_key
   \<and> (\<exists>body pk' fp kid.
      Serialize (header_bytes example_env) Buffer_Write [] example_eddsa_key =
        (header_bytes example_env packetTypePublicSubkey (length body) @ body, None)
    \<and> parse example_env zero_PublicKey (body @ []) = Inr (pk', [])
    \<and> declared_fields pk' = declared_fields example_eddsa_key
    \<and> Version pk' = 5 \<and> Unix (CreationTime pk') = 1600000000
    \<and> PubKeyAlgo pk' = PubKeyAlgoEdDSA
    \<and> setFingerprintAndKeyId example_env example_eddsa_key
         = Inr (example_eddsa_key\<lparr>Fingerprint := fp, KeyId := kid\<rparr>)
    \<and> Fingerprint pk' = fp \<and> KeyId pk' = kid)"
proof -
  have v1: "valid_key example_env example_rsa_key"
    by (simp add: valid_key_def example_rsa_key_def example_time_def isRSA_def valid_RSA_def)
  have v2: "valid_key example_env example_eddsa_key"
    by (simp add: valid_key_def example_eddsa_key_def example_time_def algo_defs valid_EdDSA_def
        example_env_def oid_Ed25519_def oid_P256_def ci_Ed25519_def)
  have e1: "Version example_rsa_key = 4" "Unix (CreationTime example_rsa_key) = 1600000000"
    "PubKeyAlgo example_rsa_key = PubKeyAlgoRSA" "\<not> IsSubkey example_rsa_key"
    by (simp_all add: example_rsa_key_def example_time_def)
  have e2: "Version example_eddsa_key = 5" "Unix (CreationTime example_eddsa_key) = 1600000000"
    "PubKeyAlgo example_eddsa_key = PubKeyAlgoEdDSA" "IsSubkey example_eddsa_key"
    by (simp_all add: example_eddsa_key_def example_time_def)
  obtain body pk' fs fp kid where r:
    "Serialize (header_bytes example_env) Buffer_Write [] example_rsa_key =
        (header_bytes example_env
           (if IsSubkey example_rsa_key then packetTypePublicSubkey else packetTypePublicKey)
           (length body) @ body, None)"
    "parse example_env zero_PublicKey (body @ []) = Inr (pk', [])"
    "declared_fields example_rsa_key = map Some fs"
    "declared_fields pk' = declared_fields example_rsa_key"
    "Version pk' = Version example_rsa_key"
    "CreationTime pk' = \<lparr>Unix = Unix (CreationTime example_rsa_key), Nanosecond = 0\<rparr>"
    "PubKeyAlgo pk' = PubKeyAlgo example_rsa_key"
    "setFingerprintAndKeyId example_env example_rsa_key
         = Inr (example_rsa_key\<lparr>Fingerprint := fp, KeyId := kid\<rparr>)"
    "Fingerprint pk' = fp" "KeyId pk' = kid"
    using serialize_parse_roundtrip [OF v1, of zero_PublicKey "[]"] by (elim exE conjE)
  have 1: "\<exists>body pk' fp kid.
      Serialize (header_bytes example_env) Buffer_Write [] example_rsa_key =
        (header_bytes example_env packetTypePublicKey (length body) @ body, None)
    \<and> parse example_env zero_PublicKey (body @ []) = Inr (pk', [])
    \<and> declared_fields pk' = declared_fields example_rsa_key
    \<and> Version pk' = 4 \<and> Unix (CreationTime pk') = 1600000000
    \<and> PubKeyAlgo pk' = PubKeyAlgoRSA
    \<and> setFingerprintAndKeyId example_env example_rsa_key
         = Inr (example_rsa_key\<lparr>Fingerprint := fp, KeyId := kid\<rparr>)
    \<and> Fingerprint pk' = fp \<and> KeyId pk' = kid"
    apply (rule exI [of _ body])
    apply (rule exI [of _ pk'])
    apply (rule exI [of _ fp])
    apply (rule exI [of _ kid])
    using r e1 by simp
  obtain body2 pk2' fs2 fp2 kid2 where r2:
    "Serialize (header_bytes example_env) Buffer_Write [] example_eddsa_key =
        (header_bytes example_env
           (if IsSubkey example_eddsa_key then packetTypePublicSubkey else packetTypePublicKey)
           (length body2) @ body2, None)"
    "parse example_env zero_PublicKey (body2 @ []) = Inr (pk2', [])"
    "declared_fields example_eddsa_key = map Some fs2"
    "declared_fields pk2' = declared_fields example_eddsa_key"
    "Version pk2' = Version example_eddsa_key"
    "CreationTime pk2' = \<lparr>Unix = Unix (CreationTime example_eddsa_key), Nanosecond = 0\<rparr>"
    "PubKeyAlgo pk2' = PubKeyAlgo example_eddsa_key"
    "setFingerprintAndKeyId example_env example_eddsa_key
         = Inr (example_eddsa_key\<lparr>Fingerprint := fp2, KeyId := kid2\<rparr>)"
    "Fingerprint pk2' = fp2" "KeyId pk2' = kid2"
    using serialize_parse_roundtrip [OF v2, of zero_PublicKey "[]"] by (elim exE conjE)
  have 2: "\<exists>body pk' fp kid.
      Serialize (header_bytes example_env) Buffer_Write [] example_eddsa_key =
        (header_bytes example_env packetTypePublicSubkey (length body) @ body, None)
    \<and> parse example_env zero_PublicKey (body @ []) = Inr (pk', [])
    \<and> declared_fields pk' = declared_fields example_eddsa_key
    \<and> Version pk' = 5 \<and> Unix (CreationTime pk') = 1600000000
    \<and> PubKeyAlgo pk' = PubKeyAlgoEdDSA
    \<and> setFingerprintAndKeyId example_env example_eddsa_key
         = Inr (example_eddsa_key\<lparr>Fingerprint := fp, KeyId := kid\<rparr>)
    \<and> Fingerprint pk' = fp \<and> KeyId pk' = kid"
    apply (rule exI [of _ body2])
    apply (rule exI [of _ pk2'])
    apply (rule exI [of _ fp2])
    apply (rule exI [of _ kid2])
    using r2 e2 by simp
  show ?thesis using v1 v2 1 2 by (intro conjI)
qed

lemma KeyIdString_v4:
  assumes "derived env pk fs" and "Version pk = 4"
  shows "KeyIdString pk = Inr (hex_upper (PutUint64 (KeyId pk)))"
    and "KeyIdShortString pk = Inr (hex_upper (drop 4 (PutUint64 (KeyId pk))))"
proof -
  have l: "length (Fingerprint pk) = 20" and k: "PutUint64 (KeyId pk) = drop 12 (Fingerprint pk)"
    using assms by (simp_all add: derived_def)
  show "KeyIdString pk = Inr (hex_upper (PutUint64 (KeyId pk)))"
    using l by (simp add: KeyIdString_def k)
  show "KeyIdShortString pk = Inr (hex_upper (drop 4 (PutUint64 (KeyId pk))))"
    using l by (simp add: KeyIdShortString_def k)
qed

lemma KeyIdString_v5:
  assumes "derived env pk fs" and "Version pk = 5"
  shows "KeyIdString pk = Inr (hex_upper (take 8 (drop 12 (Fingerprint pk))))"
    and "hex_upper (PutUint64 (KeyId pk)) = hex_upper (take 8 (Fingerprint pk))"
proof -
  have l: "length (Fingerprint pk) = 32" and k: "PutUint64 (KeyId pk) = take 8 (Fingerprint pk)"
    using assms by (simp_all add: derived_def length_Sum256)
  show "KeyIdString pk = Inr (hex_upper (take 8 (drop 12 (Fingerprint pk))))"
    using l by (simp add: KeyIdString_def)
  show "hex_upper (PutUint64 (KeyId pk)) = hex_upper (take 8 (Fingerprint pk))"
    by (simp add: k)
qed

text \<open>
  Claim C6, evaluated at a version 5 key. The key id of the example key is the first 8
  bytes of its fingerprint, BCEBF993EB29BBD6, but \<^verbatim>\<open>KeyIdString\<close> prints the bytes 12 to
  19 of the fingerprint and \<^verbatim>\<open>KeyIdShortString\<close> the bytes 16 to 19, which are not the
  key id and not its last four bytes.
\<close>

theorem KeyIdString_v5_not_keyId:
  "Version example_rsa_key_v5_derived = 5
   \<and> SerializeForHash Buffer_Write [] example_rsa_key_v5_derived =
       ([0x9A, 0x00, 0x00, 0x00, 0x13, 0x05, 0x5F, 0x5E, 0x10, 0x00, 0x01, 0x00, 0x00, 0x00, 0x09,
         0x00, 0x10, 0xC5, 0x3B, 0x00, 0x11, 0x01, 0x00, 0x01], None)
   \<and> length (Fingerprint example_rsa_key_v5_derived) = 32
   \<and> PutUint64 (KeyId example_rsa_key_v5_derived) = take 8 (Fingerprint example_rsa_key_v5_derived)
   \<and> hex_upper (PutUint64 (KeyId example_rsa_key_v5_derived)) = ''BCEBF993EB29BBD6''
   \<and> KeyIdString example_rsa_key_v5_derived = Inr ''6BB0C954CF47022D''
   \<and> hex_upper (drop 4 (PutUint64 (KeyId example_rsa_key_v5_derived))) = ''EB29BBD6''
   \<and> KeyIdShortString example_rsa_key_v5_derived = Inr ''CF47022D''"
proof -
  have k: "known_algo (PubKeyAlgo example_rsa_key_v5_derived)"
    by (simp add: example_rsa_key_v5_derived_def example_rsa_key_v5_def example_rsa_key_def
        known_algo_def isRSA_def)
  have f: "declared_fields example_rsa_key_v5_derived
      = map Some [MPI [0xC5, 0x3B] 16, MPI [0x01, 0x00, 0x01] 17]"
    by (simp add: example_rsa_key_v5_derived_def example_rsa_key_v5_def example_rsa_key_def
        declared_fields_def isRSA_def)
  have p: "spec_preimage example_rsa_key_v5_derived [MPI [0xC5, 0x3B] 16, MPI [0x01, 0x00, 0x01] 17]
      = [0x9A, 0x00, 0x00, 0x00, 0x13, 0x05, 0x5F, 0x5E, 0x10, 0x00, 0x01, 0x00, 0x00, 0x00, 0x09,
         0x00, 0x10, 0xC5, 0x3B, 0x00, 0x11, 0x01, 0x00, 0x01]"
    by (simp add: spec_preimage_def spec_prefix_def spec_body_def spec_L_def spec_fields_bytes_def
        example_rsa_key_v5_derived_def example_rsa_key_v5_def example_rsa_key_def
        example_time_def be_bytes_4 PubKeyAlgoRSA_def drop_bit_eq_div)
  have 1: "SerializeForHash Buffer_Write [] example_rsa_key_v5_derived =
       ([0x9A, 0x00, 0x00, 0x00, 0x13, 0x05, 0x5F, 0x5E, 0x10, 0x00, 0x01, 0x00, 0x00, 0x00, 0x09,
         0x00, 0x10, 0xC5, 0x3B, 0x00, 0x11, 0x01, 0x00, 0x01], None)"
    using SerializeForHash_Buffer [OF k f, of "[]"] by (simp add: p)
  have fp: "Fingerprint example_rsa_key_v5_derived = example_v5_fingerprint"
    and kid: "KeyId example_rsa_key_v5_derived = Uint64 (take 8 example_v5_fingerprint)"
    and v: "Version example_rsa_key_v5_derived = 5"
    by (simp_all add: example_rsa_key_v5_derived_def example_rsa_key_v5_def)
  have l: "length example_v5_fingerprint = 32" by (simp add: example_v5_fingerprint_def)
  have pu: "PutUint64 (Uint64 (take 8 example_v5_fingerprint)) = take 8 example_v5_fingerprint"
    using l by (intro PutUint64_Uint64) simp
  have t8: "take 8 example_v5_fingerprint = [0xBC, 0xEB, 0xF9, 0x93, 0xEB, 0x29, 0xBB, 0xD6]"
    by (simp add: example_v5_fingerprint_def)
  have pk: "PutUint64 (KeyId example_rsa_key_v5_derived)
      = [0xBC, 0xEB, 0xF9, 0x93, 0xEB, 0x29, 0xBB, 0xD6]"
    using pu unfolding kid t8 by simp
  have tk: "take 8 (Fingerprint example_rsa_key_v5_derived)
      = [0xBC, 0xEB, 0xF9, 0x93, 0xEB, 0x29, 0xBB, 0xD6]"
    unfolding fp t8 ..
  have d4: "drop 4 [0xBC, 0xEB, 0xF9, 0x93, 0xEB, 0x29, 0xBB, 0xD6 :: byte] = [0xEB, 0x29, 0xBB, 0xD6]"
    by simp
  have h1: "hex_upper [0xBC, 0xEB, 0xF9, 0x93, 0xEB, 0x29, 0xBB, 0xD6] = ''BCEBF993EB29BBD6''"
    by (simp add: hex_upper_def hexdigit_upper_def)
  have h2: "hex_upper [0xEB, 0x29, 0xBB, 0xD6] = ''EB29BBD6''"
    by (simp add: hex_upper_def hexdigit_upper_def)
  have s1: "KeyIdString example_rsa_key_v5_derived = Inr ''6BB0C954CF47022D''"
    by (simp add: KeyIdString_def fp example_v5_fingerprint_def hex_upper_def hexdigit_upper_def)
  have s2: "KeyIdShortString example_rsa_key_v5_derived = Inr ''CF47022D''"
    by (simp add: KeyIdShortString_def fp example_v5_fingerprint_def hex_upper_def
        hexdigit_upper_def)
  have lf: "length (Fingerprint example_rsa_key_v5_derived) = 32" unfolding fp by (rule l)
  show ?thesis
    unfolding pk tk d4 h1 h2 using v 1 lf s1 s2 by (intro conjI refl)
qed

lemma VerifySignature_cannot_sign:
  "\<not> CanSign pk \<Longrightarrow> VerifySignature env pk h sig =
     (Some (InvalidArgumentError ''public key cannot generate signatures''), h, sig)"
  by (simp add: VerifySignature_def)

lemma VerifySignature_state:
  assumes "CanSign pk"
  shows "snd (snd (VerifySignature env pk h sig)) = with_metadata env sig"
    and "fst (snd (VerifySignature env pk h sig))
           = fst (Hash_Write env h (sig_HashSuffix (sig_data (with_metadata env sig))))"
  using assms by (simp_all add: VerifySignature_def Let_def split: sum.splits)

lemma with_metadata_suffix:
  "sig_HashSuffix (sig_data (with_metadata env sig)) =
     (if sig_Version (sig_data sig) = 5
         \<and> (sig_SigType (sig_data sig) = 0x00 \<or> sig_SigType (sig_data sig) = 0x01)
      then sig_HashSuffix (sig_data sig) @ v5_metadata env (sig_data sig)
      else sig_HashSuffix (sig_data sig))"
  by (cases sig) (auto simp: with_metadata_def)

text \<open>
  Claim C7 as stated fails. A version 5 subkey-binding signature (type 0x18) is a
  binding type, yet \<^verbatim>\<open>VerifySignature\<close> feeds its hash suffix without the metadata; a
  version 5 binary-document signature (type 0x00) is no binding or direct-key type, yet
  its hash suffix is fed with the metadata appended.
\<close>

theorem VerifySignature_metadata_counterexample:
  "CanSign example_rsa_key
   \<and> sig_Version (sig_data example_v5_binding_sig) = 5
   \<and> is_binding_or_direct_key_type (sig_SigType (sig_data example_v5_binding_sig))
   \<and> v5_metadata example_env (sig_data example_v5_binding_sig) = [0, 0, 0, 0, 0, 0]
   \<and> fst (snd (VerifySignature example_env example_rsa_key (Generic_Hash crypto_SHA256 [])
                 example_v5_binding_sig))
       = Generic_Hash crypto_SHA256 [0x04, 0x18, 0x01, 0x08, 0x00, 0x00]
   \<and> fst (snd (VerifySignature example_env example_rsa_key (Generic_Hash crypto_SHA256 [])
                 example_v5_binding_sig))
       \<noteq> Generic_Hash crypto_SHA256
           (sig_HashSuffix (sig_data example_v5_binding_sig)
            @ v5_metadata example_env (sig_data example_v5_binding_sig))
   \<and> sig_Version (sig_data example_v5_document_sig) = 5
   \<and> \<not> is_binding_or_direct_key_type (sig_SigType (sig_data example_v5_document_sig))
   \<and> fst (snd (VerifySignature example_env example_rsa_key (Generic_Hash crypto_SHA256 [])
                 example_v5_document_sig))
       = Generic_Hash crypto_SHA256 [0x04, 0x00, 0x01, 0x08, 0x00, 0x00, 0, 0, 0, 0, 0, 0]
   \<and> fst (snd (VerifySignature example_env example_rsa_key (Generic_Hash crypto_SHA256 [])
                 example_v5_document_sig))
       \<noteq> Generic_Hash crypto_SHA256 (sig_HashSuffix (sig_data example_v5_document_sig))"
proof -
  have c: "CanSign example_rsa_key"
    by (simp add: CanSign_def example_rsa_key_def algo_defs)
  have 1: "fst (snd (VerifySignature example_env example_rsa_key (Generic_Hash crypto_SHA256 [])
                 example_v5_binding_sig))
       = Generic_Hash crypto_SHA256 [0x04, 0x18, 0x01, 0x08, 0x00, 0x00]"
    unfolding VerifySignature_state(2) [OF c] with_metadata_suffix
    by (simp add: example_v5_binding_sig_def example_sigdata_def Hash_Write_def)
  have 2: "fst (snd (VerifySignature example_env example_rsa_key (Generic_Hash crypto_SHA256 [])
                 example_v5_document_sig))
       = Generic_Hash crypto_SHA256 [0x04, 0x00, 0x01, 0x08, 0x00, 0x00, 0, 0, 0, 0, 0, 0]"
    unfolding VerifySignature_state(2) [OF c] with_metadata_suffix
    by (simp add: example_v5_document_sig_def example_sigdata_def Hash_Write_def example_env_def)
  show ?thesis
    unfolding 1 2 using c
    by (simp add: example_v5_binding_sig_def example_v5_document_sig_def example_sigdata_def
        is_binding_or_direct_key_type_def example_env_def)
qed

text \<open>
  Claim C7, amended. When the key can sign, \<^verbatim>\<open>VerifySignature\<close> appends the metadata to
  the hash suffix of the signature exactly when the version of the signature is 5 and
  its type is 0x00 or 0x01, and it feeds the hash context with the hash suffix as it
  stands after that step; for every other version and type the hash suffix is fed
  unchanged. When the key cannot sign, the call returns before it touches the signature
  or the hash context.
\<close>

theorem VerifySignature_metadata:
  "(CanSign pk \<longrightarrow>
      sig_HashSuffix (sig_data (snd (snd (VerifySignature env pk h sig)))) =
        (if sig_Version (sig_data sig) = 5
            \<and> (sig_SigType (sig_data sig) = 0x00 \<or> sig_SigType (sig_data sig) = 0x01)
         then sig_HashSuffix (sig_data sig) @ v5_metadata env (sig_data sig)
         else sig_HashSuffix (sig_data sig))
      \<and> fst (snd (VerifySignature env pk h sig)) =
          fst (Hash_Write env h
                 (sig_HashSuffix (sig_data (snd (snd (VerifySignature env pk h sig)))))))
   \<and> (\<not> CanSign pk \<longrightarrow>
        snd (VerifySignature env pk h sig) = (h, sig))"
  using VerifySignature_state [of pk env h sig] with_metadata_suffix [of env sig]
    VerifySignature_cannot_sign [of pk env h sig]
  by auto

theorem VerifySignature_metadata_witness:
  "CanSign example_rsa_key
   \<and> sig_HashSuffix (sig_data (snd (snd (VerifySignature example_env example_rsa_key
        (Generic_Hash crypto_SHA256 []) example_v5_document_sig))))
       = [0x04, 0x00, 0x01, 0x08, 0x00, 0x00, 0, 0, 0, 0, 0, 0]
   \<and> fst (snd (VerifySignature example_env example_rsa_key (Generic_Hash crypto_SHA256 [])
                 example_v5_document_sig))
       = Generic_Hash crypto_SHA256 [0x04, 0x00, 0x01, 0x08, 0x00, 0x00, 0, 0, 0, 0, 0, 0]
   \<and> \<not> CanSign (example_rsa_key\<lparr>PubKeyAlgo := PubKeyAlgoElGamal\<rparr>)
   \<and> snd (VerifySignature example_env (example_rsa_key\<lparr>PubKeyAlgo := PubKeyAlgoElGamal\<rparr>)
            (Generic_Hash crypto_SHA256 []) example_v5_document_sig)
       = (Generic_Hash crypto_SHA256 [], example_v5_document_sig)"
proof -
  have c: "CanSign example_rsa_key"
    by (simp add: CanSign_def example_rsa_key_def algo_defs)
  have n: "\<not> CanSign (example_rsa_key\<lparr>PubKeyAlgo := PubKeyAlgoElGamal\<rparr>)"
    by (simp add: CanSign_def)
  have s: "sig_HashSuffix (sig_data (snd (snd (VerifySignature example_env example_rsa_key
        (Generic_Hash crypto_SHA256 []) example_v5_document_sig))))
       = [0x04, 0x00, 0x01, 0x08, 0x00, 0x00, 0, 0, 0, 0, 0, 0]"
    using VerifySignature_metadata [of example_rsa_key example_env "Generic_Hash crypto_SHA256 []"
        example_v5_document_sig] c
    by (simp add: example_v5_document_sig_def example_sigdata_def example_env_def)
  have h: "fst (snd (VerifySignature example_env example_rsa_key (Generic_Hash crypto_SHA256 [])
                 example_v5_document_sig))
       = Generic_Hash crypto_SHA256 [0x04, 0x00, 0x01, 0x08, 0x00, 0x00, 0, 0, 0, 0, 0, 0]"
    using VerifySignature_metadata [of example_rsa_key example_env "Generic_Hash crypto_SHA256 []"
        example_v5_document_sig] c
    unfolding s by (simp add: Hash_Write_def)
  have u: "snd (VerifySignature example_env (example_rsa_key\<lparr>PubKeyAlgo := PubKeyAlgoElGamal\<rparr>)
            (Generic_Hash crypto_SHA256 []) example_v5_document_sig)
       = (Generic_Hash crypto_SHA256 [], example_v5_document_sig)"
    using VerifySignature_metadata [of "example_rsa_key\<lparr>PubKeyAlgo := PubKeyAlgoElGamal\<rparr>"
        example_env "Generic_Hash crypto_SHA256 []" example_v5_document_sig] n
    by simp
  show ?thesis using c s h n u by (intro conjI)
qed

lemma with_metadata_frame:
  "sig_FlagSign (sig_data (with_metadata env sig)) = sig_FlagSign (sig_data sig)"
  "EmbeddedSignature (with_metadata env sig) = EmbeddedSignature sig"
  by (cases sig; simp add: with_metadata_def)+

lemma VerifySignature_frame:
  "sig_FlagSign (sig_data (snd (snd (VerifySignature env pk h sig)))) = sig_FlagSign (sig_data sig)"
  "EmbeddedSignature (snd (snd (VerifySignature env pk h sig))) = EmbeddedSignature sig"
proof -
  have "snd (snd (VerifySignature env pk h sig)) = sig
      \<or> snd (snd (VerifySignature env pk h sig)) = with_metadata env sig"
    using VerifySignature_state(1) [of pk env h sig] VerifySignature_cannot_sign [of pk env h sig]
    by (cases "CanSign pk") simp_all
  then show
    "sig_FlagSign (sig_data (snd (snd (VerifySignature env pk h sig)))) = sig_FlagSign (sig_data sig)"
    "EmbeddedSignature (snd (snd (VerifySignature env pk h sig))) = EmbeddedSignature sig"
    by (auto simp: with_metadata_frame)
qed

lemma never_fails_Hash: "never_fails (Hash_Write env)"
  by (simp add: never_fails_def Hash_Write_def split: Hash.splits)

lemma keySignatureHash_feed:
  assumes "Available env hashFunc"
    and "known_algo (PubKeyAlgo pk)" and "declared_fields pk = map Some fs"
    and "known_algo (PubKeyAlgo signedK)" and "declared_fields signedK = map Some fs2"
  shows "keySignatureHash env pk signedK hashFunc =
     Inr (feed (Hash_Write env) (new_Hash hashFunc)
            (preimage_chunks pk fs @ preimage_chunks signedK fs2))"
  by (simp add: keySignatureHash_def assms(1)
      SerializeForHash_feed [OF never_fails_Hash assms(2,3)]
      SerializeForHash_feed [OF never_fails_Hash assms(4,5)] feed_append)

lemma feed_Generic:
  "feed (Hash_Write env) (Generic_Hash i b) cs = Generic_Hash i (b @ concat cs)"
  by (induction cs arbitrary: b) (simp_all add: feed_Nil feed_Cons Hash_Write_def)

lemma VerifyKeySignature_after_outer:
  assumes "keySignatureHash env pk signedK (sig_Hash (sig_data sig)) = Inr h"
    and "fst (VerifySignature env pk h sig) = None"
  shows "VerifyKeySignature env pk signedK sig =
     (if sig_FlagSign (sig_data sig) then
        (case EmbeddedSignature sig of
           None \<Rightarrow> Some (StructuralError ''signing subkey is missing cross-signature'')
         | Some emb \<Rightarrow>
             (case keySignatureHash env pk signedK (sig_Hash (sig_data emb)) of
                Inl err \<Rightarrow>
                  Some (wrap_Structural ''error while hashing for cross-signature: '' err)
              | Inr h2 \<Rightarrow>
                  (case fst (VerifySignature env signedK h2 emb) of
                     Some err \<Rightarrow>
                       Some (wrap_Structural ''error while verifying cross-signature: '' err)
                   | None \<Rightarrow> None)))
      else None)"
proof -
  obtain h' sig' where v: "VerifySignature env pk h sig = (None, h', sig')"
    using assms(2) by (cases "VerifySignature env pk h sig") auto
  have s: "sig' = snd (snd (VerifySignature env pk h sig))" by (simp add: v)
  have f: "sig_FlagSign (sig_data sig') = sig_FlagSign (sig_data sig)"
    "EmbeddedSignature sig' = EmbeddedSignature sig"
    unfolding s by (rule VerifySignature_frame)+
  have c: "(case VerifySignature env signedK h2 emb of
              (Some err, h3, emb') \<Rightarrow> Some (wrap_Structural m err)
            | (None, h3, emb') \<Rightarrow> None)
         = (case fst (VerifySignature env signedK h2 emb) of
              Some err \<Rightarrow> Some (wrap_Structural m err)
            | None \<Rightarrow> None)" for h2 emb m
    by (cases "VerifySignature env signedK h2 emb") (auto split: option.splits)
  show ?thesis
    unfolding VerifyKeySignature_def assms(1) c by (simp add: v f)
qed


lemma wrap_Structural_cases:
  "(\<exists>m. wrap_Structural msg e = StructuralError m) \<or> (\<exists>m. wrap_Structural msg e = Panic m)"
  by (cases e) simp_all

text \<open>
  Claim C4. Once the hash for the binding signature has been built and the binding
  signature has verified under the signing key, and the signature declares signing
  capability: without an embedded signature \<^verbatim>\<open>VerifyKeySignature\<close> returns the
  structural error (not a signature error); with an embedded signature it succeeds
  exactly when the key-signature hash for the embedded signature can be built and the
  embedded signature verifies under the signed key on that hash, and otherwise it
  returns a structural error (or panics). The hash is a fresh context of the
  signature's hash function fed with the preimage of the signing key and then the
  preimage of the signed key.
\<close>

theorem VerifyKeySignature_cross_signature:
  assumes "keySignatureHash env pk signedK (sig_Hash (sig_data sig)) = Inr h"
    and "fst (VerifySignature env pk h sig) = None"
    and "sig_FlagSign (sig_data sig)"
  shows "(EmbeddedSignature sig = None \<longrightarrow>
            VerifyKeySignature env pk signedK sig
              = Some (StructuralError ''signing subkey is missing cross-signature''))
    \<and> (EmbeddedSignature sig = Some emb \<longrightarrow>
          ((VerifyKeySignature env pk signedK sig = None) \<longleftrightarrow>
             (\<exists>h2. keySignatureHash env pk signedK (sig_Hash (sig_data emb)) = Inr h2
                   \<and> fst (VerifySignature env signedK h2 emb) = None))
          \<and> (VerifyKeySignature env pk signedK sig = None
               \<or> (\<exists>m. VerifyKeySignature env pk signedK sig = Some (StructuralError m))
               \<or> (\<exists>m. VerifyKeySignature env pk signedK sig = Some (Panic m))))
    \<and> (Available env hashFunc \<and> known_algo (PubKeyAlgo pk) \<and> declared_fields pk = map Some fs
          \<and> known_algo (PubKeyAlgo signedK) \<and> declared_fields signedK = map Some fs2 \<longrightarrow>
          keySignatureHash env pk signedK hashFunc =
            Inr (feed (Hash_Write env) (new_Hash hashFunc)
                   (preimage_chunks pk fs @ preimage_chunks signedK fs2))
          \<and> concat (preimage_chunks pk fs @ preimage_chunks signedK fs2)
              = spec_preimage pk fs @ spec_preimage signedK fs2)"
proof -
  note V = VerifyKeySignature_after_outer [OF assms(1,2)]
  have 1: "EmbeddedSignature sig = None \<longrightarrow>
            VerifyKeySignature env pk signedK sig
              = Some (StructuralError ''signing subkey is missing cross-signature'')"
    by (simp add: V assms(3))
  have 2: "(VerifyKeySignature env pk signedK sig = None) \<longleftrightarrow>
             (\<exists>h2. keySignatureHash env pk signedK (sig_Hash (sig_data emb)) = Inr h2
                   \<and> fst (VerifySignature env signedK h2 emb) = None)"
    if "EmbeddedSignature sig = Some emb"
    by (simp add: V assms(3) that split: sum.splits option.splits)
  have 3: "VerifyKeySignature env pk signedK sig = None
               \<or> (\<exists>m. VerifyKeySignature env pk signedK sig = Some (StructuralError m))
               \<or> (\<exists>m. VerifyKeySignature env pk signedK sig = Some (Panic m))"
    if "EmbeddedSignature sig = Some emb"
    using wrap_Structural_cases
    by (simp add: V assms(3) that split: sum.splits option.splits)
  have 4: "keySignatureHash env pk signedK hashFunc =
            Inr (feed (Hash_Write env) (new_Hash hashFunc)
                   (preimage_chunks pk fs @ preimage_chunks signedK fs2))"
    if "Available env hashFunc" "known_algo (PubKeyAlgo pk)" "declared_fields pk = map Some fs"
      "known_algo (PubKeyAlgo signedK)" "declared_fields signedK = map Some fs2"
    by (rule keySignatureHash_feed [OF that])
  have 5: "concat (preimage_chunks pk fs @ preimage_chunks signedK fs2)
              = spec_preimage pk fs @ spec_preimage signedK fs2"
    by (simp add: concat_preimage_chunks)
  show ?thesis using 1 2 3 4 5 by blast
qed


lemma example_spec_preimage:
  "spec_preimage example_rsa_key [MPI [0xC5, 0x3B] 16, MPI [0x01, 0x00, 0x01] 17] = example_preimage"
  by (simp add: spec_preimage_def spec_prefix_def spec_body_def example_rsa_key_def
      example_time_def spec_L_def spec_fields_bytes_def be_bytes_2 be_bytes_4 PubKeyAlgoRSA_def
      drop_bit_eq_div example_preimage_def)

lemma example_keySignatureHash:
  "keySignatureHash example_env example_rsa_key example_rsa_key crypto_SHA256
     = Inr (Generic_Hash crypto_SHA256 (example_preimage @ example_preimage))"
proof -
  have a: "Available example_env crypto_SHA256" by (simp add: Available_def)
  have n: "new_Hash crypto_SHA256 = Generic_Hash crypto_SHA256 []"
    by (simp add: new_Hash_def crypto_SHA256_def crypto_SHA1_def)
  show ?thesis
    unfolding keySignatureHash_feed [OF a example_known example_fields example_known example_fields]
      n feed_Generic
    by (simp add: concat_preimage_chunks example_spec_preimage)
qed

lemma BitLen_example: "BitLen 50491 = 16"
  by simp

lemma example_VerifySignature:
  assumes "t = 0x18 \<or> t = 0x19"
  shows "fst (VerifySignature example_env example_rsa_key
            (Generic_Hash crypto_SHA256 (example_preimage @ example_preimage))
            (Signature (example_sigdata 4 t 47) e)) = None"
proof -
  have c: "CanSign example_rsa_key"
    by (simp add: CanSign_def example_rsa_key_def algo_defs)
  have m: "with_metadata example_env (Signature (example_sigdata 4 t 47) e)
      = Signature (example_sigdata 4 t 47) e"
    by (simp add: with_metadata_def example_sigdata_def)
  have w: "fst (Hash_Write example_env
                 (Generic_Hash crypto_SHA256 (example_preimage @ example_preimage))
                 (sig_HashSuffix (example_sigdata 4 t 47)))
      = Generic_Hash crypto_SHA256
          (example_preimage @ example_preimage @ [0x04, t, 0x01, 0x08, 0x00, 0x00])"
    by (simp add: Hash_Write_def example_sigdata_def)
  have s: "Hash_Sum example_env (Generic_Hash crypto_SHA256
          (example_preimage @ example_preimage @ [0x04, t, 0x01, 0x08, 0x00, 0x00])) []
      = Inr (replicate 32 47)"
    by (simp add: Hash_Sum_def example_env_def example_preimage_def crypto_SHA256_def)
  have r: "verify_switch example_env example_rsa_key (example_sigdata 4 t 47) (replicate 32 47)
      = None"
    by (simp add: verify_switch_def verify_RSA_def example_rsa_key_def example_sigdata_def
        padToKeySize_def BitLen_example example_env_def Let_def del: BitLen.simps)
  have a: "PubKeyAlgo example_rsa_key = sig_PubKeyAlgo (example_sigdata 4 t 47)"
    by (simp add: example_rsa_key_def example_sigdata_def)
  have g: "sig_HashTag (example_sigdata 4 t 47) = (47, 47)" by (simp add: example_sigdata_def)
  show ?thesis
    unfolding VerifySignature_def Let_def m
    by (simp add: c w s r a g)
qed

theorem VerifyKeySignature_cross_signature_witness:
  "keySignatureHash example_env example_rsa_key example_rsa_key
       (sig_Hash (sig_data example_binding_sig))
     = Inr (Generic_Hash crypto_SHA256 (example_preimage @ example_preimage))
   \<and> fst (VerifySignature example_env example_rsa_key
            (Generic_Hash crypto_SHA256 (example_preimage @ example_preimage))
            example_binding_sig) = None
   \<and> sig_FlagSign (sig_data example_binding_sig)
   \<and> EmbeddedSignature example_binding_sig = Some example_cross_sig
   \<and> VerifyKeySignature example_env example_rsa_key example_rsa_key example_binding_sig = None
   \<and> EmbeddedSignature example_binding_sig_no_cross = None
   \<and> VerifyKeySignature example_env example_rsa_key example_rsa_key example_binding_sig_no_cross
       = Some (StructuralError ''signing subkey is missing cross-signature'')"
proof -
  have hs: "sig_Hash (sig_data example_binding_sig) = crypto_SHA256"
    "sig_Hash (sig_data example_binding_sig_no_cross) = crypto_SHA256"
    "sig_Hash (sig_data example_cross_sig) = crypto_SHA256"
    by (simp_all add: example_binding_sig_def example_binding_sig_no_cross_def
        example_cross_sig_def example_sigdata_def)
  have k: "keySignatureHash example_env example_rsa_key example_rsa_key
       (sig_Hash (sig_data example_binding_sig))
     = Inr (Generic_Hash crypto_SHA256 (example_preimage @ example_preimage))"
    unfolding hs by (rule example_keySignatureHash)
  have k': "keySignatureHash example_env example_rsa_key example_rsa_key
       (sig_Hash (sig_data example_binding_sig_no_cross))
     = Inr (Generic_Hash crypto_SHA256 (example_preimage @ example_preimage))"
    unfolding hs by (rule example_keySignatureHash)
  have v: "fst (VerifySignature example_env example_rsa_key
            (Generic_Hash crypto_SHA256 (example_preimage @ example_preimage))
            example_binding_sig) = None"
    unfolding example_binding_sig_def by (rule example_VerifySignature) simp
  have v': "fst (VerifySignature example_env example_rsa_key
            (Generic_Hash crypto_SHA256 (example_preimage @ example_preimage))
            example_binding_sig_no_cross) = None"
    unfolding example_binding_sig_no_cross_def by (rule example_VerifySignature) simp
  have vc: "fst (VerifySignature example_env example_rsa_key
            (Generic_Hash crypto_SHA256 (example_preimage @ example_preimage))
            example_cross_sig) = None"
    unfolding example_cross_sig_def by (rule example_VerifySignature) simp
  have f: "sig_FlagSign (sig_data example_binding_sig)"
    "sig_FlagSign (sig_data example_binding_sig_no_cross)"
    by (simp_all add: example_binding_sig_def example_binding_sig_no_cross_def
        example_sigdata_def)
  have e: "EmbeddedSignature example_binding_sig = Some example_cross_sig"
    by (simp add: example_binding_sig_def)
  have e': "EmbeddedSignature example_binding_sig_no_cross = None"
    by (simp add: example_binding_sig_no_cross_def)
  have kc: "keySignatureHash example_env example_rsa_key example_rsa_key
       (sig_Hash (sig_data example_cross_sig))
     = Inr (Generic_Hash crypto_SHA256 (example_preimage @ example_preimage))"
    unfolding hs by (rule example_keySignatureHash)
  have 1: "VerifyKeySignature example_env example_rsa_key example_rsa_key example_binding_sig
      = None"
    using VerifyKeySignature_cross_signature [OF k v f(1), of example_cross_sig] e kc vc
    by blast
  have 2: "VerifyKeySignature example_env example_rsa_key example_rsa_key
        example_binding_sig_no_cross
       = Some (StructuralError ''signing subkey is missing cross-signature'')"
    using VerifyKeySignature_cross_signature [OF k' v' f(2)] e' by blast
  show ?thesis using k v f(1) e 1 e' 2 by (intro conjI)
qed

end
